(* ===== verification/Prelude.thy ===== *)
theory Prelude
  imports Complex_Main "HOL-Library.AList" "HOL-Library.Product_Lexorder"
    "HOL-Library.List_Lexorder" "HOL-Library.Char_ord" "HOL-Library.Option_ord"
begin

section \<open>Shared vocabulary of the development\<close>

text \<open>
  What every component shares: the clock, JSON values, results that may be an exception,
  Python dictionaries, database tables (lists of rows changed by \<open>UPDATE ... WHERE\<close> and
  \<open>DELETE ... WHERE\<close>), and the reachability rule that turns a preserved invariant into a fact
  about every reachable state.

  Times are whole microseconds, the resolution of Python's \<open>datetime\<close> and of PostgreSQL's
  \<open>timestamptz\<close>. JSON columns hold the JSON value rather than its text.
\<close>

named_theorems query_defs "the definitions of the SQL queries"
named_theorems row_simps "what the queries leave of a row"

type_synonym time = int

definition seconds :: "int \<Rightarrow> time" where
  "seconds n = n * 1000000"

lemma seconds_mono [simp]: "seconds a \<le> seconds b \<longleftrightarrow> a \<le> b"
  by (simp add: seconds_def)

lemma seconds_less [simp]: "seconds a < seconds b \<longleftrightarrow> a < b"
  by (simp add: seconds_def)

lemma seconds_minus [simp]: "seconds (- a) = - seconds a"
  by (simp add: seconds_def)

lemma seconds_add: "seconds (a + b) = seconds a + seconds b"
  by (simp add: seconds_def algebra_simps)

lemma seconds_zero [simp]: "seconds 0 = 0"
  by (simp add: seconds_def)

lemma seconds_pos [simp]: "0 < seconds a \<longleftrightarrow> 0 < a" "0 \<le> seconds a \<longleftrightarrow> 0 \<le> a"
  by (simp_all add: seconds_def)

datatype json =
    JNull
  | JBool bool
  | JInt int
  | JStr string
  | JList "json list"
  | JObj "(string \<times> json) list"

subsection \<open>Results: an exception or a value\<close>

text \<open>
  The exceptions the modelled code raises, with what the code puts in them: a FastAPI
  \<open>HTTPException\<close> (status and detail), the API's own \<open>ZooError\<close> (a code of
  \<open>errors.CODES\<close>, message and hint), the built-in ones and Fernet's \<open>InvalidToken\<close>.
\<close>

datatype exc =
    HTTPException int string
  | ZooError string string "string option"
  | ValueError string
  | RuntimeError string
  | KeyError string
  | IndexError
  | AssertionError
  | InvalidToken
  | FileNotFoundError string

type_synonym 'a res = "exc + 'a"

definition bindr :: "'e + 'a \<Rightarrow> ('a \<Rightarrow> 'e + 'b) \<Rightarrow> 'e + 'b" where
  "bindr m f = (case m of Inl e \<Rightarrow> Inl e | Inr x \<Rightarrow> f x)"

definition guardr :: "bool \<Rightarrow> 'e \<Rightarrow> 'e + unit" where
  "guardr b e = (if b then Inr () else Inl e)"

lemma bindr_simps [simp]: "bindr (Inl e) f = Inl e" "bindr (Inr x) f = f x"
  by (simp_all add: bindr_def)

lemma bindr_eq_Inr [simp]: "bindr m f = Inr y \<longleftrightarrow> (\<exists>x. m = Inr x \<and> f x = Inr y)"
  by (cases m) auto

lemma bindr_eq_Inl: "bindr m f = Inl e \<longleftrightarrow> m = Inl e \<or> (\<exists>x. m = Inr x \<and> f x = Inl e)"
  by (cases m) auto

lemma guardr_eq [simp]: "guardr b e = Inr u \<longleftrightarrow> b" "guardr b e = Inl e' \<longleftrightarrow> \<not> b \<and> e' = e"
  by (auto simp: guardr_def)

lemma guardr_bool [simp]: "guardr True e = Inr ()" "guardr False e = Inl e"
  by (simp_all add: guardr_def)

text \<open>Indexing a Python sequence: a negative index counts from the end.\<close>

definition py_nth :: "'a list \<Rightarrow> int \<Rightarrow> 'a res" where
  "py_nth xs i =
     (let n = int (length xs); k = (if i < 0 then n + i else i)
      in if 0 \<le> k \<and> k < n then Inr (xs ! nat k) else Inl IndexError)"

lemma py_nth_in: "0 \<le> i \<Longrightarrow> i < int (length xs) \<Longrightarrow> py_nth xs i = Inr (xs ! nat i)"
  by (simp add: py_nth_def)

text \<open>\<open>round\<close> of a quotient: to the nearest integer, halves to the even one.\<close>

definition py_round_div :: "int \<Rightarrow> int \<Rightarrow> int" where
  "py_round_div a b =
     (let q = a div b; r = a mod b
      in if 2 * r < b then q else if 2 * r > b then q + 1 else if even q then q else q + 1)"

text \<open>\<open>str\<close> of an integer.\<close>

fun digits :: "nat \<Rightarrow> string" where
  "digits n = (if n < 10 then [char_of (48 + n)] else digits (n div 10) @ [char_of (48 + n mod 10)])"

declare digits.simps [simp del]

definition py_str :: "int \<Rightarrow> string" where
  "py_str i = (if i < 0 then CHR ''-'' # digits (nat (- i)) else digits (nat i))"

lemma digit_chars [simp]:
  "char_of (48 :: nat) = CHR ''0''"
  "char_of (49 :: nat) = CHR ''1''"
  "char_of (50 :: nat) = CHR ''2''"
  "char_of (51 :: nat) = CHR ''3''"
  "char_of (52 :: nat) = CHR ''4''"
  "char_of (53 :: nat) = CHR ''5''"
  "char_of (54 :: nat) = CHR ''6''"
  "char_of (55 :: nat) = CHR ''7''"
  "char_of (56 :: nat) = CHR ''8''"
  "char_of (57 :: nat) = CHR ''9''"
  by code_simp+

lemma digits_not_Nil [simp]: "digits n \<noteq> []"
  by (subst digits.simps) simp

text \<open>
  \<open>repr\<close> of a string: in single quotes, in double quotes when it has a single one and no double
  one; backslashes, the quote and what does not print are escaped. Characters are those up to
  \<open>U+00FF\<close>.
\<close>

definition hex_digit :: "nat \<Rightarrow> char" where
  "hex_digit n = ''0123456789abcdef'' ! n"

definition repr_char :: "char \<Rightarrow> char \<Rightarrow> string" where
  "repr_char q c =
     (let n = of_char c :: nat
      in if c = q \<or> n = 92 then [char_of (92 :: nat), c]
         else if n = 9 then [char_of (92 :: nat), CHR ''t'']
         else if n = 10 then [char_of (92 :: nat), CHR ''n'']
         else if n = 13 then [char_of (92 :: nat), CHR ''r'']
         else if n < 32 \<or> (127 \<le> n \<and> n \<le> 160) \<or> n = 173
         then [char_of (92 :: nat), CHR ''x'', hex_digit (n div 16), hex_digit (n mod 16)]
         else [c])"

definition py_repr :: "string \<Rightarrow> string" where
  "py_repr s =
     (let single = char_of (39 :: nat); double = char_of (34 :: nat);
          q = (if single \<in> set s \<and> double \<notin> set s then double else single)
      in [q] @ concat (map (repr_char q) s) @ [q])"

text \<open>\<open>str.partition\<close> at a character: what is before it, whether it is there, what is after.\<close>

fun partition_at :: "char \<Rightarrow> string \<Rightarrow> string \<times> bool \<times> string" where
  "partition_at c [] = ([], False, [])"
| "partition_at c (x # xs) =
     (if x = c then ([], True, xs) else case partition_at c xs of (a, b, d) \<Rightarrow> (x # a, b, d))"

lemma partition_at_append: "c \<notin> set a \<Longrightarrow> partition_at c (a @ c # b) = (a, True, b)"
  by (induction a) auto

lemma partition_at_join: "partition_at c s = (a, True, b) \<Longrightarrow> s = a @ c # b \<and> c \<notin> set a"
  by (induction s arbitrary: a) (auto split: if_splits prod.splits)

text \<open>\<open>str.split\<close> at a character, and \<open>str.join\<close>.\<close>

fun split_at :: "char \<Rightarrow> string \<Rightarrow> string list" where
  "split_at c [] = [[]]"
| "split_at c (x # xs) =
     (if x = c then [] # split_at c xs
      else case split_at c xs of [] \<Rightarrow> [[x]] | w # ws \<Rightarrow> (x # w) # ws)"

fun join :: "string \<Rightarrow> string list \<Rightarrow> string" where
  "join sep [] = []"
| "join sep [w] = w"
| "join sep (w # v # ws) = w @ sep @ join sep (v # ws)"

lemma split_at_not_Nil [simp]: "split_at c s \<noteq> []"
  by (induction s) (auto split: list.splits)

lemma split_at_word: "c \<notin> set w \<Longrightarrow> split_at c w = [w]"
  by (induction w) auto

lemma split_at_append: "c \<notin> set w \<Longrightarrow> split_at c (w @ c # s) = w # split_at c s"
  by (induction w) (auto split: list.splits)

lemma split_at_join:
  "ws \<noteq> [] \<Longrightarrow> \<forall>w \<in> set ws. c \<notin> set w \<Longrightarrow> split_at c (join [c] ws) = ws"
proof (induction "[c]" ws rule: join.induct)
  case (3 w v ws)
  then show ?case by (simp add: split_at_append)
qed (simp_all add: split_at_word)

text \<open>\<open>str.strip\<close> of blanks, and the truth of an optional text: neither null nor empty.\<close>

definition is_space :: "char \<Rightarrow> bool" where
  "is_space c \<longleftrightarrow> of_char c \<in> {9 :: nat, 10, 11, 12, 13, 28, 29, 30, 31, 32, 133, 160}"

definition strip :: "string \<Rightarrow> string" where
  "strip s = rev (dropWhile is_space (rev (dropWhile is_space s)))"

definition truthy :: "string option \<Rightarrow> bool" where
  "truthy x = (case x of None \<Rightarrow> False | Some s \<Rightarrow> s \<noteq> [])"

subsection \<open>Dictionaries\<close>

text \<open>
  A Python dictionary keeps its keys in insertion order, and assigning to a key it already has
  keeps that key's place: an association list with \<^const>\<open>AList.update\<close>.
\<close>

type_synonym ('k, 'v) dict = "('k \<times> 'v) list"

abbreviation dict_get :: "('k, 'v) dict \<Rightarrow> 'k \<Rightarrow> 'v option" where
  "dict_get \<equiv> map_of"

abbreviation dict_set :: "'k \<Rightarrow> 'v \<Rightarrow> ('k, 'v) dict \<Rightarrow> ('k, 'v) dict" where
  "dict_set \<equiv> AList.update"

definition dict_pop :: "'k \<Rightarrow> ('k, 'v) dict \<Rightarrow> ('k, 'v) dict" where
  "dict_pop k d = filter (\<lambda>p. fst p \<noteq> k) d"

text \<open>The display \<open>{**d, **e}\<close>: the items of \<open>e\<close> assigned in order over \<open>d\<close>.\<close>

fun dict_merge :: "('k, 'v) dict \<Rightarrow> ('k, 'v) dict \<Rightarrow> ('k, 'v) dict" where
  "dict_merge d [] = d"
| "dict_merge d ((k, v) # e) = dict_merge (dict_set k v d) e"

abbreviation wf_dict :: "('k, 'v) dict \<Rightarrow> bool" where
  "wf_dict d \<equiv> distinct (map fst d)"

lemma dict_get_pop [simp]: "dict_get (dict_pop k d) = (dict_get d)(k := None)"
  by (induction d) (auto simp: dict_pop_def fun_eq_iff)

lemma length_dict_set: "length (dict_set k v d) \<le> Suc (length d)"
  by (induction d) auto

lemma dict_pop_set: "dict_get d k = None \<Longrightarrow> dict_pop k (dict_set k v d) = d"
  by (induction d) (auto simp: dict_pop_def split: if_splits)

lemma wf_dict_set [simp]: "wf_dict d \<Longrightarrow> wf_dict (dict_set k v d)"
  by (rule distinct_update)

lemma wf_dict_pop [simp]: "wf_dict d \<Longrightarrow> wf_dict (dict_pop k d)"
  by (simp add: dict_pop_def distinct_map_filter)

lemma keys_dict_pop [simp]: "fst ` set (dict_pop k d) = fst ` set d - {k}"
  by (auto simp: dict_pop_def)

lemma keys_dict_set: "fst ` set (dict_set k v d) = insert k (fst ` set d)"
  by (induction d) auto

lemma wf_dict_merge: "wf_dict d \<Longrightarrow> wf_dict (dict_merge d e)"
  by (induction d e rule: dict_merge.induct) auto

lemma dict_get_merge: "wf_dict e \<Longrightarrow> dict_get (dict_merge d e) = dict_get d ++ dict_get e"
proof (induction d e rule: dict_merge.induct)
  case (2 d k v e)
  then have "k \<notin> dom (dict_get e)"
    by (auto simp: dom_map_of_conv_image_fst)
  with 2 show ?case
    by (auto simp: update_conv' fun_eq_iff map_add_def split: option.splits)
qed simp

lemma dict_get_filter:
  "wf_dict d \<Longrightarrow> dict_get (filter (\<lambda>(k, v). P v) d) k =
     (case dict_get d k of Some v \<Rightarrow> if P v then Some v else None | None \<Rightarrow> None)"
proof (induction d)
  case (Cons a d)
  then have "dict_get (filter (\<lambda>(k, v). P v) d) (fst a) = None"
    by (auto simp: map_of_eq_None_iff)
  with Cons show ?case by (cases a) (auto split: option.splits)
qed simp

lemma dict_get_mem: "wf_dict d \<Longrightarrow> dict_get d k = Some v \<longleftrightarrow> (k, v) \<in> set d"
  by (simp add: map_of_eq_Some_iff)

subsection \<open>Tables\<close>

text \<open>
  A table is the list of its rows in insertion order. \<open>update_where p f t\<close> is
  \<open>UPDATE t SET f WHERE p\<close>; \<open>find_row p t\<close> is the first row a \<open>LIMIT 1\<close> query gives.
\<close>

type_synonym 'r tbl = "'r list"

definition update_where :: "('r \<Rightarrow> bool) \<Rightarrow> ('r \<Rightarrow> 'r) \<Rightarrow> 'r tbl \<Rightarrow> 'r tbl" where
  "update_where p f t = map (\<lambda>r. if p r then f r else r) t"

definition delete_where :: "('r \<Rightarrow> bool) \<Rightarrow> 'r tbl \<Rightarrow> 'r tbl" where
  "delete_where p t = filter (\<lambda>r. \<not> p r) t"

definition find_row :: "('r \<Rightarrow> bool) \<Rightarrow> 'r tbl \<Rightarrow> 'r option" where
  "find_row p t = find p t"

lemma find_row_SomeD: "find_row p t = Some r \<Longrightarrow> r \<in> set t \<and> p r"
  by (auto simp: find_row_def find_Some_iff)

lemma find_row_NoneD: "find_row p t = None \<Longrightarrow> r \<in> set t \<Longrightarrow> \<not> p r"
  by (auto simp: find_row_def find_None_iff)

lemma find_row_Nil [simp]: "find_row p [] = None"
  by (simp add: find_row_def)

lemma find_row_Cons [simp]: "find_row p (r # t) = (if p r then Some r else find_row p t)"
  by (simp add: find_row_def)

lemma find_row_append: "find_row p (t @ u) = (case find_row p t of Some r \<Rightarrow> Some r | None \<Rightarrow> find_row p u)"
  by (induction t) auto

lemma set_update_where: "set (update_where p f t) = (\<lambda>r. if p r then f r else r) ` set t"
  by (simp add: update_where_def)

lemma update_where_simps [simp]:
  "update_where p f [] = []"
  "update_where p f (r # t) = (if p r then f r else r) # update_where p f t"
  by (simp_all add: update_where_def)

lemma length_update_where [simp]: "length (update_where p f t) = length t"
  by (simp add: update_where_def)

lemma update_where_append [simp]: "update_where p f (t @ u) = update_where p f t @ update_where p f u"
  by (simp add: update_where_def)

lemma set_delete_where: "set (delete_where p t) = {r \<in> set t. \<not> p r}"
  by (simp add: delete_where_def)

lemma update_where_ball:
  assumes "\<forall>r \<in> set t. P r" and "\<And>r. r \<in> set t \<Longrightarrow> P r \<Longrightarrow> p r \<Longrightarrow> P (f r)"
  shows "\<forall>r \<in> set (update_where p f t). P r"
  using assms by (auto simp: set_update_where)

lemma map_update_where: "(\<And>r. g (f r) = g r) \<Longrightarrow> map g (update_where p f t) = map g t"
  by (simp add: update_where_def)

lemma update_where_none: "(\<And>r. r \<in> set t \<Longrightarrow> \<not> p r) \<Longrightarrow> update_where p f t = t"
  by (induction t) auto

text \<open>
  Tables with a primary key: \<open>key\<close> gives a row's key, and an update never changes it. The laws
  of the interface are what the components use of a keyed table, each proved here once.
\<close>

locale keyed_table =
  fixes key :: "'r \<Rightarrow> 'k"
    and lookup :: "'r tbl \<Rightarrow> 'k \<Rightarrow> 'r option"
  assumes lookup_find: "lookup t k = find_row (\<lambda>r. key r = k) t"
begin

lemma lookup_key: "lookup t k = Some r \<Longrightarrow> key r = k"
  by (auto simp: lookup_find dest: find_row_SomeD)

lemma lookup_mem: "lookup t k = Some r \<Longrightarrow> r \<in> set t"
  by (auto simp: lookup_find dest: find_row_SomeD)

lemma lookup_None: "lookup t k = None \<longleftrightarrow> k \<notin> key ` set t"
  by (induction t) (auto simp: lookup_find)

lemma lookup_unique:
  assumes "distinct (map key t)" and "r \<in> set t"
  shows "lookup t (key r) = Some r"
  using assms by (induction t) (auto simp: lookup_find)

lemma lookup_iff:
  assumes "distinct (map key t)"
  shows "lookup t k = Some r \<longleftrightarrow> r \<in> set t \<and> key r = k"
  using lookup_unique [OF assms] lookup_key lookup_mem by blast

lemma keys_update:
  assumes "\<And>r. key (f r) = key r"
  shows "map key (update_where p f t) = map key t"
  by (induction t) (auto simp: assms)

lemma lookup_update:
  assumes "\<And>r. key (f r) = key r"
  shows "lookup (update_where p f t) k = map_option (\<lambda>r. if p r then f r else r) (lookup t k)"
  by (induction t) (auto simp: lookup_find assms)

lemma lookup_append:
  "lookup (t @ [r]) k = (case lookup t k of Some r' \<Rightarrow> Some r' | None \<Rightarrow> if key r = k then Some r else None)"
  by (simp add: lookup_find find_row_append split: option.split)

lemma lookup_delete:
  assumes "distinct (map key t)"
  shows "lookup (delete_where p t) k = (case lookup t k of Some r \<Rightarrow> if p r then None else Some r | None \<Rightarrow> None)"
  using assms
proof (induction t)
  case (Cons a t)
  have "lookup (delete_where p t) (key a) = None"
    using Cons.prems by (auto simp: lookup_None set_delete_where)
  with Cons show ?case
    by (auto simp: lookup_find delete_where_def split: option.splits)
qed (simp add: lookup_find delete_where_def)

lemma keys_delete: "distinct (map key t) \<Longrightarrow> distinct (map key (delete_where p t))"
  by (simp add: delete_where_def distinct_map_filter)

end

subsection \<open>Reachable states\<close>

text \<open>
  A component that moves by steps: an invariant that holds at the start and is kept by every
  step holds in every state the component can reach.
\<close>

locale transition_system =
  fixes init :: "'s \<Rightarrow> bool"
    and step :: "'s \<Rightarrow> 's \<Rightarrow> bool"
    and inv :: "'s \<Rightarrow> bool"
  assumes init_inv: "init s \<Longrightarrow> inv s"
    and step_inv: "inv s \<Longrightarrow> step s t \<Longrightarrow> inv t"
begin

lemma steps_inv: "step\<^sup>*\<^sup>* s t \<Longrightarrow> inv s \<Longrightarrow> inv t"
  by (induction rule: rtranclp_induct) (auto intro: step_inv)

lemma reachable_inv: "init s \<Longrightarrow> step\<^sup>*\<^sup>* s t \<Longrightarrow> inv t"
  by (blast intro: init_inv steps_inv)

end

subsection \<open>Lists\<close>

lemma sort_key_ConsD: "sort_key f xs = y # ys \<Longrightarrow> y \<in> set xs"
  by (metis list.set_intros(1) set_sort)

lemma sort_key_Nil_iff [simp]: "sort_key f xs = [] \<longleftrightarrow> xs = []"
  by (metis length_0_conv length_sort)

lemma distinct_filter_map: "distinct (map f xs) \<Longrightarrow> distinct (map f (filter p xs))"
  by (rule distinct_map_filter)

lemma distinct_map_sort: "distinct (map g xs) \<Longrightarrow> distinct (map g (sort_key f xs))"
  by (simp add: distinct_map)

lemma length_filter_unique:
  assumes "distinct xs" and "\<And>x y. x \<in> set xs \<Longrightarrow> y \<in> set xs \<Longrightarrow> p x \<Longrightarrow> p y \<Longrightarrow> x = y"
  shows "length (filter p xs) \<le> 1"
proof -
  have "card (set (filter p xs)) \<le> 1"
    using assms(2) by (intro card_le_Suc0_iff_eq [THEN iffD2, unfolded One_nat_def [symmetric]]) auto
  moreover have "card (set (filter p xs)) = length (filter p xs)"
    using assms(1) by (intro distinct_card) simp
  ultimately show ?thesis by simp
qed

lemma sum_list_map_less:
  assumes "x \<in> set xs" and "\<And>y. y \<in> set xs \<Longrightarrow> f y \<le> g y" and "f x < (g x :: nat)"
  shows "sum_list (map f xs) < sum_list (map g xs)"
  using assms
proof (induction xs)
  case (Cons a xs)
  have le: "sum_list (map f xs) \<le> sum_list (map g xs)" using Cons.prems(2) by (intro sum_list_mono) auto
  show ?case
  proof (cases "x = a")
    case False
    with Cons have "sum_list (map f xs) < sum_list (map g xs)" by auto
    with Cons.prems(2) [of a] show ?thesis by simp
  qed (use le Cons.prems in simp)
qed simp

lemma sum_list_filter_split:
  "sum_list (map f (filter p xs)) + sum_list (map f (filter (\<lambda>x. \<not> p x) xs)) =
   sum_list (map (f :: 'a \<Rightarrow> 'b :: comm_monoid_add) xs)"
  by (induction xs) (auto simp: ac_simps)

subsection \<open>Rows by their key\<close>

lemma only_one_differs:
  assumes "map key xs = map key ys" and "distinct (map key ys)" and "\<And>k. k \<noteq> i \<Longrightarrow> find_row (\<lambda>r. key r = k) xs = find_row (\<lambda>r. key r = k) ys"
  shows "delete_where (\<lambda>r. key r = i) xs = delete_where (\<lambda>r. key r = i) ys"
  using assms
proof (induction xs arbitrary: ys)
  case (Cons x xs)
  then obtain y ys' where y: "ys = y # ys'" "key x = key y" "map key xs = map key ys'" by (cases ys) auto
  have out: "find_row (\<lambda>r. key r = key x) t = None" if "map key t = map key ys'" for t
  proof -
    have "key x \<notin> key ` set t" using Cons.prems(2) arg_cong [OF that, of set] y by simp
    then have "key r \<noteq> key x" if "r \<in> set t" for r using that by (metis image_eqI)
    then show ?thesis by (simp add: find_row_def find_None_iff)
  qed
  have "delete_where (\<lambda>r. key r = i) xs = delete_where (\<lambda>r. key r = i) ys'"
  proof (rule Cons.IH)
    show "find_row (\<lambda>r. key r = k) xs = find_row (\<lambda>r. key r = k) ys'" if "k \<noteq> i" for k
      using Cons.prems(3) [OF that] out [of xs] out [of ys'] y by (auto split: if_splits)
  qed (use Cons.prems(2) y in auto)
  moreover have "x = y" if "key x \<noteq> i" using Cons.prems(3) [OF that] y by simp
  ultimately show ?case using y by (auto simp: delete_where_def)
qed simp

lemma delete_where_fresh: "i \<notin> f ` set t \<Longrightarrow> delete_where (\<lambda>x. f x = i) t = t"
  by (auto simp: delete_where_def filter_id_conv)

lemma one_row: "distinct (map f xs) \<Longrightarrow> length (filter (\<lambda>x. f x = a \<and> P x) xs) \<le> 1"
proof (induction xs)
  case (Cons x xs)
  have "filter (\<lambda>x. f x = a \<and> P x) xs = []" if "f x = a"
    using Cons.prems that by (simp add: filter_empty_conv) (metis image_eqI)
  with Cons show ?case by auto
qed simp

end
