(* ===== verification/JobTable.thy ===== *)
theory JobTable
  imports Prelude
begin

section \<open>The jobs table and its queries\<close>

text \<open>
  A row of \<open>jobs\<close> (\<open>db.generated.models.Job\<close>) and one definition per query of
  \<open>db/generated/query.py\<close> over it. A query that reads the database's clock
  (\<open>CURRENT_TIMESTAMP\<close>, \<open>now()\<close>) takes it as \<open>now\<close>. The columns with a \<open>CHECK\<close> list are
  enumerations.
\<close>

datatype job_kind = KBoot | KStop | KDelete | KMove | KSnapshot | KRestore

datatype job_state = Queued | Running | Succeeded | Failed | Cancelled

record job =
  j_id :: string
  j_sandbox_id :: string
  j_kind :: job_kind
  j_state :: job_state
  j_args :: "(string, json) dict"
  j_attempts :: int
  j_max_attempts :: int
  j_run_after :: time
  j_deadline :: "time option"
  j_last_error :: "string option"
  j_created_at :: time
  j_updated_at :: time
  j_finished_at :: "time option"
  j_seq :: int

definition is_active :: "job_state \<Rightarrow> bool" where
  "is_active st \<longleftrightarrow> st = Queued \<or> st = Running"

lemma is_active_simps [simp]:
  "is_active Queued" "is_active Running"
  "\<not> is_active Succeeded" "\<not> is_active Failed" "\<not> is_active Cancelled"
  by (simp_all add: is_active_def)

text \<open>The identity column \<open>seq\<close> takes the next number of its sequence.\<close>

definition create_job :: "time \<Rightarrow> int \<Rightarrow> string \<Rightarrow> string \<Rightarrow> job_kind \<Rightarrow> (string, json) dict \<Rightarrow> int \<Rightarrow>
    time option \<Rightarrow> job tbl \<Rightarrow> job \<times> job tbl" where
  "create_job now seq i sandbox_id kind args max_attempts deadline t =
     (let r = \<lparr>j_id = i, j_sandbox_id = sandbox_id, j_kind = kind, j_state = Queued, j_args = args,
               j_attempts = 0, j_max_attempts = max_attempts, j_run_after = now, j_deadline = deadline,
               j_last_error = None, j_created_at = now, j_updated_at = now, j_finished_at = None,
               j_seq = seq\<rparr>
      in (r, t @ [r]))"

definition get_job :: "job tbl \<Rightarrow> string \<Rightarrow> job option" where
  "get_job t i = find_row (\<lambda>j. j_id j = i) t"

text \<open>\<open>ORDER BY created_at DESC LIMIT 1\<close>: the newest of the sandbox's queued and running jobs.\<close>

definition get_active_job :: "job tbl \<Rightarrow> string \<Rightarrow> job option" where
  "get_active_job t sandbox_id =
     (case sort_key (\<lambda>j. - j_created_at j)
             (filter (\<lambda>j. j_sandbox_id j = sandbox_id \<and> is_active (j_state j)) t) of
        [] \<Rightarrow> None | j # _ \<Rightarrow> Some j)"

definition list_due_jobs :: "time \<Rightarrow> job tbl \<Rightarrow> job list" where
  "list_due_jobs now t =
     sort_key (\<lambda>j. (j_created_at j, j_seq j)) (filter (\<lambda>j. j_state j = Queued \<and> j_run_after j \<le> now) t)"

definition list_jobs_by_state :: "job_state \<Rightarrow> job tbl \<Rightarrow> job list" where
  "list_jobs_by_state st t =
     sort_key (\<lambda>j. (j_created_at j, j_seq j)) (filter (\<lambda>j. j_state j = st) t)"

definition claim_row :: "time \<Rightarrow> job \<Rightarrow> job" where
  "claim_row now j = j\<lparr>j_state := Running, j_attempts := j_attempts j + 1, j_updated_at := now\<rparr>"

definition claim_job :: "time \<Rightarrow> string \<Rightarrow> job tbl \<Rightarrow> job option \<times> job tbl" where
  "claim_job now i t =
     (map_option (claim_row now) (find_row (\<lambda>j. j_id j = i \<and> j_state j = Queued) t),
      update_where (\<lambda>j. j_id j = i \<and> j_state j = Queued) (claim_row now) t)"

definition retry_job :: "time \<Rightarrow> string \<Rightarrow> time \<Rightarrow> string \<Rightarrow> job tbl \<Rightarrow> job tbl" where
  "retry_job now last_error run_after i t =
     update_where (\<lambda>j. j_id j = i \<and> j_state j = Running)
       (\<lambda>j. j\<lparr>j_state := Queued, j_last_error := Some last_error, j_run_after := run_after,
              j_updated_at := now\<rparr>) t"

definition requeue_job :: "time \<Rightarrow> string \<Rightarrow> string \<Rightarrow> job tbl \<Rightarrow> job tbl" where
  "requeue_job now last_error i t =
     update_where (\<lambda>j. j_id j = i \<and> j_state j = Running)
       (\<lambda>j. j\<lparr>j_state := Queued, j_attempts := max (j_attempts j - 1) 0,
              j_last_error := Some last_error, j_updated_at := now\<rparr>) t"

definition defer_job :: "time \<Rightarrow> string \<Rightarrow> time \<Rightarrow> time \<Rightarrow> string \<Rightarrow> job tbl \<Rightarrow> job tbl" where
  "defer_job now last_error run_after deadline i t =
     update_where (\<lambda>j. j_id j = i \<and> j_state j = Running)
       (\<lambda>j. j\<lparr>j_state := Queued, j_attempts := max (j_attempts j - 1) 0,
              j_last_error := Some last_error, j_run_after := run_after,
              j_deadline := Some deadline, j_updated_at := now\<rparr>) t"

definition finish_job :: "time \<Rightarrow> job_state \<Rightarrow> string option \<Rightarrow> string \<Rightarrow> job tbl \<Rightarrow> job tbl" where
  "finish_job now st last_error i t =
     update_where (\<lambda>j. j_id j = i \<and> is_active (j_state j))
       (\<lambda>j. j\<lparr>j_state := st, j_last_error := last_error, j_finished_at := Some now,
              j_updated_at := now\<rparr>) t"

definition cancel_sandbox_jobs :: "time \<Rightarrow> string \<Rightarrow> job tbl \<Rightarrow> job tbl" where
  "cancel_sandbox_jobs now sandbox_id t =
     update_where (\<lambda>j. j_sandbox_id j = sandbox_id \<and> j_state j = Queued)
       (\<lambda>j. j\<lparr>j_state := Cancelled, j_finished_at := Some now, j_updated_at := now\<rparr>) t"

lemmas job_query_defs [query_defs] =
  retry_job_def requeue_job_def defer_job_def finish_job_def cancel_sandbox_jobs_def

interpretation jobs_tbl: keyed_table j_id get_job
  by unfold_locales (simp add: get_job_def)

lemma claim_row_simps [simp, row_simps]:
  "j_id (claim_row now j) = j_id j"
  "j_sandbox_id (claim_row now j) = j_sandbox_id j"
  "j_kind (claim_row now j) = j_kind j"
  "j_state (claim_row now j) = Running"
  "j_attempts (claim_row now j) = j_attempts j + 1"
  "j_max_attempts (claim_row now j) = j_max_attempts j"
  "j_deadline (claim_row now j) = j_deadline j"
  "j_created_at (claim_row now j) = j_created_at j"
  by (simp_all add: claim_row_def)

text \<open>What each query does to the row of a given id.\<close>

lemma get_claim_job:
  "get_job (snd (claim_job now i t)) k =
     map_option (\<lambda>j. if j_id j = i \<and> j_state j = Queued then claim_row now j else j) (get_job t k)"
  by (simp add: claim_job_def jobs_tbl.lookup_update)

lemma get_retry_job:
  "get_job (retry_job now e ra i t) k =
     map_option (\<lambda>j. if j_id j = i \<and> j_state j = Running
       then j\<lparr>j_state := Queued, j_last_error := Some e, j_run_after := ra, j_updated_at := now\<rparr> else j)
     (get_job t k)"
  by (simp add: retry_job_def jobs_tbl.lookup_update)

lemma get_requeue_job:
  "get_job (requeue_job now e i t) k =
     map_option (\<lambda>j. if j_id j = i \<and> j_state j = Running
       then j\<lparr>j_state := Queued, j_attempts := max (j_attempts j - 1) 0, j_last_error := Some e,
              j_updated_at := now\<rparr> else j)
     (get_job t k)"
  by (simp add: requeue_job_def jobs_tbl.lookup_update)

lemma get_finish_job:
  "get_job (finish_job now st e i t) k =
     map_option (\<lambda>j. if j_id j = i \<and> is_active (j_state j)
       then j\<lparr>j_state := st, j_last_error := e, j_finished_at := Some now, j_updated_at := now\<rparr> else j)
     (get_job t k)"
  by (simp add: finish_job_def jobs_tbl.lookup_update)

lemma claim_job_Some:
  assumes "claim_job now i t = (Some j, t')"
  shows "\<exists>j0. find_row (\<lambda>j. j_id j = i \<and> j_state j = Queued) t = Some j0 \<and> j = claim_row now j0 \<and>
    j0 \<in> set t \<and> j_id j0 = i \<and> j_state j0 = Queued"
  using assms by (auto simp: claim_job_def dest: find_row_SomeD)

lemma claim_job_None: "claim_job now i t = (None, t') \<Longrightarrow> t' = t"
  by (auto simp: claim_job_def dest: find_row_NoneD intro!: update_where_none)

text \<open>Job ids stay as they are under every query; \<open>create_job\<close> adds one at the end.\<close>

lemma job_ids [simp]:
  "map j_id (snd (claim_job now i t)) = map j_id t"
  "map j_id (retry_job now e ra i t) = map j_id t"
  "map j_id (requeue_job now e i t) = map j_id t"
  "map j_id (defer_job now e ra dl i t) = map j_id t"
  "map j_id (finish_job now st eo i t) = map j_id t"
  "map j_id (cancel_sandbox_jobs now sb t) = map j_id t"
  by (simp_all add: claim_job_def query_defs map_update_where)

lemma get_active_job_SomeD:
  assumes "get_active_job t s = Some j"
  shows "j \<in> set t \<and> j_sandbox_id j = s \<and> is_active (j_state j)"
  using assms by (auto simp: get_active_job_def split: list.splits dest!: sort_key_ConsD)

lemma get_active_job_None:
  "get_active_job t s = None \<longleftrightarrow> (\<forall>j \<in> set t. j_sandbox_id j = s \<longrightarrow> \<not> is_active (j_state j))"
  by (simp add: get_active_job_def filter_empty_conv list.case_eq_if)

lemma set_list_due_jobs [simp]: "set (list_due_jobs now t) = {j \<in> set t. j_state j = Queued \<and> j_run_after j \<le> now}"
  by (simp add: list_due_jobs_def)

lemma set_list_jobs_by_state [simp]: "set (list_jobs_by_state st t) = {j \<in> set t. j_state j = st}"
  by (simp add: list_jobs_by_state_def)

end
