(* ===== verification/Jobs.thy ===== *)
theory Jobs
  imports JobTable
begin

section \<open>The persistent job queue\<close>

text \<open>
  \<open>apps/server/jobs.py\<close>: the class \<open>Jobs\<close>. Its state is the \<open>jobs\<close> table, the dictionary
  \<open>live\<close> from sandbox id to the id of the job whose thread is still running, and whatever else the
  handlers work on, the type parameter \<open>'w\<close>. Every kind of the \<open>CHECK\<close> list of \<open>jobs.kind\<close> has a
  handler (\<open>SandboxApi.__init__\<close> registers all six), so the handlers are a function of the kind.

  An operation that reads the clock takes the time as an argument; \<open>execute\<close> takes two, since the
  handler runs in between. Metrics, logging and the wake-up event change no state that is modelled.
\<close>

subsection \<open>State and handlers\<close>

record 'w sys =
  q_jobs :: "job tbl"
  q_seq :: int
  q_live :: "(string, string) dict"
  q_world :: 'w

text \<open>How a handler ends: it returns, raises \<open>Wait\<close> with its window, or raises anything else.\<close>

datatype outcome = Done | WaitFor string int | Raised string

record 'w handler =
  h_run :: "time \<Rightarrow> job \<Rightarrow> 'w sys \<Rightarrow> outcome \<times> 'w sys"
  h_attempts :: int
  h_backoff :: "int list"
  h_failed :: "(time \<Rightarrow> job \<Rightarrow> string \<Rightarrow> 'w \<Rightarrow> 'w) option"

type_synonym 'w handlers = "job_kind \<Rightarrow> 'w handler"

definition PARALLEL :: nat where "PARALLEL = 8"
definition MAX_WAIT :: int where "MAX_WAIT = 2 * 3600"
definition WAIT_POLL :: int where "WAIT_POLL = 15"
definition WAITING :: string where "WAITING = ''Waiting: ''"

definition stamp :: "time \<Rightarrow> int \<Rightarrow> time" where
  "stamp now s = now + seconds s"

definition register :: "job_kind \<Rightarrow> (time \<Rightarrow> job \<Rightarrow> 'w sys \<Rightarrow> outcome \<times> 'w sys) \<Rightarrow> int \<Rightarrow> int list \<Rightarrow>
    (time \<Rightarrow> job \<Rightarrow> string \<Rightarrow> 'w \<Rightarrow> 'w) option \<Rightarrow> 'w handlers \<Rightarrow> 'w handlers" where
  "register kind run attempts backoff failed hs =
     hs(kind := \<lparr>h_run = run, h_attempts = attempts, h_backoff = backoff, h_failed = failed\<rparr>)"

subsection \<open>Operations\<close>

definition enqueue :: "'w handlers \<Rightarrow> time \<Rightarrow> string \<Rightarrow> string \<Rightarrow> job_kind \<Rightarrow> int option \<Rightarrow>
    (string, json) dict \<Rightarrow> 'w sys \<Rightarrow> job \<times> 'w sys" where
  "enqueue hs now uid sandbox_id kind deadline_seconds args s =
     (let deadline = (case deadline_seconds of
            Some d \<Rightarrow> if d \<noteq> 0 then Some (stamp now d) else None | None \<Rightarrow> None);
          (r, t) = create_job now (q_seq s) uid sandbox_id kind args (h_attempts (hs kind)) deadline (q_jobs s)
      in (r, s\<lparr>q_jobs := t, q_seq := q_seq s + 1\<rparr>))"

definition owns :: "'w sys \<Rightarrow> job \<Rightarrow> bool" where
  "owns s job = (case get_job (q_jobs s) (j_id job) of
      None \<Rightarrow> False | Some current \<Rightarrow> j_state current = Running)"

definition claim :: "time \<Rightarrow> job \<Rightarrow> 'w sys \<Rightarrow> job option \<times> 'w sys" where
  "claim now job s =
     (if dict_get (q_live s) (j_sandbox_id job) \<noteq> None then (None, s)
      else case claim_job now (j_id job) (q_jobs s) of
        (None, t) \<Rightarrow> (None, s\<lparr>q_jobs := t\<rparr>)
      | (Some c, t) \<Rightarrow> (Some c, s\<lparr>q_jobs := t, q_live := dict_set (j_sandbox_id c) (j_id c) (q_live s)\<rparr>))"

definition give_up :: "'w handlers \<Rightarrow> time \<Rightarrow> job \<Rightarrow> string \<Rightarrow> 'w sys \<Rightarrow> 'w sys" where
  "give_up hs now job err s =
     (case h_failed (hs (j_kind job)) of
        None \<Rightarrow> s
      | Some f \<Rightarrow> s\<lparr>q_world := f now job err (q_world s)\<rparr>)"

definition retry_or_fail :: "'w handlers \<Rightarrow> time \<Rightarrow> job \<Rightarrow> 'w handler \<Rightarrow> string \<Rightarrow> 'w sys \<Rightarrow>
    exc option \<times> 'w sys" where
  "retry_or_fail hs now job h err s =
     (case py_nth (h_backoff h) (min (j_attempts job - 1) (int (length (h_backoff h)) - 1)) of
        Inl e \<Rightarrow> (Some e, s)
      | Inr delay \<Rightarrow>
         (case get_job (q_jobs s) (j_id job) of
            None \<Rightarrow> (None, s)
          | Some current \<Rightarrow>
              if j_state current \<noteq> Running then (None, s)
              else if j_attempts current < j_max_attempts current \<and>
                      (case j_deadline current of None \<Rightarrow> True | Some d \<Rightarrow> stamp now delay < d)
              then (None, s\<lparr>q_jobs := retry_job now err (stamp now delay) (j_id job) (q_jobs s)\<rparr>)
              else (None, give_up hs now job err
                     (s\<lparr>q_jobs := finish_job now Failed (Some err) (j_id job) (q_jobs s)\<rparr>))))"

definition defer_or_fail :: "'w handlers \<Rightarrow> time \<Rightarrow> job \<Rightarrow> string \<Rightarrow> int \<Rightarrow> 'w sys \<Rightarrow> 'w sys" where
  "defer_or_fail hs now job reason window s =
     (case get_job (q_jobs s) (j_id job) of
        None \<Rightarrow> s
      | Some current \<Rightarrow>
          if j_state current \<noteq> Running then s
          else if j_created_at current \<ge> stamp now (- MAX_WAIT)
          then s\<lparr>q_jobs := defer_job now (WAITING @ reason) (stamp now WAIT_POLL)
                             (stamp now (WAIT_POLL + window)) (j_id job) (q_jobs s)\<rparr>
          else (let why = ''waited '' @ py_str (MAX_WAIT div 3600) @ '' hours: '' @ reason
                in give_up hs now job why
                     (s\<lparr>q_jobs := finish_job now Failed (Some why) (j_id job) (q_jobs s)\<rparr>)))"

text \<open>The \<open>except\<close> and \<open>else\<close> branches of \<open>execute\<close>, then its \<open>finally\<close>.\<close>

definition settle :: "'w handlers \<Rightarrow> time \<Rightarrow> job \<Rightarrow> outcome \<Rightarrow> 'w sys \<Rightarrow> exc option \<times> 'w sys" where
  "settle hs now job out s =
     (case out of
        WaitFor reason window \<Rightarrow> (None, defer_or_fail hs now job reason window s)
      | Raised err \<Rightarrow> retry_or_fail hs now job (hs (j_kind job)) err s
      | Done \<Rightarrow> (None, s\<lparr>q_jobs := finish_job now Succeeded None (j_id job) (q_jobs s)\<rparr>))"

definition release_live :: "job \<Rightarrow> 'w sys \<Rightarrow> 'w sys" where
  "release_live job s =
     (if dict_get (q_live s) (j_sandbox_id job) = Some (j_id job)
      then s\<lparr>q_live := dict_pop (j_sandbox_id job) (q_live s)\<rparr> else s)"

definition execute :: "'w handlers \<Rightarrow> time \<Rightarrow> time \<Rightarrow> job \<Rightarrow> 'w sys \<Rightarrow> exc option \<times> 'w sys" where
  "execute hs now later job s =
     (let (out, s1) = h_run (hs (j_kind job)) now job s;
          (e, s2) = settle hs later job out s1
      in (e, release_live job s2))"

definition timeout_reason :: "job \<Rightarrow> time \<Rightarrow> string" where
  "timeout_reason j d =
     ''timed out after '' @ py_str (py_round_div (d - j_created_at j) (seconds 60)) @ '' minutes'' @
     (case j_last_error j of None \<Rightarrow> [] | Some e \<Rightarrow> if e = [] then [] else '': '' @ e)"

text \<open>One pass of the loop in \<open>expire\<close>: over the jobs of one state as the query lists them.\<close>

fun expire_rows :: "time \<Rightarrow> job list \<Rightarrow> job tbl \<times> (job \<times> string) list \<Rightarrow> job tbl \<times> (job \<times> string) list" where
  "expire_rows now [] acc = acc"
| "expire_rows now (j # js) (t, expired) =
     (case j_deadline j of
        None \<Rightarrow> expire_rows now js (t, expired)
      | Some d \<Rightarrow>
          if d < now
          then expire_rows now js (finish_job now Failed (Some (timeout_reason j d)) (j_id j) t,
                                   expired @ [(j, timeout_reason j d)])
          else expire_rows now js (t, expired))"

definition expire_state :: "time \<Rightarrow> job_state \<Rightarrow> job tbl \<times> (job \<times> string) list \<Rightarrow> job tbl \<times> (job \<times> string) list" where
  "expire_state now st acc = expire_rows now (list_jobs_by_state st (fst acc)) acc"

definition expire :: "'w handlers \<Rightarrow> time \<Rightarrow> 'w sys \<Rightarrow> 'w sys" where
  "expire hs now s =
     (let (t, expired) = expire_state now Queued (expire_state now Running (q_jobs s, []))
      in fold (\<lambda>(j, reason). give_up hs now j reason) expired (s\<lparr>q_jobs := t\<rparr>))"

definition recover :: "time \<Rightarrow> 'w sys \<Rightarrow> 'w sys" where
  "recover now s =
     s\<lparr>q_jobs := fold (\<lambda>j. requeue_job now ''interrupted by a restart'' (j_id j))
                   (list_jobs_by_state Running (q_jobs s)) (q_jobs s)\<rparr>"

text \<open>The \<open>for\<close> loop of \<open>run\<close>: claims due jobs while there is room, and hands each to the executor.\<close>

fun dispatch :: "bool \<Rightarrow> time \<Rightarrow> job list \<Rightarrow> 'w sys \<Rightarrow> job list \<times> 'w sys" where
  "dispatch closing now [] s = ([], s)"
| "dispatch closing now (job # due) s =
     (if closing \<or> PARALLEL \<le> length (q_live s) then ([], s)
      else case claim now job s of
        (None, s') \<Rightarrow> dispatch closing now due s'
      | (Some c, s') \<Rightarrow> (case dispatch closing now due s' of (cs, s'') \<Rightarrow> (c # cs, s'')))"

text \<open>The requeueing at the end of \<open>shutdown\<close>.\<close>

definition requeue_live :: "time \<Rightarrow> 'w sys \<Rightarrow> 'w sys" where
  "requeue_live now s =
     s\<lparr>q_jobs := fold (\<lambda>(sandbox_id, i). requeue_job now ''interrupted by a shutdown'' i)
                   (q_live s) (q_jobs s)\<rparr>"

text \<open>
  \<open>drain\<close> runs queued jobs until none is left, and stops at the first exception \<open>execute\<close> lets
  out; \<open>None\<close> when the rounds given are not enough.
\<close>

fun drain_round :: "'w handlers \<Rightarrow> time \<Rightarrow> job list \<Rightarrow> 'w sys \<Rightarrow> exc option \<times> 'w sys" where
  "drain_round hs now [] s = (None, s)"
| "drain_round hs now (job # js) s =
     (case claim now job s of
        (None, s') \<Rightarrow> drain_round hs now js s'
      | (Some c, s') \<Rightarrow>
          (case execute hs now now c s' of
             (Some e, s'') \<Rightarrow> (Some e, s'')
           | (None, s'') \<Rightarrow> drain_round hs now js s''))"

fun drain :: "nat \<Rightarrow> 'w handlers \<Rightarrow> time \<Rightarrow> 'w sys \<Rightarrow> (exc option \<times> 'w sys) option" where
  "drain 0 hs now s = None"
| "drain (Suc n) hs now s =
     (let queued = filter (\<lambda>j. dict_get (q_live s) (j_sandbox_id j) = None)
                     (list_jobs_by_state Queued (q_jobs s))
      in if queued = [] then Some (None, s)
         else case drain_round hs now queued s of
           (Some e, s') \<Rightarrow> Some (Some e, s')
         | (None, s') \<Rightarrow> drain n hs now s')"

subsection \<open>Attempts stay within their limit\<close>

text \<open>
  A row is well-formed when its attempts are within the limit, and strictly so while it is queued:
  claiming it uses one more.
\<close>

definition job_ok :: "job \<Rightarrow> bool" where
  "job_ok j \<longleftrightarrow> 1 \<le> j_max_attempts j \<and> 0 \<le> j_attempts j \<and> j_attempts j \<le> j_max_attempts j \<and>
     (j_state j = Queued \<longrightarrow> j_attempts j < j_max_attempts j) \<and>
     (j_state j = Running \<longrightarrow> 1 \<le> j_attempts j)"

definition jobs_wf :: "job tbl \<Rightarrow> bool" where
  "jobs_wf t \<longleftrightarrow> distinct (map j_id t) \<and> (\<forall>j \<in> set t. job_ok j)"

named_theorems wf_intros "what keeps the jobs table well-formed"

lemma jobs_wf_update:
  assumes wf: "jobs_wf t" and ids: "map j_id (update_where p f t) = map j_id t"
    and ok: "\<And>j. j \<in> set t \<Longrightarrow> job_ok j \<Longrightarrow> p j \<Longrightarrow> job_ok (f j)"
  shows "jobs_wf (update_where p f t)"
proof -
  have "job_ok r" if "r \<in> set (update_where p f t)" for r
  proof -
    from that obtain j where j: "j \<in> set t" "r = (if p j then f j else j)"
      unfolding set_update_where by blast
    with wf have "job_ok j" unfolding jobs_wf_def by blast
    with ok [OF j(1)] j(2) show ?thesis by (cases "p j") simp_all
  qed
  moreover have "distinct (map j_id (update_where p f t))"
    using wf unfolding ids jobs_wf_def by blast
  ultimately show ?thesis unfolding jobs_wf_def by blast
qed

lemma jobs_wf_claim [wf_intros]: "jobs_wf t \<Longrightarrow> jobs_wf (snd (claim_job now i t))"
  unfolding claim_job_def snd_conv
  by (rule jobs_wf_update) (auto simp: map_update_where job_ok_def)

lemma jobs_wf_retry [wf_intros]:
  assumes "jobs_wf t" and "\<And>j. get_job t i = Some j \<Longrightarrow> j_attempts j < j_max_attempts j"
  shows "jobs_wf (retry_job now e ra i t)"
  unfolding retry_job_def
proof (rule jobs_wf_update [OF assms(1)])
  fix j assume "j \<in> set t" "job_ok j" "j_id j = i \<and> j_state j = Running"
  moreover from this assms(1) have "get_job t i = Some j"
    using jobs_tbl.lookup_iff by (auto simp: jobs_wf_def)
  ultimately show "job_ok (j\<lparr>j_state := Queued, j_last_error := Some e, j_run_after := ra, j_updated_at := now\<rparr>)"
    using assms(2) by (auto simp: job_ok_def)
qed (simp add: map_update_where)

lemma jobs_wf_requeue [wf_intros]: "jobs_wf t \<Longrightarrow> jobs_wf (requeue_job now e i t)"
  unfolding requeue_job_def
  by (rule jobs_wf_update) (auto simp: map_update_where job_ok_def)

lemma jobs_wf_defer [wf_intros]: "jobs_wf t \<Longrightarrow> jobs_wf (defer_job now e ra dl i t)"
  unfolding defer_job_def
  by (rule jobs_wf_update) (auto simp: map_update_where job_ok_def)

lemma jobs_wf_finish [wf_intros]: "\<not> is_active st \<Longrightarrow> jobs_wf t \<Longrightarrow> jobs_wf (finish_job now st e i t)"
  unfolding finish_job_def
  by (rule jobs_wf_update) (auto simp: map_update_where job_ok_def)

lemma jobs_wf_cancel [wf_intros]: "jobs_wf t \<Longrightarrow> jobs_wf (cancel_sandbox_jobs now sb t)"
  unfolding cancel_sandbox_jobs_def
  by (rule jobs_wf_update) (auto simp: map_update_where job_ok_def)

lemma jobs_wf_create [wf_intros]:
  "jobs_wf t \<Longrightarrow> i \<notin> j_id ` set t \<Longrightarrow> 1 \<le> m \<Longrightarrow> jobs_wf (snd (create_job now sq i sb k args m dl t))"
  by (auto simp: jobs_wf_def create_job_def job_ok_def Let_def)

lemma jobs_wf_fold:
  "(\<And>x t. jobs_wf t \<Longrightarrow> jobs_wf (f x t)) \<Longrightarrow> jobs_wf t \<Longrightarrow> jobs_wf (fold f xs t)"
  by (induction xs arbitrary: t) auto

lemma jobs_wf_expire_rows: "jobs_wf (fst acc) \<Longrightarrow> jobs_wf (fst (expire_rows now js acc))"
  by (induction now js acc rule: expire_rows.induct) (auto simp: jobs_wf_finish split: option.split)

lemma q_jobs_give_up [simp]: "q_jobs (give_up hs now j e s) = q_jobs s"
  by (simp add: give_up_def split: option.split)

lemma q_live_give_up [simp]: "q_live (give_up hs now j e s) = q_live s"
  by (simp add: give_up_def split: option.split)

lemma fold_give_up [simp]:
  "q_jobs (fold (\<lambda>(j, r). give_up hs now j r) xs s) = q_jobs s"
  "q_live (fold (\<lambda>(j, r). give_up hs now j r) xs s) = q_live s"
  by (induction xs arbitrary: s) (auto split: prod.split)

lemma expire_simps [simp]:
  "q_jobs (expire hs now s) = fst (expire_state now Queued (expire_state now Running (q_jobs s, [])))"
  "q_live (expire hs now s) = q_live s"
  by (simp_all add: expire_def split: prod.split)

lemma jobs_wf_expire [wf_intros]: "jobs_wf (q_jobs s) \<Longrightarrow> jobs_wf (q_jobs (expire hs now s))"
  by (simp add: expire_state_def jobs_wf_expire_rows)

lemma jobs_wf_claim_op [wf_intros]: "jobs_wf (q_jobs s) \<Longrightarrow> jobs_wf (q_jobs (snd (claim now job s)))"
  using jobs_wf_claim [of "q_jobs s" now "j_id job"]
  by (auto simp: claim_def split: prod.split option.split)

lemma jobs_wf_settle [wf_intros]:
  assumes "jobs_wf (q_jobs s)"
  shows "jobs_wf (q_jobs (snd (settle hs now job out s)))"
  using assms
  by (auto simp: settle_def defer_or_fail_def retry_or_fail_def Let_def
      split: outcome.split option.split sum.split intro!: wf_intros)

lemma jobs_wf_recover [wf_intros]: "jobs_wf (q_jobs s) \<Longrightarrow> jobs_wf (q_jobs (recover now s))"
  by (auto simp: recover_def intro!: jobs_wf_fold wf_intros)

lemma jobs_wf_requeue_live [wf_intros]: "jobs_wf (q_jobs s) \<Longrightarrow> jobs_wf (q_jobs (requeue_live now s))"
  by (auto simp: requeue_live_def intro!: jobs_wf_fold wf_intros)

subsection \<open>The queue as a machine\<close>

text \<open>
  The worker process runs many threads. Each critical section of \<open>jobs.py\<close> (what runs under
  \<open>self.lock\<close> or in one database session) is one step; between two of them any other step may
  happen. A thread is the job it claimed and whether it has settled it: from \<open>claim\<close> to the
  \<open>except\<close>/\<open>else\<close> branch of \<open>execute\<close> it has not, from there to \<open>finally\<close> it has. A crash loses
  the process's memory; the next start runs \<open>recover\<close> before anything else.
\<close>

record 'w machine =
  m_sys :: "'w sys"
  m_threads :: "(job \<times> bool) list"

definition handlers_ok :: "'w handlers \<Rightarrow> bool" where
  "handlers_ok hs \<longleftrightarrow> (\<forall>k. 1 \<le> h_attempts (hs k) \<and> h_backoff (hs k) \<noteq> [])"

inductive jobs_step :: "'w handlers \<Rightarrow> 'w machine \<Rightarrow> 'w machine \<Rightarrow> bool" for hs where
  step_enqueue: "uid \<notin> j_id ` set (q_jobs (m_sys m)) \<Longrightarrow>
     jobs_step hs m (m\<lparr>m_sys := snd (enqueue hs now uid sb k dl args (m_sys m))\<rparr>)"
| step_cancel: "jobs_step hs m
     (m\<lparr>m_sys := (m_sys m)\<lparr>q_jobs := cancel_sandbox_jobs now sb (q_jobs (m_sys m))\<rparr>\<rparr>)"
| step_work: "jobs_step hs m (m\<lparr>m_sys := (m_sys m)\<lparr>q_world := w\<rparr>\<rparr>)"
| step_claim: "job \<in> set (q_jobs (m_sys m)) \<Longrightarrow> claim now job (m_sys m) = (Some c, s) \<Longrightarrow>
     jobs_step hs m (m\<lparr>m_sys := s, m_threads := (c, False) # m_threads m\<rparr>)"
| step_settle: "m_threads m = ts @ (job, False) # us \<Longrightarrow>
     jobs_step hs m (m\<lparr>m_sys := snd (settle hs now job out (m_sys m)), m_threads := ts @ (job, True) # us\<rparr>)"
| step_release: "m_threads m = ts @ (job, True) # us \<Longrightarrow>
     jobs_step hs m (m\<lparr>m_sys := release_live job (m_sys m), m_threads := ts @ us\<rparr>)"
| step_expire: "jobs_step hs m (m\<lparr>m_sys := expire hs now (m_sys m)\<rparr>)"
| step_shutdown: "jobs_step hs m (m\<lparr>m_sys := requeue_live now (m_sys m)\<rparr>)"
| step_restart: "jobs_step hs m
     (m\<lparr>m_sys := recover now ((m_sys m)\<lparr>q_live := []\<rparr>), m_threads := []\<rparr>)"

definition jobs_init :: "'w machine \<Rightarrow> bool" where
  "jobs_init m \<longleftrightarrow> q_jobs (m_sys m) = [] \<and> q_live (m_sys m) = [] \<and> m_threads m = []"

text \<open>Every change of the table but a claim makes no row running and keeps its id and sandbox.\<close>

definition no_new_running :: "job tbl \<Rightarrow> job tbl \<Rightarrow> bool" where
  "no_new_running t t' \<longleftrightarrow> (\<forall>r' \<in> set t'. j_state r' = Running \<longrightarrow> r' \<in> set t)"

lemma no_new_running_update:
  "(\<And>r. j_state (f r) \<noteq> Running) \<Longrightarrow> no_new_running t (update_where p f t)"
  by (auto simp: no_new_running_def set_update_where split: if_splits)

lemma no_new_running_refl [simp]: "no_new_running t t"
  by (simp add: no_new_running_def)

lemma no_new_running_trans: "no_new_running t u \<Longrightarrow> no_new_running u v \<Longrightarrow> no_new_running t v"
  by (auto simp: no_new_running_def)

lemma no_new_running_ops [simp]:
  "no_new_running t (retry_job now e ra i t)"
  "no_new_running t (requeue_job now e i t)"
  "no_new_running t (defer_job now e ra dl i t)"
  "st \<noteq> Running \<Longrightarrow> no_new_running t (finish_job now st eo i t)"
  "no_new_running t (cancel_sandbox_jobs now sb t)"
  by (simp_all add: query_defs no_new_running_update)

lemma no_new_running_fold:
  "(\<And>x t. no_new_running t (f x t)) \<Longrightarrow> no_new_running t (fold f xs t)"
  by (induction xs arbitrary: t) (auto intro: no_new_running_trans)

lemma no_new_running_expire_rows: "no_new_running (fst acc) (fst (expire_rows now js acc))"
  by (induction now js acc rule: expire_rows.induct)
    (auto split: option.split intro: no_new_running_trans [OF no_new_running_ops(4)])

lemma no_new_running_expire_state: "no_new_running (fst acc) (fst (expire_state now st acc))"
  by (simp add: expire_state_def no_new_running_expire_rows)

lemma no_new_running_expire: "no_new_running (q_jobs s) (q_jobs (expire hs now s))"
  unfolding expire_simps
  by (rule no_new_running_trans [OF _ no_new_running_expire_state])
    (use no_new_running_expire_state [of "(q_jobs s, [])"] in simp)

lemma no_new_running_settle: "no_new_running (q_jobs s) (q_jobs (snd (settle hs now job out s)))"
  by (auto simp: settle_def defer_or_fail_def retry_or_fail_def Let_def
      split: outcome.split option.split sum.split)

lemma q_live_settle [simp]: "q_live (snd (settle hs now job out s)) = q_live s"
  by (auto simp: settle_def defer_or_fail_def retry_or_fail_def Let_def
      split: outcome.split option.split sum.split)

text \<open>A settled job is not running any more.\<close>

lemma backoff_index:
  assumes "h_backoff h \<noteq> []" and "1 \<le> a"
  shows "\<exists>d \<in> set (h_backoff h). py_nth (h_backoff h) (min (a - 1) (int (length (h_backoff h)) - 1)) = Inr d"
proof -
  let ?i = "min (a - 1) (int (length (h_backoff h)) - 1)"
  have "0 < length (h_backoff h)" using assms(1) by simp
  then have i: "0 \<le> ?i" "?i < int (length (h_backoff h))" using assms(2) by auto
  then have "h_backoff h ! nat ?i \<in> set (h_backoff h)" by (intro nth_mem) linarith
  with i show ?thesis by (blast intro: py_nth_in)
qed

definition stopped_in :: "string \<Rightarrow> job tbl \<Rightarrow> bool" where
  "stopped_in i t \<longleftrightarrow> (\<forall>r \<in> set t. j_id r = i \<longrightarrow> j_state r \<noteq> Running)"

lemma stopped_in_update:
  assumes "\<And>r. j_state (f r) \<noteq> Running" and "\<And>r. j_id r = i \<Longrightarrow> j_state r = Running \<Longrightarrow> p r"
  shows "stopped_in i (update_where p f t)"
  using assms by (auto simp: stopped_in_def set_update_where)

lemma stopped_in_ops [simp]:
  "stopped_in i (retry_job now e ra i t)"
  "stopped_in i (defer_job now e ra dl i t)"
  "st \<noteq> Running \<Longrightarrow> stopped_in i (finish_job now st eo i t)"
  by (simp_all add: query_defs stopped_in_update)

lemma stopped_in_get:
  assumes "distinct (map j_id t)" and "\<And>c. get_job t i = Some c \<Longrightarrow> j_state c \<noteq> Running"
  shows "stopped_in i t"
  using assms by (auto simp: stopped_in_def dest: jobs_tbl.lookup_unique)

lemma settle_stops:
  assumes wf: "jobs_wf (q_jobs s)" and hs: "handlers_ok hs" and att: "1 \<le> j_attempts job"
  shows "stopped_in (j_id job) (q_jobs (snd (settle hs now job out s)))"
proof -
  from hs att obtain d where d: "py_nth (h_backoff (hs (j_kind job)))
      (min (j_attempts job - 1) (int (length (h_backoff (hs (j_kind job)))) - 1)) = Inr d"
    using backoff_index by (metis handlers_ok_def)
  have un: "stopped_in (j_id job) (q_jobs s)"
    if "\<And>c. get_job (q_jobs s) (j_id job) = Some c \<Longrightarrow> j_state c \<noteq> Running"
    using wf that by (intro stopped_in_get) (auto simp: jobs_wf_def)
  show ?thesis
  proof (cases out)
    case (WaitFor reason window)
    then show ?thesis
      using un by (auto simp: settle_def defer_or_fail_def Let_def split: option.split)
  next
    case (Raised err)
    then show ?thesis
      using un d by (auto simp: settle_def retry_or_fail_def split: option.split)
  qed (simp add: settle_def)
qed

text \<open>
  The invariant: the table is well-formed, every thread holds its sandbox in \<open>live\<close>, no two
  threads work for one sandbox, and a row in state \<open>running\<close> has a thread that has not settled it.
\<close>

definition threads_ok :: "(job \<times> bool) list \<Rightarrow> (string, string) dict \<Rightarrow> bool" where
  "threads_ok ts live \<longleftrightarrow>
     (\<forall>(j, b) \<in> set ts. dict_get live (j_sandbox_id j) = Some (j_id j) \<and> 1 \<le> j_attempts j) \<and>
     distinct (map (\<lambda>(j, b). j_sandbox_id j) ts)"

definition running_ok :: "job tbl \<Rightarrow> (job \<times> bool) list \<Rightarrow> bool" where
  "running_ok t ts \<longleftrightarrow> (\<forall>r \<in> set t. j_state r = Running \<longrightarrow>
     (\<exists>j. (j, False) \<in> set ts \<and> j_id j = j_id r \<and> j_sandbox_id j = j_sandbox_id r))"

definition jobs_inv :: "'w machine \<Rightarrow> bool" where
  "jobs_inv m \<longleftrightarrow> jobs_wf (q_jobs (m_sys m)) \<and> threads_ok (m_threads m) (q_live (m_sys m)) \<and>
     running_ok (q_jobs (m_sys m)) (m_threads m)"

lemma running_ok_mono: "running_ok t ts \<Longrightarrow> no_new_running t t' \<Longrightarrow> running_ok t' ts"
  by (auto simp: running_ok_def no_new_running_def)

lemma jobs_inv_same_threads:
  assumes "jobs_inv m" and "jobs_wf (q_jobs s)" and "q_live s = q_live (m_sys m)"
    and "no_new_running (q_jobs (m_sys m)) (q_jobs s)"
  shows "jobs_inv (m\<lparr>m_sys := s\<rparr>)"
  using assms by (auto simp: jobs_inv_def intro: running_ok_mono)

lemma no_new_running_create: "no_new_running t (snd (create_job now sq i sb k args mx dl t))"
  by (auto simp: no_new_running_def create_job_def Let_def)

lemma enqueue_simps [simp]:
  "q_live (snd (enqueue hs now uid sb k dl args s)) = q_live s"
  "q_world (snd (enqueue hs now uid sb k dl args s)) = q_world s"
  by (simp_all add: enqueue_def Let_def create_job_def)

lemma q_jobs_enqueue: "\<exists>d. q_jobs (snd (enqueue hs now uid sb k dl args s)) =
    snd (create_job now (q_seq s) uid sb k args (h_attempts (hs k)) d (q_jobs s))"
  by (auto simp: enqueue_def Let_def create_job_def)

lemma jobs_inv_enqueue:
  assumes "jobs_inv m" "handlers_ok hs" "uid \<notin> j_id ` set (q_jobs (m_sys m))"
  shows "jobs_inv (m\<lparr>m_sys := snd (enqueue hs now uid sb k dl args (m_sys m))\<rparr>)"
proof -
  obtain d where "q_jobs (snd (enqueue hs now uid sb k dl args (m_sys m))) =
    snd (create_job now (q_seq (m_sys m)) uid sb k args (h_attempts (hs k)) d (q_jobs (m_sys m)))"
    using q_jobs_enqueue by blast
  with assms show ?thesis
    by (intro jobs_inv_same_threads)
      (auto simp: jobs_inv_def handlers_ok_def intro!: jobs_wf_create no_new_running_create)
qed

lemma claim_SomeD:
  assumes "claim now job s = (Some c, s')"
  shows "\<exists>j0. j0 \<in> set (q_jobs s) \<and> j_id j0 = j_id job \<and> j_state j0 = Queued \<and> c = claim_row now j0 \<and>
    dict_get (q_live s) (j_sandbox_id job) = None \<and>
    s' = s\<lparr>q_jobs := snd (claim_job now (j_id job) (q_jobs s)),
           q_live := dict_set (j_sandbox_id c) (j_id c) (q_live s)\<rparr>"
  using assms by (auto simp: claim_def split: if_splits prod.splits option.splits dest!: claim_job_Some)

lemma running_ok_claim:
  assumes "running_ok t ts" "distinct (map j_id t)" "j0 \<in> set t"
  shows "running_ok (snd (claim_job now (j_id j0) t)) ((claim_row now j0, False) # ts)"
proof -
  have "r = j0" if "r \<in> set t" "j_id r = j_id j0" for r
    using assms(2,3) that by (metis jobs_tbl.lookup_unique option.inject)
  then show ?thesis
    using assms(1) by (fastforce simp: running_ok_def claim_job_def set_update_where)
qed

lemma jobs_inv_claim:
  assumes inv: "jobs_inv m" and mem: "job \<in> set (q_jobs (m_sys m))"
    and c: "claim now job (m_sys m) = (Some c, s)"
  shows "jobs_inv (m\<lparr>m_sys := s, m_threads := (c, False) # m_threads m\<rparr>)"
proof -
  from inv have wf: "jobs_wf (q_jobs (m_sys m))" by (simp add: jobs_inv_def)
  from claim_SomeD [OF c] obtain j0 where j0: "j0 \<in> set (q_jobs (m_sys m))" "j_id j0 = j_id job"
      "j_state j0 = Queued" "c = claim_row now j0" "dict_get (q_live (m_sys m)) (j_sandbox_id job) = None"
    and s: "s = (m_sys m)\<lparr>q_jobs := snd (claim_job now (j_id job) (q_jobs (m_sys m))),
           q_live := dict_set (j_sandbox_id c) (j_id c) (q_live (m_sys m))\<rparr>"
    by blast
  from wf mem j0 have eq: "j0 = job" by (metis jobs_wf_def jobs_tbl.lookup_unique option.inject)
  from wf j0 have "0 \<le> j_attempts j0" by (auto simp: jobs_wf_def job_ok_def)
  moreover have "j_sandbox_id job \<noteq> j_sandbox_id j" if "(j, b) \<in> set (m_threads m)" for j b
    using inv that j0(5) by (fastforce simp: jobs_inv_def threads_ok_def)
  ultimately have "threads_ok ((c, False) # m_threads m) (q_live s)"
    using inv j0 eq s by (fastforce simp: jobs_inv_def threads_ok_def update_conv')
  moreover have "running_ok (q_jobs s) ((c, False) # m_threads m)"
    using inv wf j0 eq s running_ok_claim by (auto simp: jobs_inv_def jobs_wf_def)
  moreover have "jobs_wf (q_jobs s)"
    using wf s by (simp add: jobs_wf_claim)
  ultimately show ?thesis by (simp add: jobs_inv_def)
qed

lemma jobs_inv_settle:
  assumes inv: "jobs_inv m" and hs: "handlers_ok hs" and th: "m_threads m = ts @ (job, False) # us"
  shows "jobs_inv (m\<lparr>m_sys := snd (settle hs now job out (m_sys m)), m_threads := ts @ (job, True) # us\<rparr>)"
proof -
  let ?t = "q_jobs (snd (settle hs now job out (m_sys m)))"
  have wf: "jobs_wf (q_jobs (m_sys m))" and att: "1 \<le> j_attempts job"
    using inv th by (auto simp: jobs_inv_def threads_ok_def)
  have "running_ok ?t (ts @ (job, False) # us)"
    using inv th running_ok_mono no_new_running_settle by (fastforce simp: jobs_inv_def)
  then have "running_ok ?t (ts @ (job, True) # us)"
    using settle_stops [OF wf hs att] by (fastforce simp: running_ok_def stopped_in_def)
  then show ?thesis
    using inv th by (auto simp: jobs_inv_def threads_ok_def jobs_wf_settle)
qed

lemma threads_ok_remove:
  assumes "threads_ok (ts @ (job, b) # us) live"
  shows "threads_ok (ts @ us) (dict_pop (j_sandbox_id job) live)"
proof -
  have "case p of (j, c) \<Rightarrow>
      dict_get (dict_pop (j_sandbox_id job) live) (j_sandbox_id j) = Some (j_id j) \<and> 1 \<le> j_attempts j"
    if mem: "p \<in> set (ts @ us)" for p
  proof -
    obtain j c where p: "p = (j, c)" by (cases p)
    with assms mem have "j_sandbox_id j \<noteq> j_sandbox_id job"
      by (auto simp: threads_ok_def rev_image_eqI)
    moreover from assms mem p have "dict_get live (j_sandbox_id j) = Some (j_id j)" "1 \<le> j_attempts j"
      by (auto simp: threads_ok_def)
    ultimately show ?thesis by (simp add: p)
  qed
  moreover have "distinct (map (\<lambda>(j, b). j_sandbox_id j) (ts @ us))"
    using assms by (simp add: threads_ok_def)
  ultimately show ?thesis unfolding threads_ok_def by (intro conjI ballI)
qed

lemma jobs_inv_release:
  assumes inv: "jobs_inv m" and th: "m_threads m = ts @ (job, True) # us"
  shows "jobs_inv (m\<lparr>m_sys := release_live job (m_sys m), m_threads := ts @ us\<rparr>)"
proof -
  have ok: "threads_ok (ts @ (job, True) # us) (q_live (m_sys m))"
    using inv th by (simp add: jobs_inv_def)
  then have "q_live (release_live job (m_sys m)) = dict_pop (j_sandbox_id job) (q_live (m_sys m))"
    by (simp add: release_live_def threads_ok_def)
  moreover have "running_ok (q_jobs (m_sys m)) (ts @ us)"
    using inv th by (fastforce simp: jobs_inv_def running_ok_def)
  moreover have "q_jobs (release_live job (m_sys m)) = q_jobs (m_sys m)"
    by (simp add: release_live_def)
  ultimately show ?thesis
    using inv threads_ok_remove [OF ok] by (simp add: jobs_inv_def)
qed

lemma jobs_inv_restart:
  assumes "jobs_inv m"
  shows "jobs_inv (m\<lparr>m_sys := recover now ((m_sys m)\<lparr>q_live := []\<rparr>), m_threads := []\<rparr>)"
proof -
  let ?t = "q_jobs (m_sys m)"
  have fold_stops: "stopped_in i (fold (\<lambda>j. requeue_job now e (j_id j)) js t)"
    if "stopped_in i t \<or> i \<in> j_id ` set js" for i e js t
    using that
  proof (induction js arbitrary: t)
    case (Cons j js)
    have "stopped_in i (requeue_job now e (j_id j) t)" if "stopped_in i t \<or> i = j_id j"
      using that by (auto simp: requeue_job_def stopped_in_def set_update_where)
    with Cons show ?case by auto
  qed simp
  have "running_ok (q_jobs (recover now ((m_sys m)\<lparr>q_live := []\<rparr>))) []"
  proof -
    have "j_state r \<noteq> Running"
      if "r \<in> set (fold (\<lambda>j. requeue_job now ''interrupted by a restart'' (j_id j))
        (list_jobs_by_state Running ?t) ?t)" for r
    proof -
      have "stopped_in (j_id r) (fold (\<lambda>j. requeue_job now ''interrupted by a restart'' (j_id j))
        (list_jobs_by_state Running ?t) ?t)"
        by (rule fold_stops) (auto simp: stopped_in_def rev_image_eqI)
      with that show ?thesis by (auto simp: stopped_in_def)
    qed
    then show ?thesis by (auto simp: running_ok_def recover_def)
  qed
  then show ?thesis
    using assms by (simp add: jobs_inv_def threads_ok_def jobs_wf_recover)
qed

lemma jobs_inv_wfD: "jobs_inv m \<Longrightarrow> jobs_wf (q_jobs (m_sys m))"
  by (simp add: jobs_inv_def)

lemma jobs_inv_expire: "jobs_inv m \<Longrightarrow> jobs_inv (m\<lparr>m_sys := expire hs now (m_sys m)\<rparr>)"
  by (rule jobs_inv_same_threads [OF _ jobs_wf_expire [OF jobs_inv_wfD] expire_simps(2)
      no_new_running_expire])

lemma jobs_inv_shutdown: "jobs_inv m \<Longrightarrow> jobs_inv (m\<lparr>m_sys := requeue_live now (m_sys m)\<rparr>)"
  by (rule jobs_inv_same_threads)
    (auto simp: requeue_live_def jobs_inv_def intro!: jobs_wf_fold jobs_wf_requeue no_new_running_fold)

lemma jobs_inv_cancel: "jobs_inv m \<Longrightarrow>
    jobs_inv (m\<lparr>m_sys := (m_sys m)\<lparr>q_jobs := cancel_sandbox_jobs now sb (q_jobs (m_sys m))\<rparr>\<rparr>)"
  by (rule jobs_inv_same_threads) (auto simp: jobs_inv_def jobs_wf_cancel)

lemma jobs_inv_work: "jobs_inv m \<Longrightarrow> jobs_inv (m\<lparr>m_sys := (m_sys m)\<lparr>q_world := w\<rparr>\<rparr>)"
  by (rule jobs_inv_same_threads) (auto simp: jobs_inv_def)

lemma jobs_step_inv:
  assumes hs: "handlers_ok hs" and inv: "jobs_inv m" and step: "jobs_step hs m m'"
  shows "jobs_inv m'"
  using step
proof cases
  case step_enqueue
  then show ?thesis using inv hs by (simp add: jobs_inv_enqueue)
next
  case step_settle
  then show ?thesis using inv hs by (simp add: jobs_inv_settle)
qed (use inv in \<open>simp_all only: jobs_inv_claim jobs_inv_release jobs_inv_expire jobs_inv_shutdown
    jobs_inv_cancel jobs_inv_work jobs_inv_restart\<close>)

text \<open>With well-formed handlers the queue is a transition system that keeps \<^const>\<open>jobs_inv\<close>.\<close>

interpretation queue: transition_system jobs_init "jobs_step hs" "\<lambda>m. handlers_ok hs \<longrightarrow> jobs_inv m" for hs
proof
  show "handlers_ok hs \<longrightarrow> jobs_inv m" if "jobs_init m" for m :: "'a machine"
    using that by (simp add: jobs_init_def jobs_inv_def jobs_wf_def threads_ok_def running_ok_def)
  show "handlers_ok hs \<longrightarrow> jobs_inv m'" if "handlers_ok hs \<longrightarrow> jobs_inv m" "jobs_step hs m m'"
    for m m' :: "'a machine"
    using that jobs_step_inv by blast
qed

lemma jobs_inv_one_running:
  assumes inv: "jobs_inv m" and r: "r \<in> set (q_jobs (m_sys m))" "j_state r = Running"
    and r': "r' \<in> set (q_jobs (m_sys m))" "j_state r' = Running"
    and sb: "j_sandbox_id r = j_sandbox_id r'"
  shows "r = r'"
proof -
  from inv r obtain j where j: "(j, False) \<in> set (m_threads m)" "j_id j = j_id r" "j_sandbox_id j = j_sandbox_id r"
    by (auto simp: jobs_inv_def running_ok_def)
  from inv r' obtain j' where j': "(j', False) \<in> set (m_threads m)" "j_id j' = j_id r'" "j_sandbox_id j' = j_sandbox_id r'"
    by (auto simp: jobs_inv_def running_ok_def)
  from inv j j' sb have "dict_get (q_live (m_sys m)) (j_sandbox_id r) = Some (j_id r)"
      "dict_get (q_live (m_sys m)) (j_sandbox_id r) = Some (j_id r')"
    by (auto simp: jobs_inv_def threads_ok_def)
  then have "j_id r = j_id r'" by simp
  with inv r r' show ?thesis
    by (metis jobs_inv_def jobs_wf_def jobs_tbl.lookup_unique option.inject)
qed

subsection \<open>Deadlines\<close>

definition overdue :: "time \<Rightarrow> job \<Rightarrow> bool" where
  "overdue now j \<longleftrightarrow> is_active (j_state j) \<and> (case j_deadline j of None \<Rightarrow> False | Some d \<Rightarrow> d < now)"

definition timed_out :: "time \<Rightarrow> job \<Rightarrow> job" where
  "timed_out now j = j\<lparr>j_state := Failed, j_last_error := Some (timeout_reason j (the (j_deadline j))),
     j_finished_at := Some now, j_updated_at := now\<rparr>"

lemma get_expire_rows:
  assumes "distinct (map j_id js)" and "distinct (map j_id t)"
    and "\<And>j. j \<in> set js \<Longrightarrow> j \<in> set t \<and> is_active (j_state j)"
  shows "get_job (fst (expire_rows now js (t, acc))) i =
    map_option (\<lambda>j. if overdue now j \<and> j \<in> set js then timed_out now j else j) (get_job t i)"
  using assms
proof (induction js arbitrary: t acc)
  case (Cons j js)
  note ids = Cons.prems(1)
  have in_t: "k \<in> set t" "is_active (j_state k)" if "k \<in> set (j # js)" for k
    using Cons.prems(3) that by auto
  show ?case
  proof (cases "overdue now j")
    case True
    then obtain d where d: "j_deadline j = Some d" "d < now"
      by (auto simp: overdue_def split: option.splits)
    let ?t = "finish_job now Failed (Some (timeout_reason j d)) (j_id j) t"
    have keep: "k \<in> set ?t" if "k \<in> set js" for k
    proof -
      have "j_id k \<noteq> j_id j" using ids that by (metis distinct.simps(2) imageI list.simps(9) list.set_map)
      then have "get_job ?t (j_id k) = Some k"
        using in_t(1) [of k] that Cons.prems(2) by (simp add: get_finish_job jobs_tbl.lookup_unique)
      then show ?thesis by (rule jobs_tbl.lookup_mem)
    qed
    have "get_job (fst (expire_rows now js (?t, acc @ [(j, timeout_reason j d)]))) i =
        map_option (\<lambda>k. if overdue now k \<and> k \<in> set js then timed_out now k else k) (get_job ?t i)"
      using Cons.prems keep by (intro Cons.IH) auto
    also have "\<dots> = map_option (\<lambda>k. if overdue now k \<and> k \<in> set (j # js) then timed_out now k else k) (get_job t i)"
    proof (cases "i = j_id j")
      case True
      then have "get_job t i = Some j"
        using in_t(1) [of j] Cons.prems(2) by (simp add: jobs_tbl.lookup_unique)
      then show ?thesis
        using \<open>overdue now j\<close> True d in_t(2) [of j]
        by (simp add: get_finish_job timed_out_def overdue_def)
    next
      case False
      then show ?thesis
        by (cases "get_job t i") (auto simp: get_finish_job dest: jobs_tbl.lookup_key)
    qed
    finally show ?thesis using d by simp
  next
    case False
    then have "expire_rows now (j # js) (t, acc) = expire_rows now js (t, acc)"
      using in_t(2) [of j] by (auto simp: overdue_def split: option.splits)
    moreover have "get_job (fst (expire_rows now js (t, acc))) i =
        map_option (\<lambda>k. if overdue now k \<and> k \<in> set js then timed_out now k else k) (get_job t i)"
      using Cons.prems by (intro Cons.IH) auto
    ultimately show ?thesis using False by (cases "get_job t i") auto
  qed
qed (simp add: option.map_ident)

lemma distinct_expire_rows:
  "map j_id (fst (expire_rows now js acc)) = map j_id (fst acc)"
  by (induction now js acc rule: expire_rows.induct) (auto split: option.split)

lemma distinct_list_jobs: "distinct (map j_id t) \<Longrightarrow> distinct (map j_id (list_jobs_by_state st t))"
  unfolding list_jobs_by_state_def
  by (rule distinct_map_sort) (simp add: distinct_filter_map)

lemma get_expire_state:
  assumes "distinct (map j_id (fst acc))" and "is_active st"
  shows "get_job (fst (expire_state now st acc)) i =
    map_option (\<lambda>j. if overdue now j \<and> j_state j = st then timed_out now j else j) (get_job (fst acc) i)"
proof -
  obtain t e where acc: "acc = (t, e)" by (cases acc)
  have "get_job (fst (expire_rows now (list_jobs_by_state st t) (t, e))) i =
    map_option (\<lambda>j. if overdue now j \<and> j \<in> set (list_jobs_by_state st t) then timed_out now j else j) (get_job t i)"
    using assms acc by (intro get_expire_rows) (auto intro: distinct_list_jobs)
  then show ?thesis
    by (cases "get_job t i") (auto simp: acc expire_state_def dest: jobs_tbl.lookup_mem)
qed

lemma get_expire:
  assumes "distinct (map j_id (q_jobs s))"
  shows "get_job (q_jobs (expire hs now s)) i =
    map_option (\<lambda>j. if overdue now j then timed_out now j else j) (get_job (q_jobs s) i)"
proof -
  have "distinct (map j_id (fst (expire_state now Running (q_jobs s, []))))"
    using assms by (simp add: expire_state_def distinct_expire_rows)
  then show ?thesis
    using assms
    by (cases "get_job (q_jobs s) i")
      (auto simp: get_expire_state overdue_def timed_out_def is_active_def)
qed

subsection \<open>A finished job is final\<close>

definition keeps_finished :: "job tbl \<Rightarrow> job tbl \<Rightarrow> bool" where
  "keeps_finished t t' \<longleftrightarrow> (\<forall>r \<in> set t. \<not> is_active (j_state r) \<longrightarrow> r \<in> set t')"

lemma keeps_finished_refl [simp]: "keeps_finished t t"
  by (simp add: keeps_finished_def)

lemma keeps_finished_trans: "keeps_finished t u \<Longrightarrow> keeps_finished u v \<Longrightarrow> keeps_finished t v"
  by (auto simp: keeps_finished_def)

lemma keeps_finished_update:
  assumes "\<And>r. p r \<Longrightarrow> is_active (j_state r)"
  shows "keeps_finished t (update_where p f t)"
  using assms by (force simp: keeps_finished_def set_update_where)

lemma keeps_finished_ops [simp]:
  "keeps_finished t (snd (claim_job now i t))"
  "keeps_finished t (retry_job now e ra i t)"
  "keeps_finished t (requeue_job now e i t)"
  "keeps_finished t (defer_job now e ra dl i t)"
  "keeps_finished t (finish_job now st eo i t)"
  "keeps_finished t (cancel_sandbox_jobs now sb t)"
  "keeps_finished t (snd (create_job now sq i' sb' k args mx dl' t))"
  by (auto simp: query_defs claim_job_def intro!: keeps_finished_update)
    (simp add: keeps_finished_def create_job_def Let_def)

lemma keeps_finished_fold: "(\<And>x t. keeps_finished t (f x t)) \<Longrightarrow> keeps_finished t (fold f xs t)"
  by (induction xs arbitrary: t) (auto intro: keeps_finished_trans)

lemma keeps_finished_expire_rows: "keeps_finished (fst acc) (fst (expire_rows now js acc))"
  by (induction now js acc rule: expire_rows.induct)
    (auto split: option.split intro: keeps_finished_trans [OF keeps_finished_ops(5)])

lemma keeps_finished_expire: "keeps_finished (q_jobs s) (q_jobs (expire hs now s))"
proof -
  have "keeps_finished (fst acc) (fst (expire_state now st acc))" for acc st
    by (simp add: expire_state_def keeps_finished_expire_rows)
  from keeps_finished_trans [OF this this] show ?thesis by (metis expire_simps(1) fst_conv)
qed

lemma keeps_finished_settle: "keeps_finished (q_jobs s) (q_jobs (snd (settle hs now job out s)))"
  by (auto simp: settle_def defer_or_fail_def retry_or_fail_def Let_def
      split: outcome.split option.split sum.split)

lemma keeps_finished_claim: "keeps_finished (q_jobs s) (q_jobs (snd (claim now job s)))"
  by (auto simp: claim_def split: prod.split option.split) (metis keeps_finished_ops(1) snd_conv)+

lemma keeps_finished_step:
  assumes "jobs_step hs m m'"
  shows "keeps_finished (q_jobs (m_sys m)) (q_jobs (m_sys m'))"
  using assms
proof cases
  case (step_enqueue uid now sb k dl args)
  then show ?thesis
    using q_jobs_enqueue [of hs now uid sb k dl args "m_sys m"] keeps_finished_ops(7)
    by (metis machine.select_convs(1) machine.surjective machine.update_convs(1))
next
  case (step_claim job now c s)
  then show ?thesis using keeps_finished_claim [of "m_sys m" now job] by simp
next
  case (step_expire now)
  show ?thesis unfolding step_expire using keeps_finished_expire by simp
qed (auto simp: keeps_finished_settle release_live_def requeue_live_def recover_def
    intro!: keeps_finished_fold split: prod.split)

lemma keeps_finished_steps:
  "(jobs_step hs)\<^sup>*\<^sup>* m m' \<Longrightarrow> keeps_finished (q_jobs (m_sys m)) (q_jobs (m_sys m'))"
  by (induction rule: rtranclp_induct) (auto intro: keeps_finished_trans keeps_finished_step)

subsection \<open>Draining the queue ends\<close>

text \<open>
  What is left to do: the attempts the queued rows may still use. Running one queued job uses at
  least one of them, whatever its handler does, as long as it neither waits nor queues new work.
\<close>

definition work_left :: "job \<Rightarrow> nat" where
  "work_left j = (if j_state j = Queued then nat (j_max_attempts j - j_attempts j) else 0)"

definition queue_work :: "job tbl \<Rightarrow> nat" where
  "queue_work t = sum_list (map work_left t)"

definition plain_handlers :: "'w handlers \<Rightarrow> bool" where
  "plain_handlers hs \<longleftrightarrow> (\<forall>k now job s. case h_run (hs k) now job s of (out, s') \<Rightarrow>
     (\<forall>reason window. out \<noteq> WaitFor reason window) \<and> q_jobs s' = q_jobs s \<and> q_live s' = q_live s)"

abbreviation placed :: "job \<Rightarrow> string \<times> string" where
  "placed j \<equiv> (j_id j, j_sandbox_id j)"

lemma placed_ops [simp]:
  "map placed (snd (claim_job now i t)) = map placed t"
  "map placed (retry_job now e ra i t) = map placed t"
  "map placed (finish_job now st eo i t) = map placed t"
  by (simp_all add: query_defs claim_job_def map_update_where)

lemma queue_work_update2:
  assumes "j \<in> set t" and "\<And>r. r \<in> set t \<Longrightarrow> work_left (g r) \<le> work_left r" and "work_left (g j) < work_left j"
  shows "queue_work (map g t) < queue_work t"
  unfolding queue_work_def map_map comp_def using assms by (intro sum_list_map_less)

lemma queue_work_settled:
  assumes wf: "jobs_wf t" and j: "j \<in> set t" "j_state j = Queued"
  shows "st \<noteq> Queued \<Longrightarrow> queue_work (finish_job n st e (j_id j) (snd (claim_job now (j_id j) t))) < queue_work t"
    and "queue_work (retry_job n er ra (j_id j) (snd (claim_job now (j_id j) t))) < queue_work t"
proof -
  have eq: "r = j" if "r \<in> set t" "j_id r = j_id j" for r
    using wf j that by (metis jobs_wf_def jobs_tbl.lookup_unique option.inject)
  have ok: "j_attempts j < j_max_attempts j" using wf j by (auto simp: jobs_wf_def job_ok_def)
  show "queue_work (finish_job n st e (j_id j) (snd (claim_job now (j_id j) t))) < queue_work t"
    if "st \<noteq> Queued"
    unfolding finish_job_def claim_job_def snd_conv update_where_def map_map
    by (rule queue_work_update2 [OF j(1)]) (use j ok that in \<open>auto simp: work_left_def\<close>)
  show "queue_work (retry_job n er ra (j_id j) (snd (claim_job now (j_id j) t))) < queue_work t"
    unfolding retry_job_def claim_job_def snd_conv update_where_def map_map
    by (rule queue_work_update2 [OF j(1)]) (use j ok eq in \<open>auto simp: work_left_def\<close>)
qed

lemma execute_claimed:
  assumes wf: "jobs_wf (q_jobs s)" and hs: "handlers_ok hs" "plain_handlers hs"
    and job: "placed job \<in> placed ` set (q_jobs s)" and c: "claim now job s = (Some c, s1)"
    and ex: "execute hs n l c s1 = (e, s2)"
  shows "e = None \<and> q_live s2 = q_live s \<and> jobs_wf (q_jobs s2) \<and> map placed (q_jobs s2) = map placed (q_jobs s) \<and>
    queue_work (q_jobs s2) < queue_work (q_jobs s)"
proof -
  let ?t = "snd (claim_job now (j_id job) (q_jobs s))"
  from claim_SomeD [OF c] obtain j where j: "j \<in> set (q_jobs s)" "j_id j = j_id job" "j_state j = Queued"
      "c = claim_row now j" "dict_get (q_live s) (j_sandbox_id job) = None"
    and s1: "s1 = s\<lparr>q_jobs := ?t, q_live := dict_set (j_sandbox_id c) (j_id c) (q_live s)\<rparr>"
    by blast
  from job wf j(1,2) have sb: "j_sandbox_id j = j_sandbox_id job"
    by (auto simp: jobs_wf_def) (metis jobs_tbl.lookup_unique option.inject)
  have wft: "jobs_wf ?t" using wf by (rule jobs_wf_claim)
  have att: "1 \<le> j_attempts c" using wf j by (auto simp: jobs_wf_def job_ok_def)
  obtain out s' where run: "h_run (hs (j_kind c)) n c s1 = (out, s')" by fastforce
  with hs(2) have out: "\<And>r w. out \<noteq> WaitFor r w" and s': "q_jobs s' = ?t" "q_live s' = q_live s1"
    unfolding plain_handlers_def using s1 by (smt (verit) case_prod_conv sys.select_convs(1) sys.surjective sys.update_convs(1,3))+
  from att hs(1) obtain d where d: "py_nth (h_backoff (hs (j_kind c)))
      (min (j_attempts c - 1) (int (length (h_backoff (hs (j_kind c)))) - 1)) = Inr d"
    using backoff_index by (metis handlers_ok_def)
  have cur: "get_job ?t (j_id c) = Some c"
  proof -
    have "get_job (q_jobs s) (j_id j) = Some j" using wf j(1) by (simp add: jobs_wf_def jobs_tbl.lookup_unique)
    with j show ?thesis by (simp add: get_claim_job)
  qed
  obtain s3 where st: "settle hs l c out s' = (e, s3)" and s2: "s2 = release_live c s3"
    using ex run by (auto simp: execute_def split: prod.splits)
  have "e = None \<and> (q_jobs s3 = finish_job l Succeeded None (j_id j) ?t \<or>
      (\<exists>er. q_jobs s3 = finish_job l Failed (Some er) (j_id j) ?t) \<or>
      (\<exists>er ra. j_attempts c < j_max_attempts c \<and> q_jobs s3 = retry_job l er ra (j_id j) ?t))"
  proof (cases out)
    case Done
    with st s' j show ?thesis by (auto simp: settle_def)
  next
    case (Raised er)
    with st s' j d cur show ?thesis
      by (auto simp: settle_def retry_or_fail_def split: if_splits) blast+
  qed (use out in blast)
  then have e: "e = None" and t3: "jobs_wf (q_jobs s3)" "map placed (q_jobs s3) = map placed (q_jobs s)"
      "queue_work (q_jobs s3) < queue_work (q_jobs s)"
    using queue_work_settled [OF wf j(1,3)] j(2) cur j(4) jobs_wf_finish [OF _ wft]
    by (auto intro!: jobs_wf_retry [OF wft])
  have "q_live s3 = q_live s1" using st s' by (metis q_live_settle snd_conv)
  then have "q_live s2 = q_live s"
    using s1 s2 j sb by (simp add: release_live_def dict_pop_set update_conv')
  moreover have "q_jobs s2 = q_jobs s3" by (simp add: s2 release_live_def)
  ultimately show ?thesis using e t3 by simp
qed

lemma drain_round_progress:
  assumes "jobs_wf (q_jobs s)" "handlers_ok hs" "plain_handlers hs" "placed ` set js \<subseteq> placed ` set (q_jobs s)"
    and "drain_round hs now js s = (e, s')"
  shows "e = None \<and> q_live s' = q_live s \<and> jobs_wf (q_jobs s') \<and>
    queue_work (q_jobs s') \<le> queue_work (q_jobs s) \<and>
    (js \<noteq> [] \<and> fst (claim now (hd js) s) \<noteq> None \<longrightarrow> queue_work (q_jobs s') < queue_work (q_jobs s))"
  using assms
proof (induction js arbitrary: s)
  case (Cons job js)
  obtain co s1 where c: "claim now job s = (co, s1)" by fastforce
  show ?case
  proof (cases co)
    case None
    with c have "s1 = s"
      by (auto simp: claim_def split: if_splits prod.splits option.splits dest: claim_job_None)
    with Cons c None show ?thesis by auto
  next
    case (Some k)
    obtain e2 s2 where ex: "execute hs now now k s1 = (e2, s2)" by fastforce
    have job: "placed job \<in> placed ` set (q_jobs s)" using Cons.prems(4) by auto
    note step = execute_claimed [OF Cons.prems(1-3) job c [unfolded Some] ex]
    have js: "placed ` set js \<subseteq> placed ` set (q_jobs s)" using Cons.prems(4) by auto
    have "placed ` set (q_jobs s2) = placed ` set (q_jobs s)"
      using step by (metis list.set_map)
    moreover have "drain_round hs now js s2 = (e, s')"
      using Cons.prems(5) step c Some ex by simp
    ultimately have "e = None \<and> q_live s' = q_live s2 \<and> jobs_wf (q_jobs s') \<and>
        queue_work (q_jobs s') \<le> queue_work (q_jobs s2)"
      using Cons.IH [OF _ Cons.prems(2,3), of s2] step js by simp
    with step show ?thesis by simp
  qed
qed simp

lemma drain_ends:
  assumes "jobs_wf (q_jobs s)" "handlers_ok hs" "plain_handlers hs" "queue_work (q_jobs s) < n"
  shows "\<exists>s'. drain n hs now s = Some (None, s') \<and> q_live s' = q_live s \<and> jobs_wf (q_jobs s') \<and>
    (\<forall>j \<in> set (q_jobs s'). j_state j = Queued \<longrightarrow> dict_get (q_live s) (j_sandbox_id j) \<noteq> None)"
  using assms
proof (induction n arbitrary: s)
  case (Suc n)
  let ?q = "filter (\<lambda>j. dict_get (q_live s) (j_sandbox_id j) = None) (list_jobs_by_state Queued (q_jobs s))"
  show ?case
  proof (cases ?q)
    case Nil
    with Suc.prems show ?thesis by (auto simp: Let_def filter_empty_conv)
  next
    case (Cons j js)
    then have "j \<in> set ?q" by simp
    then have j: "j \<in> set (q_jobs s)" "j_state j = Queued" "dict_get (q_live s) (j_sandbox_id j) = None"
      by auto
    obtain e s' where r: "drain_round hs now ?q s = (e, s')" by fastforce
    have "fst (claim now (hd ?q) s) \<noteq> None"
    proof -
      have "find_row (\<lambda>r. j_id r = j_id j \<and> j_state r = Queued) (q_jobs s) \<noteq> None"
        using j find_row_NoneD by (metis (mono_tags, lifting))
      with j Cons show ?thesis by (auto simp: claim_def claim_job_def)
    qed
    moreover have "placed ` set ?q \<subseteq> placed ` set (q_jobs s)" by auto
    ultimately have "e = None" "q_live s' = q_live s" "jobs_wf (q_jobs s')" "queue_work (q_jobs s') < n"
      using drain_round_progress [OF Suc.prems(1-3) _ r] Suc.prems(4) Cons by auto
    with Suc.IH [of s'] Suc.prems r Cons show ?thesis by (simp add: Let_def)
  qed
qed simp

lemma dispatch_bound:
  "length (q_live s) \<le> PARALLEL \<Longrightarrow> length (q_live (snd (dispatch closing now due s))) \<le> PARALLEL"
proof (induction closing now due s rule: dispatch.induct)
  case (2 closing now job due s)
  show ?case
  proof (cases "closing \<or> PARALLEL \<le> length (q_live s)")
    case False
    obtain co s' where c: "claim now job s = (co, s')" by fastforce
    then have "length (q_live s') \<le> PARALLEL"
      using False 2(3)
      by (auto simp: claim_def split: if_splits prod.splits option.splits
          intro!: order_trans [OF length_dict_set])
    with 2 c False show ?thesis by (cases co) (auto split: prod.split)
  qed (use 2 in auto)
qed simp

subsection \<open>Properties\<close>

text \<open>A queue with one kind of handler that always fails, to run the properties on.\<close>

definition demo_handlers :: "unit handlers" where
  "demo_handlers k = \<lparr>h_run = \<lambda>now job s. (Raised ''boom'', s), h_attempts = 3, h_backoff = [5, 15, 30],
     h_failed = None\<rparr>"

definition demo_start :: "unit machine" where
  "demo_start = \<lparr>m_sys = \<lparr>q_jobs = [], q_seq = 1, q_live = [], q_world = ()\<rparr>, m_threads = []\<rparr>"

definition demo_queued :: "unit machine" where
  "demo_queued = demo_start\<lparr>m_sys := snd (enqueue demo_handlers 0 ''j1'' ''s1'' KBoot (Some 60) [] (m_sys demo_start))\<rparr>"

definition demo_two :: "unit machine" where
  "demo_two = demo_queued\<lparr>m_sys := snd (enqueue demo_handlers 0 ''j2'' ''s1'' KStop None [] (m_sys demo_queued))\<rparr>"

definition demo_claimed :: "unit machine" where
  "demo_claimed = demo_two\<lparr>
     m_sys := snd (claim 1 (hd (q_jobs (m_sys demo_two))) (m_sys demo_two)),
     m_threads := (the (fst (claim 1 (hd (q_jobs (m_sys demo_two))) (m_sys demo_two))), False)
       # m_threads demo_two\<rparr>"

lemmas demo_defs = demo_handlers_def demo_start_def demo_queued_def demo_two_def demo_claimed_def
  enqueue_def create_job_def claim_def claim_job_def claim_row_def stamp_def Let_def

lemma demo_handlers_ok: "handlers_ok demo_handlers" "plain_handlers demo_handlers"
  by (simp_all add: handlers_ok_def plain_handlers_def demo_handlers_def)

lemma demo_steps: "(jobs_step demo_handlers)\<^sup>*\<^sup>* demo_start demo_claimed"
proof -
  have "jobs_step demo_handlers demo_start demo_queued"
    unfolding demo_queued_def by (rule step_enqueue) (simp add: demo_start_def)
  moreover have "jobs_step demo_handlers demo_queued demo_two"
    unfolding demo_two_def by (rule step_enqueue) (simp add: demo_defs)
  moreover have "jobs_step demo_handlers demo_two demo_claimed"
    unfolding demo_claimed_def
    by (rule step_claim [where job = "hd (q_jobs (m_sys demo_two))" and now = 1]) (simp_all add: demo_defs)
  ultimately show ?thesis by (meson converse_rtranclp_into_rtranclp rtranclp.rtrancl_refl)
qed

lemma demo_init: "jobs_init demo_start"
  by (simp add: jobs_init_def demo_start_def)

text \<open>
  C1. However the threads of the worker interleave, crashes and restarts included, and whatever the
  handlers do, the table never holds two running jobs of one sandbox.
\<close>

theorem one_running_job_per_sandbox:
  assumes "handlers_ok hs" and "jobs_init m0" and "(jobs_step hs)\<^sup>*\<^sup>* m0 m"
  shows "length (filter (\<lambda>r. j_sandbox_id r = sb \<and> j_state r = Running) (q_jobs (m_sys m))) \<le> 1"
proof -
  have inv: "jobs_inv m" using assms queue.reachable_inv by blast
  then have "distinct (map j_id (q_jobs (m_sys m)))" by (simp add: jobs_inv_def jobs_wf_def)
  then have "distinct (q_jobs (m_sys m))" by (simp add: distinct_map)
  then show ?thesis by (rule length_filter_unique) (auto intro: jobs_inv_one_running [OF inv])
qed

theorem one_running_job_per_sandbox_witness:
  "length (filter (\<lambda>r. j_sandbox_id r = ''s1'' \<and> j_state r = Running) (q_jobs (m_sys demo_claimed))) \<le> 1 \<and>
   length (q_jobs (m_sys demo_claimed)) = 2"
  using one_running_job_per_sandbox [OF demo_handlers_ok(1) demo_init demo_steps, of "''s1''"]
  by (simp add: demo_defs)

text \<open>
  C21. In every reachable state a job has used at most \<open>max_attempts\<close> attempts, and a queued job has
  at least one left.
\<close>

theorem attempts_within_limit:
  assumes "handlers_ok hs" and "jobs_init m0" and "(jobs_step hs)\<^sup>*\<^sup>* m0 m"
    and "get_job (q_jobs (m_sys m)) i = Some j"
  shows "0 \<le> j_attempts j \<and> j_attempts j \<le> j_max_attempts j \<and>
    (j_state j = Queued \<longrightarrow> j_attempts j < j_max_attempts j)"
proof -
  have "jobs_inv m" using assms(1-3) queue.reachable_inv by blast
  then have "job_ok j"
    using jobs_tbl.lookup_mem [OF assms(4)] by (auto simp: jobs_inv_def jobs_wf_def)
  then show ?thesis by (auto simp: job_ok_def)
qed

theorem attempts_within_limit_witness:
  "j_attempts (the (get_job (q_jobs (m_sys demo_claimed)) ''j1'')) = 1 \<and>
   1 \<le> j_max_attempts (the (get_job (q_jobs (m_sys demo_claimed)) ''j1''))"
proof -
  have get: "get_job (q_jobs (m_sys demo_claimed)) ''j1'' =
      Some (the (get_job (q_jobs (m_sys demo_claimed)) ''j1''))"
    by (simp add: demo_defs get_job_def)
  moreover have "j_attempts (the (get_job (q_jobs (m_sys demo_claimed)) ''j1'')) = 1"
    by (simp add: demo_defs get_job_def)
  ultimately show ?thesis
    using attempts_within_limit [OF demo_handlers_ok(1) demo_init demo_steps get] by simp
qed

text \<open>
  C22. A job that succeeded, failed or was cancelled is never changed again: its row is in the table,
  as it is, in every later state.
\<close>

theorem finished_jobs_are_final:
  assumes "(jobs_step hs)\<^sup>*\<^sup>* m m'" and "r \<in> set (q_jobs (m_sys m))" and "\<not> is_active (j_state r)"
  shows "r \<in> set (q_jobs (m_sys m'))"
  using assms keeps_finished_steps by (auto simp: keeps_finished_def)

definition demo_cancelled :: "unit machine" where
  "demo_cancelled = demo_queued\<lparr>m_sys := (m_sys demo_queued)\<lparr>q_jobs :=
     cancel_sandbox_jobs 2 ''s1'' (q_jobs (m_sys demo_queued))\<rparr>\<rparr>"

theorem finished_jobs_are_final_witness:
  "hd (q_jobs (m_sys demo_cancelled))
     \<in> set (q_jobs (m_sys (demo_cancelled\<lparr>m_sys := expire demo_handlers (seconds 90) (m_sys demo_cancelled)\<rparr>)))"
proof (rule finished_jobs_are_final [of demo_handlers demo_cancelled])
  show "(jobs_step demo_handlers)\<^sup>*\<^sup>* demo_cancelled
      (demo_cancelled\<lparr>m_sys := expire demo_handlers (seconds 90) (m_sys demo_cancelled)\<rparr>)"
    by (intro r_into_rtranclp step_expire)
qed (simp_all add: demo_cancelled_def demo_defs cancel_sandbox_jobs_def)

text \<open>
  \<open>expire\<close> fails exactly the queued and running jobs whose deadline has passed, each with the
  reason that names how long it had, and leaves every other row as it was.
\<close>

theorem expire_exact:
  assumes "jobs_wf (q_jobs s)"
  shows "get_job (q_jobs (expire hs now s)) i =
    map_option (\<lambda>j. if overdue now j then timed_out now j else j) (get_job (q_jobs s) i)"
  using assms by (simp add: get_expire jobs_wf_def del: expire_simps)

theorem expire_exact_witness:
  "map_option j_last_error
     (get_job (q_jobs (expire demo_handlers (seconds 61) (m_sys demo_claimed))) ''j1'') =
   Some (Some ''timed out after 1 minutes'')"
proof -
  have "jobs_wf (q_jobs (m_sys demo_claimed))"
    using queue.reachable_inv [OF demo_init demo_steps] demo_handlers_ok(1)
    by (simp add: jobs_inv_def)
  then show ?thesis
    unfolding expire_exact [OF \<open>jobs_wf (q_jobs (m_sys demo_claimed))\<close>]
    by (simp add: demo_defs get_job_def overdue_def timed_out_def timeout_reason_def py_round_div_def
        seconds_def py_str_def digits.simps)
qed



text \<open>
  The worker never has more than \<open>PARALLEL\<close> jobs in hand: a pass over the due jobs stops
  claiming at that number.
\<close>

theorem dispatch_within_parallel:
  assumes "length (q_live s) \<le> PARALLEL"
  shows "length (q_live (snd (dispatch closing now due s))) \<le> 8"
  using dispatch_bound [OF assms] by (simp add: PARALLEL_def)

theorem dispatch_within_parallel_witness:
  "length (q_live (snd (dispatch False 1 (q_jobs (m_sys demo_two)) (m_sys demo_two)))) \<le> 8"
  by (rule dispatch_within_parallel) (simp add: demo_defs PARALLEL_def)

end
