(* ===== verification/SandboxTable.thy ===== *)
theory SandboxTable
  imports Prelude
begin

section \<open>Sandboxes and snapshots: rows and queries\<close>

text \<open>
  The tables \<open>sandboxes\<close> and \<open>snapshots\<close>: a record per row (\<open>db.generated.models.Sandbox\<close> and
  \<open>Snapshot\<close>) and a definition per query of \<open>db/generated/query.py\<close>. A query with \<open>RETURNING *\<close>
  gives the changed table; the row it returns is what \<open>get_sandbox\<close> finds there afterwards. The
  columns \<open>status\<close> and \<open>state\<close> have a \<open>CHECK\<close> list and \<open>kind\<close> is a \<open>Literal\<close> of the request, so all
  three are enumerations. \<open>DOUBLE PRECISION\<close> columns are rationals: the model adds and compares
  them without rounding. \<open>config\<close> is the JSON object its text encodes.
\<close>

datatype status = Pending | Provisioning | Up | Stopped | Broken | Deleting | Deleted

fun status_text :: "status \<Rightarrow> string" where
  "status_text Pending = ''pending''"
| "status_text Provisioning = ''provisioning''"
| "status_text Up = ''running''"
| "status_text Stopped = ''stopped''"
| "status_text Broken = ''failed''"
| "status_text Deleting = ''deleting''"
| "status_text Deleted = ''deleted''"

datatype kind = Desktop | Browser | Code | Macos | Windows

record sandbox =
  s_id :: string
  s_workspace_id :: string
  s_image_version_id :: string
  s_created_by :: string
  s_name :: string
  s_status :: status
  s_runtime :: string
  s_runtime_id :: "string option"
  s_runtime_host :: "string option"
  s_resources :: string
  s_config :: "(string, json) dict"
  s_error_message :: "string option"
  s_started_at :: "time option"
  s_stopped_at :: "time option"
  s_paused_at :: "time option"
  s_created_at :: time
  s_updated_at :: time
  s_deleted_at :: "time option"
  s_server_id :: "string option"
  s_kind :: kind
  s_unreachable_since :: "time option"
  s_base_version :: "string option"
  s_boot_seconds :: "rat option"
  s_recovered_at :: "time option"
  s_cpus :: rat
  s_memory_mb :: int
  s_disk_gb :: "int option"
  s_last_activity_at :: "time option"
  s_idle_timeout_minutes :: "int option"
  s_max_lifetime_minutes :: "int option"

subsection \<open>Queries on sandboxes\<close>

definition create_sandbox :: "time \<Rightarrow> string \<Rightarrow> string \<Rightarrow> string \<Rightarrow> string \<Rightarrow> string \<Rightarrow> string \<Rightarrow> string \<Rightarrow>
    (string, json) dict \<Rightarrow> sandbox tbl \<Rightarrow> sandbox \<times> sandbox tbl" where
  "create_sandbox now i workspace_id image_version_id created_by name runtime resources config t =
     (let r = \<lparr>s_id = i, s_workspace_id = workspace_id, s_image_version_id = image_version_id,
               s_created_by = created_by, s_name = name, s_status = Pending, s_runtime = runtime,
               s_runtime_id = None, s_runtime_host = None, s_resources = resources, s_config = config,
               s_error_message = None, s_started_at = None, s_stopped_at = None, s_paused_at = None,
               s_created_at = now, s_updated_at = now, s_deleted_at = None, s_server_id = None,
               s_kind = Desktop, s_unreachable_since = None, s_base_version = None,
               s_boot_seconds = None, s_recovered_at = None, s_cpus = 2, s_memory_mb = 2048,
               s_disk_gb = None, s_last_activity_at = None, s_idle_timeout_minutes = None,
               s_max_lifetime_minutes = None\<rparr>
      in (r, t @ [r]))"

definition get_sandbox :: "sandbox tbl \<Rightarrow> string \<Rightarrow> sandbox option" where
  "get_sandbox t i = find_row (\<lambda>s. s_id s = i) t"

definition get_sandbox_by_runtime_id :: "sandbox tbl \<Rightarrow> string \<Rightarrow> sandbox option" where
  "get_sandbox_by_runtime_id t rid = find_row (\<lambda>s. s_runtime_id s = Some rid) t"

definition list_all_sandboxes :: "sandbox tbl \<Rightarrow> sandbox list" where
  "list_all_sandboxes t = sort_key (\<lambda>s. - s_created_at s) (filter (\<lambda>s. s_deleted_at s = None) t)"

definition list_paused_sandboxes :: "sandbox tbl \<Rightarrow> sandbox list" where
  "list_paused_sandboxes t =
     sort_key s_paused_at (filter (\<lambda>s. s_paused_at s \<noteq> None \<and> s_status s = Stopped) t)"

text \<open>Every \<open>UPDATE\<close> below is on the row with one id.\<close>

definition set_row :: "string \<Rightarrow> (sandbox \<Rightarrow> sandbox) \<Rightarrow> sandbox tbl \<Rightarrow> sandbox tbl" where
  "set_row i f t = update_where (\<lambda>s. s_id s = i) f t"

definition update_sandbox :: "time \<Rightarrow> string \<Rightarrow> string \<Rightarrow> (string, json) dict \<Rightarrow> string \<Rightarrow> sandbox tbl \<Rightarrow> sandbox tbl" where
  "update_sandbox now name resources config i =
     set_row i (\<lambda>s. s\<lparr>s_name := name, s_resources := resources, s_config := config, s_updated_at := now\<rparr>)"

definition rename_sandbox :: "time \<Rightarrow> string \<Rightarrow> string \<Rightarrow> sandbox tbl \<Rightarrow> sandbox tbl" where
  "rename_sandbox now name i = set_row i (\<lambda>s. s\<lparr>s_name := name, s_updated_at := now\<rparr>)"

definition update_sandbox_status :: "time \<Rightarrow> status \<Rightarrow> string \<Rightarrow> sandbox tbl \<Rightarrow> sandbox tbl" where
  "update_sandbox_status now st i = set_row i (\<lambda>s. s\<lparr>s_status := st, s_updated_at := now\<rparr>)"

definition update_sandbox_runtime :: "time \<Rightarrow> string option \<Rightarrow> string option \<Rightarrow> string \<Rightarrow> sandbox tbl \<Rightarrow> sandbox tbl" where
  "update_sandbox_runtime now rid host i =
     set_row i (\<lambda>s. s\<lparr>s_runtime_id := rid, s_runtime_host := host, s_updated_at := now\<rparr>)"

definition clear_sandbox_runtime :: "time \<Rightarrow> string \<Rightarrow> sandbox tbl \<Rightarrow> sandbox tbl" where
  "clear_sandbox_runtime now i =
     set_row i (\<lambda>s. s\<lparr>s_runtime_id := None, s_runtime_host := None, s_paused_at := None, s_updated_at := now\<rparr>)"

definition clear_sandbox_paused :: "time \<Rightarrow> string \<Rightarrow> sandbox tbl \<Rightarrow> sandbox tbl" where
  "clear_sandbox_paused now i = set_row i (\<lambda>s. s\<lparr>s_paused_at := None, s_updated_at := now\<rparr>)"

definition set_sandbox_started :: "time \<Rightarrow> string \<Rightarrow> sandbox tbl \<Rightarrow> sandbox tbl" where
  "set_sandbox_started now i =
     set_row i (\<lambda>s. s\<lparr>s_status := Up, s_started_at := Some now, s_stopped_at := None,
                      s_error_message := None, s_updated_at := now\<rparr>)"

definition set_sandbox_stopped :: "time \<Rightarrow> string \<Rightarrow> sandbox tbl \<Rightarrow> sandbox tbl" where
  "set_sandbox_stopped now i =
     set_row i (\<lambda>s. s\<lparr>s_status := Stopped, s_stopped_at := Some now, s_updated_at := now\<rparr>)"

definition set_sandbox_paused :: "time \<Rightarrow> string \<Rightarrow> sandbox tbl \<Rightarrow> sandbox tbl" where
  "set_sandbox_paused now i =
     set_row i (\<lambda>s. s\<lparr>s_status := Stopped, s_paused_at := Some now, s_stopped_at := Some now,
                      s_updated_at := now\<rparr>)"

definition set_sandbox_failed :: "time \<Rightarrow> string \<Rightarrow> string \<Rightarrow> sandbox tbl \<Rightarrow> sandbox tbl" where
  "set_sandbox_failed now err i =
     set_row i (\<lambda>s. s\<lparr>s_status := Broken, s_error_message := Some err, s_updated_at := now\<rparr>)"

definition soft_delete_sandbox :: "time \<Rightarrow> string \<Rightarrow> sandbox tbl \<Rightarrow> sandbox tbl" where
  "soft_delete_sandbox now i =
     set_row i (\<lambda>s. s\<lparr>s_status := Deleted, s_deleted_at := Some now, s_updated_at := now\<rparr>)"

definition delete_sandbox_row :: "string \<Rightarrow> sandbox tbl \<Rightarrow> sandbox tbl" where
  "delete_sandbox_row i t = delete_where (\<lambda>s. s_id s = i) t"

definition set_sandbox_placement :: "time \<Rightarrow> string option \<Rightarrow> kind \<Rightarrow> string \<Rightarrow> sandbox tbl \<Rightarrow> sandbox tbl" where
  "set_sandbox_placement now srv k i =
     set_row i (\<lambda>s. s\<lparr>s_server_id := srv, s_kind := k, s_updated_at := now\<rparr>)"

definition set_sandbox_size :: "rat \<Rightarrow> int \<Rightarrow> int option \<Rightarrow> string \<Rightarrow> sandbox tbl \<Rightarrow> sandbox tbl" where
  "set_sandbox_size cpus memory_mb disk_gb i =
     set_row i (\<lambda>s. s\<lparr>s_cpus := cpus, s_memory_mb := memory_mb, s_disk_gb := disk_gb\<rparr>)"

definition set_sandbox_lifecycle :: "int option \<Rightarrow> int option \<Rightarrow> string \<Rightarrow> sandbox tbl \<Rightarrow> sandbox tbl" where
  "set_sandbox_lifecycle idle life i =
     set_row i (\<lambda>s. s\<lparr>s_idle_timeout_minutes := idle, s_max_lifetime_minutes := life\<rparr>)"

definition set_sandbox_boot :: "time \<Rightarrow> string option \<Rightarrow> rat \<Rightarrow> string \<Rightarrow> sandbox tbl \<Rightarrow> sandbox tbl" where
  "set_sandbox_boot now base secs i =
     set_row i (\<lambda>s. s\<lparr>s_base_version := base, s_boot_seconds := Some secs, s_updated_at := now\<rparr>)"

definition set_sandbox_reachable :: "string \<Rightarrow> sandbox tbl \<Rightarrow> sandbox tbl" where
  "set_sandbox_reachable i = set_row i (\<lambda>s. s\<lparr>s_unreachable_since := None\<rparr>)"

definition set_sandbox_unreachable :: "time \<Rightarrow> string \<Rightarrow> sandbox tbl \<Rightarrow> sandbox tbl" where
  "set_sandbox_unreachable now i =
     set_row i (\<lambda>s. s\<lparr>s_unreachable_since :=
       (case s_unreachable_since s of None \<Rightarrow> Some now | Some u \<Rightarrow> Some u)\<rparr>)"

definition set_sandbox_recovered :: "time \<Rightarrow> string \<Rightarrow> sandbox tbl \<Rightarrow> sandbox tbl" where
  "set_sandbox_recovered now i = set_row i (\<lambda>s. s\<lparr>s_recovered_at := Some now, s_updated_at := now\<rparr>)"

text \<open>Activity is written at most once in 30 seconds.\<close>

definition touch_sandbox :: "time \<Rightarrow> string \<Rightarrow> sandbox tbl \<Rightarrow> sandbox tbl" where
  "touch_sandbox now i t =
     update_where (\<lambda>s. s_id s = i \<and> (case s_last_activity_at s of
         None \<Rightarrow> True | Some a \<Rightarrow> a < now - seconds 30))
       (\<lambda>s. s\<lparr>s_last_activity_at := Some now\<rparr>) t"

subsection \<open>Snapshots\<close>

datatype snapshot_state = Creating | Ready | SnapFailed

fun snapshot_state_text :: "snapshot_state \<Rightarrow> string" where
  "snapshot_state_text Creating = ''creating''"
| "snapshot_state_text Ready = ''ready''"
| "snapshot_state_text SnapFailed = ''failed''"

record snapshot =
  n_id :: string
  n_sandbox_id :: string
  n_server_id :: "string option"
  n_name :: string
  n_size_bytes :: int
  n_state :: snapshot_state
  n_error :: "string option"
  n_created_by :: string
  n_created_at :: time
  n_seq :: int

definition create_snapshot_row :: "time \<Rightarrow> int \<Rightarrow> string \<Rightarrow> string \<Rightarrow> string option \<Rightarrow> string \<Rightarrow> string \<Rightarrow>
    snapshot tbl \<Rightarrow> snapshot \<times> snapshot tbl" where
  "create_snapshot_row now seq i sandbox_id server_id name created_by t =
     (let r = \<lparr>n_id = i, n_sandbox_id = sandbox_id, n_server_id = server_id, n_name = name,
               n_size_bytes = 0, n_state = Creating, n_error = None, n_created_by = created_by,
               n_created_at = now, n_seq = seq\<rparr>
      in (r, t @ [r]))"

definition get_snapshot :: "snapshot tbl \<Rightarrow> string \<Rightarrow> snapshot option" where
  "get_snapshot t i = find_row (\<lambda>n. n_id n = i) t"

definition list_snapshots_by_sandbox :: "snapshot tbl \<Rightarrow> string \<Rightarrow> snapshot list" where
  "list_snapshots_by_sandbox t sandbox_id =
     sort_key (\<lambda>n. (- n_created_at n, - n_seq n)) (filter (\<lambda>n. n_sandbox_id n = sandbox_id) t)"

definition set_snapshot_ready :: "int \<Rightarrow> string \<Rightarrow> snapshot tbl \<Rightarrow> snapshot tbl" where
  "set_snapshot_ready bytes i t =
     update_where (\<lambda>n. n_id n = i) (\<lambda>n. n\<lparr>n_state := Ready, n_size_bytes := bytes, n_error := None\<rparr>) t"

definition set_snapshot_failed :: "string \<Rightarrow> string \<Rightarrow> snapshot tbl \<Rightarrow> snapshot tbl" where
  "set_snapshot_failed err i t =
     update_where (\<lambda>n. n_id n = i) (\<lambda>n. n\<lparr>n_state := SnapFailed, n_error := Some err\<rparr>) t"

definition delete_snapshot_row :: "string \<Rightarrow> snapshot tbl \<Rightarrow> snapshot tbl" where
  "delete_snapshot_row i t = delete_where (\<lambda>n. n_id n = i) t"

subsection \<open>What the queries do to a row\<close>

interpretation sandboxes: keyed_table s_id get_sandbox
  by unfold_locales (simp add: get_sandbox_def)

interpretation snapshots: keyed_table n_id get_snapshot
  by unfold_locales (simp add: get_snapshot_def)

lemma get_set_row:
  assumes "\<And>s. s_id (f s) = s_id s"
  shows "get_sandbox (set_row i f t) k = map_option (\<lambda>s. if s_id s = i then f s else s) (get_sandbox t k)"
  by (simp add: set_row_def sandboxes.lookup_update assms)

lemma ids_set_row: "(\<And>s. s_id (f s) = s_id s) \<Longrightarrow> map s_id (set_row i f t) = map s_id t"
  by (simp add: set_row_def sandboxes.keys_update)

lemmas sandbox_query_defs [query_defs] =
  update_sandbox_def rename_sandbox_def update_sandbox_status_def update_sandbox_runtime_def
  clear_sandbox_runtime_def clear_sandbox_paused_def set_sandbox_started_def set_sandbox_stopped_def
  set_sandbox_paused_def set_sandbox_failed_def soft_delete_sandbox_def set_sandbox_placement_def
  set_sandbox_size_def set_sandbox_lifecycle_def set_sandbox_boot_def set_sandbox_reachable_def
  set_sandbox_unreachable_def set_sandbox_recovered_def

text \<open>An update of one row leaves the others, and what it does to its own row is its record update.\<close>

lemma get_set_row_other: "(\<And>s. s_id (f s) = s_id s) \<Longrightarrow> k \<noteq> i \<Longrightarrow> get_sandbox (set_row i f t) k = get_sandbox t k"
  by (cases "get_sandbox t k") (auto simp: get_set_row dest: sandboxes.lookup_key)

lemma get_set_row_same:
  "(\<And>s. s_id (f s) = s_id s) \<Longrightarrow> get_sandbox (set_row i f t) i = map_option f (get_sandbox t i)"
  by (cases "get_sandbox t i") (auto simp: get_set_row dest: sandboxes.lookup_key)

end
