(* ===== verification/Labels.thy ===== *)
theory Labels
  imports SandboxTable
begin

section \<open>Labels on sandboxes\<close>

text \<open>
  \<open>apps/server/labels.py\<close>: validating labels, selecting by them, and storing them, with the queries
  over \<open>sandbox_labels\<close> and \<open>usage_labels\<close>. Both tables have the columns \<open>sandbox_id\<close>, \<open>key\<close> and
  \<open>value\<close> and are unique on the first two.
\<close>

type_synonym labels = "(string, string) dict"

definition MAX_LABELS :: nat where "MAX_LABELS = 20"
definition MAX_VALUE :: nat where "MAX_VALUE = 255"
definition ANY :: string where "ANY = ''*''"

subsection \<open>Validation\<close>

definition key_start :: "char \<Rightarrow> bool" where
  "key_start c \<longleftrightarrow> (CHR ''a'' \<le> c \<and> c \<le> CHR ''z'') \<or> (CHR ''0'' \<le> c \<and> c \<le> CHR ''9'')"

definition key_char :: "char \<Rightarrow> bool" where
  "key_char c \<longleftrightarrow> key_start c \<or> c \<in> set ''_./-''"

definition key_text :: "string \<Rightarrow> bool" where
  "key_text s = (case s of [] \<Rightarrow> False | c # cs \<Rightarrow> key_start c \<and> list_all key_char cs \<and> length cs \<le> 62)"

text \<open>
  \<open>KEY.match\<close>: the pattern ends in \<open>$\<close>, which matches at the end and also before a newline that
  ends the string.
\<close>

definition KEY_match :: "string \<Rightarrow> bool" where
  "KEY_match s \<longleftrightarrow> key_text s \<or> (s \<noteq> [] \<and> last s = CHR 0x0A \<and> key_text (butlast s))"

fun validate_items :: "labels \<Rightarrow> unit res" where
  "validate_items [] = Inr ()"
| "validate_items ((key, value) # rest) =
     (if \<not> KEY_match key
      then Inl (ValueError (''label key '' @ py_repr key @
             '': 1-63 of a-z, 0-9, _ . / -, starting with a letter or digit''))
      else if value = [] \<or> length value > MAX_VALUE \<or> value = ANY
      then Inl (ValueError (''label '' @ key @ '': the value must be 1-'' @ py_str (int MAX_VALUE) @
             '' characters and not '' @ py_repr ANY))
      else validate_items rest)"

definition validate :: "labels \<Rightarrow> labels res" where
  "validate ls =
     (if length ls > MAX_LABELS then Inl (ValueError (''at most '' @ py_str (int MAX_LABELS) @ '' labels''))
      else bindr (validate_items ls) (\<lambda>_. Inr ls))"

fun parse_filters_into :: "labels \<Rightarrow> string list \<Rightarrow> labels res" where
  "parse_filters_into sel [] = Inr sel"
| "parse_filters_into sel (item # rest) =
     (case partition_at (CHR ''='') item of (key, sep, value) \<Rightarrow>
        if \<not> sep \<or> key = [] \<or> value = []
        then Inl (HTTPException 422 (''label filter '' @ py_repr item @ '' is not key=value''))
        else parse_filters_into (dict_set key value sel) rest)"

definition parse_filters :: "string list \<Rightarrow> labels res" where
  "parse_filters filters = parse_filters_into [] filters"

subsection \<open>Selecting\<close>

definition matches :: "labels \<Rightarrow> labels option \<Rightarrow> bool" where
  "matches ls selector = (case selector of
      None \<Rightarrow> True
    | Some sel \<Rightarrow> sel = [] \<or> list_all (\<lambda>(key, value). dict_get ls key = Some value) sel)"

fun scoped_check :: "labels \<Rightarrow> labels \<Rightarrow> unit res" where
  "scoped_check ls [] = Inr ()"
| "scoped_check ls ((key, value) # rest) =
     (if (case dict_get ls key of None \<Rightarrow> value | Some v \<Rightarrow> v) \<noteq> value
      then Inl (HTTPException 403 (''this API key only reaches sandboxes labelled '' @ key @ ''='' @ value))
      else scoped_check ls rest)"

definition scoped :: "labels \<Rightarrow> labels option \<Rightarrow> labels res" where
  "scoped ls selector = (case selector of
      None \<Rightarrow> Inr ls
    | Some sel \<Rightarrow> if sel = [] then Inr ls
                  else bindr (scoped_check ls sel) (\<lambda>_. Inr (dict_merge ls sel)))"

subsection \<open>Storage\<close>

record label_row =
  l_sandbox_id :: string
  l_key :: string
  l_value :: string

definition list_sandbox_labels :: "label_row tbl \<Rightarrow> string \<Rightarrow> label_row list" where
  "list_sandbox_labels t sandbox_id = sort_key l_key (filter (\<lambda>l. l_sandbox_id l = sandbox_id) t)"

definition delete_sandbox_labels :: "string \<Rightarrow> label_row tbl \<Rightarrow> label_row tbl" where
  "delete_sandbox_labels sandbox_id t = delete_where (\<lambda>l. l_sandbox_id l = sandbox_id) t"

definition set_sandbox_label :: "string \<Rightarrow> string \<Rightarrow> string \<Rightarrow> label_row tbl \<Rightarrow> label_row tbl" where
  "set_sandbox_label sandbox_id key value t =
     (if find_row (\<lambda>l. l_sandbox_id l = sandbox_id \<and> l_key l = key) t = None
      then t @ [\<lparr>l_sandbox_id = sandbox_id, l_key = key, l_value = value\<rparr>]
      else update_where (\<lambda>l. l_sandbox_id l = sandbox_id \<and> l_key l = key) (\<lambda>l. l\<lparr>l_value := value\<rparr>) t)"

definition labels_of :: "label_row tbl \<Rightarrow> string \<Rightarrow> labels" where
  "labels_of t sandbox_id = dict_merge [] (map (\<lambda>l. (l_key l, l_value l)) (list_sandbox_labels t sandbox_id))"

text \<open>\<open>list_workspace_sandbox_labels\<close> joins the labels with the workspace's sandboxes that are not deleted.\<close>

definition list_workspace_sandbox_labels :: "sandbox tbl \<Rightarrow> label_row tbl \<Rightarrow> string \<Rightarrow> label_row list" where
  "list_workspace_sandbox_labels st t workspace_id =
     filter (\<lambda>l. \<exists>s \<in> set st. s_id s = l_sandbox_id l \<and> s_workspace_id s = workspace_id \<and> s_deleted_at s = None) t"

fun group_labels :: "label_row list \<Rightarrow> (string, labels) dict \<Rightarrow> (string, labels) dict" where
  "group_labels [] found = found"
| "group_labels (l # ls) found =
     group_labels ls (dict_set (l_sandbox_id l)
       (dict_set (l_key l) (l_value l)
         (case dict_get found (l_sandbox_id l) of None \<Rightarrow> [] | Some d \<Rightarrow> d)) found)"

definition labels_of_workspace :: "sandbox tbl \<Rightarrow> label_row tbl \<Rightarrow> string \<Rightarrow> (string, labels) dict" where
  "labels_of_workspace st t workspace_id = group_labels (list_workspace_sandbox_labels st t workspace_id) []"

text \<open>\<open>put\<close> writes the same rows to \<open>sandbox_labels\<close> and \<open>usage_labels\<close>.\<close>

definition put_rows :: "string \<Rightarrow> labels \<Rightarrow> label_row tbl \<Rightarrow> label_row tbl" where
  "put_rows sandbox_id ls t =
     fold (\<lambda>(key, value). set_sandbox_label sandbox_id key value) ls (delete_sandbox_labels sandbox_id t)"

definition put :: "string \<Rightarrow> labels \<Rightarrow> label_row tbl \<times> label_row tbl \<Rightarrow> label_row tbl \<times> label_row tbl" where
  "put sandbox_id ls tu = (put_rows sandbox_id ls (fst tu), put_rows sandbox_id ls (snd tu))"

subsection \<open>Lemmas\<close>

definition label_at :: "label_row tbl \<Rightarrow> string \<Rightarrow> string \<Rightarrow> string option" where
  "label_at t s k = map_option l_value (find_row (\<lambda>l. l_sandbox_id l = s \<and> l_key l = k) t)"

definition labels_wf :: "label_row tbl \<Rightarrow> bool" where
  "labels_wf t \<longleftrightarrow> distinct (map (\<lambda>l. (l_sandbox_id l, l_key l)) t)"

lemma label_at_simps [simp]:
  "label_at [] s k = None"
  "label_at (l # t) s k = (if l_sandbox_id l = s \<and> l_key l = k then Some (l_value l) else label_at t s k)"
  by (simp_all add: label_at_def)

lemma label_at_append:
  "label_at (t @ u) s k = (case label_at t s k of Some v \<Rightarrow> Some v | None \<Rightarrow> label_at u s k)"
  by (induction t) auto

lemma label_at_delete: "label_at (delete_sandbox_labels sid t) s k = (if s = sid then None else label_at t s k)"
  by (induction t) (auto simp: delete_sandbox_labels_def delete_where_def)

lemma label_at_update:
  "label_at (update_where (\<lambda>l. l_sandbox_id l = sid \<and> l_key l = key) (\<lambda>l. l\<lparr>l_value := v\<rparr>) t) s k =
   (if s = sid \<and> k = key then map_option (\<lambda>_. v) (label_at t s k) else label_at t s k)"
  by (induction t) auto

lemma label_at_set: "label_at (set_sandbox_label sid key v t) s k = (if s = sid \<and> k = key then Some v else label_at t s k)"
proof (cases "label_at t sid key")
  case None
  then show ?thesis
    by (auto simp: set_sandbox_label_def label_at_def find_row_append split: option.splits)
next
  case (Some w)
  then have "find_row (\<lambda>l. l_sandbox_id l = sid \<and> l_key l = key) t \<noteq> None" by (auto simp: label_at_def)
  then show ?thesis using Some by (auto simp: set_sandbox_label_def label_at_update)
qed

lemma label_at_set_all:
  "wf_dict ls \<Longrightarrow> label_at (fold (\<lambda>(key, v). set_sandbox_label sid key v) ls t) s k =
   (if s = sid then (case dict_get ls k of Some v \<Rightarrow> Some v | None \<Rightarrow> label_at t s k) else label_at t s k)"
proof (induction ls arbitrary: t)
  case (Cons kv ls)
  obtain key v where kv: "kv = (key, v)" by (cases kv)
  with Cons.prems have "dict_get ls key = None" by (simp add: map_of_eq_None_iff)
  with Cons kv show ?case by (auto simp: label_at_set split: option.splits)
qed simp

lemma label_at_put: "wf_dict ls \<Longrightarrow> label_at (put_rows sid ls t) s k = (if s = sid then dict_get ls k else label_at t s k)"
  by (auto simp: put_rows_def label_at_set_all label_at_delete split: option.splits)

lemma labels_wf_set: "labels_wf t \<Longrightarrow> labels_wf (set_sandbox_label sid key v t)"
  by (auto simp: labels_wf_def set_sandbox_label_def map_update_where dest: find_row_NoneD)

lemma labels_wf_put: "labels_wf t \<Longrightarrow> labels_wf (put_rows sid ls t)"
proof -
  assume "labels_wf t"
  then have "labels_wf (delete_sandbox_labels sid t)"
    by (simp add: labels_wf_def delete_sandbox_labels_def delete_where_def distinct_map_filter)
  moreover have "labels_wf u \<Longrightarrow> labels_wf (fold (\<lambda>(key, v). set_sandbox_label sid key v) ls u)" for u
    by (induction ls arbitrary: u) (auto simp: labels_wf_set)
  ultimately show ?thesis by (simp add: put_rows_def)
qed

lemma labels_of_eq:
  assumes "labels_wf t"
  shows "dict_get (labels_of t s) = label_at t s"
proof -
  let ?rows = "sort_key l_key (filter (\<lambda>l. l_sandbox_id l = s) t)"
  let ?items = "map (\<lambda>l. (l_key l, l_value l)) ?rows"
  have "distinct (map (\<lambda>l. (l_sandbox_id l, l_key l)) (filter (\<lambda>l. l_sandbox_id l = s) t))"
    using assms by (simp add: labels_wf_def distinct_filter_map)
  then have "distinct (map l_key (filter (\<lambda>l. l_sandbox_id l = s) t))"
    by (auto simp: distinct_map inj_on_def)
  then have d: "distinct (map l_key ?rows)" by (rule distinct_map_sort)
  then have wf: "wf_dict ?items" by (simp add: comp_def)
  have "dict_get ?items k = label_at t s k" for k
  proof (cases "label_at t s k")
    case None
    then show ?thesis
      by (auto simp: map_of_eq_None_iff label_at_def dest: find_row_NoneD)
  next
    case (Some v)
    then obtain l where l: "l \<in> set t" "l_sandbox_id l = s" "l_key l = k" "l_value l = v"
      by (auto simp: label_at_def dest: find_row_SomeD)
    then have "(k, v) \<in> set ?items" by force
    with wf Some show ?thesis by (simp only: map_of_eq_Some_iff)
  qed
  with wf show ?thesis
    by (simp add: labels_of_def list_sandbox_labels_def dict_get_merge fun_eq_iff)
qed

lemma scoped_check_ok:
  "scoped_check ls sel = Inr u \<longleftrightarrow>
   (\<forall>(k, v) \<in> set sel. case dict_get ls k of None \<Rightarrow> True | Some w \<Rightarrow> w = v)"
  by (induction ls sel rule: scoped_check.induct) (auto split: option.splits)

lemma scoped_Inr:
  assumes "scoped ls (Some sel) = Inr ls'" and "wf_dict sel"
  shows "dict_get ls' = dict_get ls ++ dict_get sel" and "dict_get ls \<subseteq>\<^sub>m dict_get ls'"
proof -
  from assms show eq: "dict_get ls' = dict_get ls ++ dict_get sel"
    by (auto simp: scoped_def dict_get_merge split: if_splits)
  show "dict_get ls \<subseteq>\<^sub>m dict_get ls'"
  proof (cases "sel = []")
    case False
    with assms have ok: "\<forall>(k, v) \<in> set sel. case dict_get ls k of None \<Rightarrow> True | Some w \<Rightarrow> w = v"
      by (auto simp: scoped_def scoped_check_ok)
    have "w = v" if "dict_get ls k = Some w" "dict_get sel k = Some v" for k v w
      using bspec [OF ok map_of_SomeD [OF that(2)]] that(1) by simp
    then show ?thesis
      unfolding eq map_le_def by (auto simp: map_add_def split: option.splits)
  qed (simp add: eq)
qed


subsection \<open>Properties\<close>

text \<open>
  C23. Replacing a sandbox's labels and reading them back gives the labels written, in both tables,
  and no other sandbox's labels change.
\<close>

theorem put_then_read:
  assumes "labels_wf t" and "labels_wf u" and "wf_dict ls"
  shows "dict_get (labels_of (fst (put sid ls (t, u))) s) = (if s = sid then dict_get ls else dict_get (labels_of t s))
    \<and> dict_get (labels_of (snd (put sid ls (t, u))) s) = (if s = sid then dict_get ls else dict_get (labels_of u s))"
  using assms by (simp add: put_def labels_of_eq labels_wf_put label_at_put fun_eq_iff)

definition demo_labels :: "label_row tbl" where
  "demo_labels = [\<lparr>l_sandbox_id = ''s1'', l_key = ''team'', l_value = ''a''\<rparr>,
                  \<lparr>l_sandbox_id = ''s2'', l_key = ''team'', l_value = ''b''\<rparr>]"

theorem put_then_read_witness:
  "dict_get (labels_of (fst (put ''s1'' [(''end_user'', ''alice'')] (demo_labels, []))) ''s1'') ''team'' = None \<and>
   dict_get (labels_of (fst (put ''s1'' [(''end_user'', ''alice'')] (demo_labels, []))) ''s2'') ''team'' = Some ''b''"
proof -
  have wf: "labels_wf demo_labels" "labels_wf []" "wf_dict [(''end_user'' :: string, ''alice'' :: string)]"
    by (simp_all add: labels_wf_def demo_labels_def)
  have "label_at demo_labels ''s2'' ''team'' = Some ''b''" by (simp add: demo_labels_def)
  then show ?thesis
    using put_then_read [OF wf, of "''s1''" "''s1''"] put_then_read [OF wf, of "''s1''" "''s2''"]
    by (simp add: labels_of_eq wf)
qed

text \<open>
  What an API key with a label selector may put on a sandbox: the labels asked for, with the
  selector's added and never overridden. So the sandbox it makes, read back from the tables, is one
  the key reaches.
\<close>

theorem scoped_key_reaches_what_it_makes:
  assumes "scoped ls (Some sel) = Inr ls'" and "wf_dict ls" and "wf_dict sel" and "labels_wf t"
  shows "matches (labels_of (put_rows sid ls' t) sid) (Some sel) \<and> dict_get ls \<subseteq>\<^sub>m dict_get ls'"
proof -
  have "wf_dict ls'" using assms by (auto simp: scoped_def wf_dict_merge split: if_splits)
  then have "dict_get (labels_of (put_rows sid ls' t) sid) = dict_get ls'"
    using assms(4) by (simp add: labels_of_eq labels_wf_put label_at_put fun_eq_iff)
  moreover have "(dict_get ls ++ dict_get sel) k = Some v" if "(k, v) \<in> set sel" for k v
    using assms(3) that by simp
  ultimately show ?thesis
    using scoped_Inr [OF assms(1,3)] by (auto simp: matches_def list_all_iff)
qed

theorem scoped_key_reaches_what_it_makes_witness:
  "matches (labels_of (put_rows ''s3'' [(''team'', ''a''), (''end_user'', ''alice'')] demo_labels) ''s3'')
     (Some [(''end_user'', ''alice'')])"
  using scoped_key_reaches_what_it_makes [of "[(''team'', ''a'')]" "[(''end_user'', ''alice'')]"
      "[(''team'', ''a''), (''end_user'', ''alice'')]" demo_labels "''s3''"]
  by (simp add: scoped_def labels_wf_def demo_labels_def)

text \<open>
  A label key may end in a newline, which the rule the error message states does not allow:
  the pattern's \<open>$\<close> also matches before it.
\<close>

theorem label_key_may_end_in_newline:
  "validate [([CHR ''a'', CHR 0x0A], ''x'')] = Inr [([CHR ''a'', CHR 0x0A], ''x'')]"
  by (simp add: validate_def KEY_match_def key_text_def key_start_def less_eq_char_def
      MAX_LABELS_def MAX_VALUE_def ANY_def)

end
