(* ===== verification/World.thy ===== *)
theory World
  imports Jobs Labels
begin

section \<open>The database and the hosts\<close>

text \<open>
  The state the API works on besides the job queue: the tables the modelled queries read and write,
  as one record \<open>'h world\<close>, and the state \<open>'h\<close> of the hosts that run containers and virtual
  machines, which only the runtime's operations touch. A value of \<open>'h world sys\<close> is the whole
  state: the tables, the jobs and the live map of the queue.

  A database session that raises is rolled back: an operation that fails gives the exception and
  the state it started in. A record has the columns of its row (\<open>db.generated.models\<close>); a column
  with a \<open>CHECK\<close> list is an enumeration, and one that holds JSON is the value it encodes where
  the code decodes it.
\<close>

datatype role = Viewer | Member | Admin | Owner

datatype member_status = Invited | Active | Suspended

record workspace =
  ws_id :: string
  ws_name :: string
  ws_slug :: string
  ws_created_by :: string
  ws_created_at :: time
  ws_updated_at :: time
  ws_default_idle_timeout_minutes :: "int option"
  ws_default_max_lifetime_minutes :: "int option"
  ws_storage_metered_at :: "time option"

record member_row =
  mr_workspace_id :: string
  mr_user_id :: string
  mr_role :: role
  mr_status :: member_status
  mr_joined_at :: "time option"
  mr_created_at :: time

record user =
  us_id :: string
  us_email :: string
  us_name :: "string option"
  us_password :: string
  us_avatar_url :: "string option"
  us_onboarded_at :: "time option"
  us_created_at :: time
  us_updated_at :: time

record api_key =
  ak_id :: string
  ak_workspace_id :: string
  ak_created_by :: string
  ak_name :: string
  ak_key_hash :: string
  ak_key_prefix :: string
  ak_scopes :: string
  ak_expires_at :: "time option"
  ak_last_used_at :: "time option"
  ak_revoked_at :: "time option"
  ak_created_at :: time
  ak_sandbox_id :: "string option"
  ak_read_only :: bool
  ak_label_selector :: "labels option"

text \<open>The four limits of a row of \<open>workspace_quotas\<close> or \<open>label_quotas\<close>; null is no limit.\<close>

record limits =
  max_running_sandboxes :: "int option"
  max_cpus :: "rat option"
  max_memory_mb :: "int option"
  max_storage_gb :: "int option"

record label_quota =
  lq_workspace_id :: string
  lq_key :: string
  lq_value :: string
  lq_limits :: limits
  lq_updated_at :: time

record server =
  sv_id :: string
  sv_workspace_id :: string
  sv_name :: string
  sv_docker_url :: string
  sv_bind_address :: string
  sv_created_by :: string
  sv_created_at :: time
  sv_platform :: string
  sv_capabilities :: string

record profile =
  pf_id :: string
  pf_workspace_id :: string
  pf_user_id :: string
  pf_name :: string
  pf_app :: string
  pf_size_bytes :: int
  pf_created_at :: time
  pf_encrypted :: bool
  pf_platform :: string

record profile_version =
  pv_id :: string
  pv_profile_id :: string
  pv_version :: int
  pv_size_bytes :: int
  pv_encrypted :: bool
  pv_sandbox_id :: "string option"
  pv_created_by :: "string option"
  pv_created_at :: time

record vault_secret =
  vs_id :: string
  vs_workspace_id :: string
  vs_user_id :: string
  vs_name :: string
  vs_description :: "string option"
  vs_ciphertext :: string
  vs_created_at :: time
  vs_updated_at :: time
  vs_last_used_at :: "time option"
  vs_expires_at :: "time option"
  vs_rotate_every_days :: "int option"
  vs_rotated_at :: "time option"

record vault_grant =
  vg_sandbox_id :: string
  vg_secret_id :: string
  vg_created_at :: time
  vg_last_used_at :: "time option"

record sandbox_permission =
  sp_id :: string
  sp_sandbox_id :: string
  sp_permission :: string
  sp_action :: string
  sp_effect :: string
  sp_rules :: string
  sp_created_at :: time

record sandbox_image =
  im_id :: string
  im_workspace_id :: string
  im_name :: string
  im_slug :: string
  im_description :: "string option"
  im_is_public :: bool
  im_created_by :: string
  im_created_at :: time
  im_updated_at :: time

record image_version =
  iv_id :: string
  iv_image_id :: string
  iv_version :: string
  iv_image_uri :: string
  iv_image_digest :: "string option"
  iv_build_config :: string
  iv_default_resources :: string
  iv_created_by :: string
  iv_created_at :: time

datatype pool_status = PoolBooting | PoolIdle | PoolFailed

record pool_sandbox =
  p_id :: string
  p_kind :: kind
  p_server_id :: "string option"
  p_image :: string
  p_config :: "(string, json) dict"
  p_status :: pool_status
  p_runtime_id :: "string option"
  p_runtime_host :: "string option"
  p_error_message :: "string option"
  p_created_at :: time
  p_updated_at :: time
  p_seq :: int

record pool_setting =
  po_id :: string
  po_kind :: kind
  po_server_id :: "string option"
  po_size :: int
  po_updated_at :: time

record audit_row =
  au_id :: string
  au_workspace_id :: string
  au_actor_id :: "string option"
  au_sandbox_id :: "string option"
  au_action :: string
  au_resource_type :: string
  au_resource_id :: "string option"
  au_metadata :: "(string, json) dict"
  au_created_at :: time

record sandbox_secret =
  se_id :: string
  se_sandbox_id :: string
  se_name :: string
  se_secret_ref :: string
  se_injection_config :: string
  se_enabled :: bool
  se_created_at :: time
  se_updated_at :: time

record secret_key =
  sk_id :: string
  sk_scope :: string
  sk_wrapped :: string
  sk_created_at :: time
  sk_rotated_at :: "time option"

record network_policy =
  np_id :: string
  np_sandbox_id :: string
  np_default_action :: string
  np_allow_dns :: bool
  np_created_at :: time
  np_updated_at :: time

record network_rule =
  nr_id :: string
  nr_policy_id :: string
  nr_rule_type :: string
  nr_value :: string
  nr_effect :: string
  nr_created_at :: time

record app =
  ap_id :: string
  ap_workspace_id :: "string option"
  ap_name :: string
  ap_slug :: string
  ap_description :: "string option"
  ap_install_config :: string
  ap_created_at :: time

record app_permission =
  pm_id :: string
  pm_sandbox_id :: string
  pm_app_id :: string
  pm_action :: string
  pm_effect :: string
  pm_created_at :: time

record invitation =
  in_id :: string
  in_workspace_id :: string
  in_email :: string
  in_role :: role
  in_invited_by :: string
  in_token_hash :: string
  in_expires_at :: time
  in_accepted_at :: "time option"
  in_revoked_at :: "time option"
  in_created_at :: time

record viewer_link =
  vl_id :: string
  vl_workspace_id :: string
  vl_sandbox_id :: string
  vl_token_hash :: string
  vl_mode :: string
  vl_end_user :: "string option"
  vl_created_by :: string
  vl_expires_at :: time
  vl_revoked_at :: "time option"
  vl_created_at :: time

datatype execution_status = ExPending | ExRunning | ExCompleted | ExFailed | ExCancelled

record tool_execution =
  te_id :: string
  te_sandbox_id :: string
  te_tool_name :: string
  te_status :: execution_status
  te_input :: string
  te_output :: "string option"
  te_error_message :: "string option"
  te_started_at :: "time option"
  te_completed_at :: "time option"
  te_created_at :: time

text \<open>
  The tables, the numbers of their sequences, and the memory of the API process that the modelled
  code keeps: the pool's counters and boots (\<open>Pool.claimed\<close>, \<open>Pool.booting\<close>), the unwrapped data keys (\<open>security._data_keys\<close>)
  the secret values a sandbox booted with and has attached (\<open>_booted\<close>, \<open>_attached\<close>), and which virtual machines
  look hung and when their screens were asked (\<open>SandboxApi.suspects\<close>, \<open>probed\<close>).
\<close>

record 'h world =
  w_sandboxes :: "sandbox tbl"
  w_snapshots :: "snapshot tbl"
  w_snapshot_seq :: int
  w_labels :: "label_row tbl"
  w_usage_labels :: "label_row tbl"
  w_workspaces :: "workspace tbl"
  w_members :: "member_row tbl"
  w_users :: "user tbl"
  w_keys :: "api_key tbl"
  w_quotas :: "(string \<times> limits) tbl"
  w_label_quotas :: "label_quota tbl"
  w_servers :: "server tbl"
  w_profiles :: "profile tbl"
  w_profile_versions :: "profile_version tbl"
  w_secrets :: "vault_secret tbl"
  w_grants :: "vault_grant tbl"
  w_permissions :: "sandbox_permission tbl"
  w_images :: "sandbox_image tbl"
  w_versions :: "image_version tbl"
  w_pool :: "pool_sandbox tbl"
  w_pool_seq :: int
  w_pool_settings :: "pool_setting tbl"
  w_pool_claimed :: "(string, int) dict"
  w_pool_booting :: "string list"
  w_audit :: "audit_row list"
  w_sandbox_secrets :: "sandbox_secret tbl"
  w_secret_keys :: "secret_key tbl"
  w_policies :: "network_policy tbl"
  w_rules :: "network_rule tbl"
  w_apps :: "app tbl"
  w_app_permissions :: "app_permission tbl"
  w_invitations :: "invitation tbl"
  w_links :: "viewer_link tbl"
  w_executions :: "tool_execution tbl"
  w_data_keys :: "(string, string) dict"
  w_booted :: "(string, string list) dict"
  w_attached :: "(string, string list) dict"
  w_suspects :: "(string, time) dict"
  w_probed :: "(string, time) dict"
  w_host :: 'h

type_synonym 'h zoo = "'h world sys"

text \<open>Reading and changing a table of the whole state.\<close>

abbreviation sbs :: "'h zoo \<Rightarrow> sandbox tbl" where
  "sbs z \<equiv> w_sandboxes (q_world z)"

abbreviation on_world :: "('h world \<Rightarrow> 'h world) \<Rightarrow> 'h zoo \<Rightarrow> 'h zoo" where
  "on_world f z \<equiv> z\<lparr>q_world := f (q_world z)\<rparr>"

definition on_sandboxes :: "(sandbox tbl \<Rightarrow> sandbox tbl) \<Rightarrow> 'h zoo \<Rightarrow> 'h zoo" where
  "on_sandboxes f z = on_world (\<lambda>w. w\<lparr>w_sandboxes := f (w_sandboxes w)\<rparr>) z"

definition on_snapshots :: "(snapshot tbl \<Rightarrow> snapshot tbl) \<Rightarrow> 'h zoo \<Rightarrow> 'h zoo" where
  "on_snapshots f z = on_world (\<lambda>w. w\<lparr>w_snapshots := f (w_snapshots w)\<rparr>) z"

definition on_jobs :: "(job tbl \<Rightarrow> job tbl) \<Rightarrow> 'h zoo \<Rightarrow> 'h zoo" where
  "on_jobs f z = z\<lparr>q_jobs := f (q_jobs z)\<rparr>"

definition set_host :: "'h \<Rightarrow> 'h zoo \<Rightarrow> 'h zoo" where
  "set_host h z = on_world (\<lambda>w. w\<lparr>w_host := h\<rparr>) z"

lemma on_sandboxes_simps [simp]:
  "w_sandboxes (q_world (on_sandboxes f z)) = f (w_sandboxes (q_world z))"
  "q_jobs (on_sandboxes f z) = q_jobs z" "q_seq (on_sandboxes f z) = q_seq z" "q_live (on_sandboxes f z) = q_live z"
  "w_snapshots (q_world (on_sandboxes f z)) = w_snapshots (q_world z)"
  "w_labels (q_world (on_sandboxes f z)) = w_labels (q_world z)"
  "w_quotas (q_world (on_sandboxes f z)) = w_quotas (q_world z)"
  "w_label_quotas (q_world (on_sandboxes f z)) = w_label_quotas (q_world z)"
  "w_profiles (q_world (on_sandboxes f z)) = w_profiles (q_world z)"
  "w_profile_versions (q_world (on_sandboxes f z)) = w_profile_versions (q_world z)"
  "w_host (q_world (on_sandboxes f z)) = w_host (q_world z)"
  by (simp_all add: on_sandboxes_def)

lemma on_snapshots_simps [simp]:
  "w_snapshots (q_world (on_snapshots f z)) = f (w_snapshots (q_world z))"
  "w_sandboxes (q_world (on_snapshots f z)) = w_sandboxes (q_world z)"
  "q_jobs (on_snapshots f z) = q_jobs z" "q_seq (on_snapshots f z) = q_seq z" "q_live (on_snapshots f z) = q_live z"
  by (simp_all add: on_snapshots_def)

lemma on_jobs_simps [simp]:
  "q_jobs (on_jobs f z) = f (q_jobs z)" "q_world (on_jobs f z) = q_world z"
  "q_seq (on_jobs f z) = q_seq z" "q_live (on_jobs f z) = q_live z"
  by (simp_all add: on_jobs_def)

lemma set_host_simps [simp]:
  "w_host (q_world (set_host h z)) = h" "w_sandboxes (q_world (set_host h z)) = w_sandboxes (q_world z)"
  "w_snapshots (q_world (set_host h z)) = w_snapshots (q_world z)"
  "q_jobs (set_host h z) = q_jobs z" "q_seq (set_host h z) = q_seq z" "q_live (set_host h z) = q_live z"
  by (simp_all add: set_host_def)

end
