(* ===== verification/Quotas.thy ===== *)
theory Quotas
  imports World
begin

section \<open>Sizes and quotas\<close>

text \<open>
  \<open>apps/server/sizes.py\<close> and \<open>apps/server/quotas.py\<close>: what a sandbox may use, what a workspace and
  each label of a sandbox may use together, and the check that a create or a start makes in its
  transaction. \<open>unsized\<close> is the configured \<open>UNSIZED_DISK_GB\<close>, what a sandbox without a disk size counts
  as. \<open>lock_workspace\<close> changes nothing: it makes the transactions of one workspace take turns, as
  the operations of the model do. Amounts are rationals, added and compared exactly.
\<close>

record sizing =
  z_cpus :: rat
  z_memory_mb :: int
  z_disk_gb :: "int option"

definition DEFAULT_SIZE :: sizing where
  "DEFAULT_SIZE = \<lparr>z_cpus = 2, z_memory_mb = 2048, z_disk_gb = None\<rparr>"

definition size_of :: "sandbox \<Rightarrow> sizing" where
  "size_of s = \<lparr>z_cpus = s_cpus s, z_memory_mb = s_memory_mb s, z_disk_gb = s_disk_gb s\<rparr>"

definition memory_bytes :: "sizing \<Rightarrow> int" where
  "memory_bytes z = z_memory_mb z * 2 ^ 20"

subsection \<open>Formatting numbers\<close>

text \<open>
  The format \<open>:g\<close> of a number that is not negative: six significant digits without trailing
  zeros, in exponent form below \<open>1e-4\<close> and from \<open>1e6\<close> on. \<open>round_rat\<close> rounds halves to even.
\<close>

definition round_rat :: "rat \<Rightarrow> int" where
  "round_rat x = (let f = \<lfloor>x\<rfloor>; r = x - of_int f
     in if r < 1 / 2 then f else if r > 1 / 2 then f + 1 else if even f then f else f + 1)"

fun small_exponent :: "nat \<Rightarrow> rat \<Rightarrow> int" where
  "small_exponent 0 x = 0"
| "small_exponent (Suc n) x = (if x \<ge> 1 then 0 else small_exponent n (10 * x) - 1)"

definition exponent10 :: "rat \<Rightarrow> int" where
  "exponent10 x = (if x \<ge> 1 then int (length (digits (nat \<lfloor>x\<rfloor>))) - 1 else small_exponent 330 x)"

definition strip_zeros :: "string \<Rightarrow> string" where
  "strip_zeros s = rev (dropWhile (\<lambda>c. c = CHR ''0'') (rev s))"

definition pad_zeros :: "nat \<Rightarrow> string \<Rightarrow> string" where
  "pad_zeros n s = replicate (n - length s) (CHR ''0'') @ s"

definition with_fraction :: "string \<Rightarrow> string \<Rightarrow> string" where
  "with_fraction whole part = (let f = strip_zeros part in if f = [] then whole else whole @ ''.'' @ f)"

definition fmt_g :: "rat \<Rightarrow> string" where
  "fmt_g x =
     (if x = 0 then ''0''
      else let e0 = exponent10 x; m0 = round_rat (x * 10 powi (5 - e0));
               (m, e) = (if m0 \<ge> 1000000 then (m0 div 10, e0 + 1) else (m0, e0))
           in if e < - 4 \<or> e \<ge> 6
              then with_fraction (digits (nat (m div 100000))) (pad_zeros 5 (digits (nat (m mod 100000)))) @
                   ''e'' @ (if e < 0 then ''-'' else ''+'') @ pad_zeros 2 (digits (nat \<bar>e\<bar>))
              else let d = nat (5 - e)
                   in with_fraction (digits (nat (m div 10 ^ d))) (pad_zeros d (digits (nat (m mod 10 ^ d)))))"

subsection \<open>Usage\<close>

record usage =
  u_running :: int
  u_cpus :: rat
  u_memory_mb :: int
  u_disk_gb :: int
  u_profile_bytes :: int
  u_snapshot_bytes :: int

definition counts_running :: "status \<Rightarrow> bool" where
  "counts_running st \<longleftrightarrow> st \<in> {Pending, Provisioning, Up}"

definition disk_of :: "int \<Rightarrow> sandbox \<Rightarrow> int" where
  "disk_of unsized s = (case s_disk_gb s of None \<Rightarrow> unsized | Some d \<Rightarrow> d)"

definition usage_sums :: "int \<Rightarrow> sandbox list \<Rightarrow> int \<times> rat \<times> int \<times> int" where
  "usage_sums unsized rows =
     (let on = filter (\<lambda>s. counts_running (s_status s)) rows
      in (int (length on), sum_list (map s_cpus on), sum_list (map s_memory_mb on),
          sum_list (map (disk_of unsized) rows)))"

definition workspace_usage :: "int \<Rightarrow> 'h world \<Rightarrow> string \<Rightarrow> usage" where
  "workspace_usage unsized w ws =
     (let rows = filter (\<lambda>s. s_workspace_id s = ws \<and> s_status s \<noteq> Deleted) (w_sandboxes w)
      in case usage_sums unsized rows of (running, cpus, memory, disk) \<Rightarrow>
        \<lparr>u_running = running, u_cpus = cpus, u_memory_mb = memory, u_disk_gb = disk,
         u_profile_bytes = sum_list (map pv_size_bytes (filter (\<lambda>v. \<exists>p \<in> set (w_profiles w).
           pf_id p = pv_profile_id v \<and> pf_workspace_id p = ws) (w_profile_versions w))),
         u_snapshot_bytes = sum_list (map n_size_bytes (filter (\<lambda>n. \<exists>s \<in> set (w_sandboxes w).
           s_id s = n_sandbox_id n \<and> s_workspace_id s = ws) (w_snapshots w)))\<rparr>)"

definition has_label :: "'h world \<Rightarrow> string \<Rightarrow> string \<Rightarrow> string \<Rightarrow> bool" where
  "has_label w sandbox_id key value \<longleftrightarrow>
     (\<exists>l \<in> set (w_labels w). l_sandbox_id l = sandbox_id \<and> l_key l = key \<and> l_value l = value)"

definition label_usage :: "int \<Rightarrow> 'h world \<Rightarrow> string \<Rightarrow> string \<Rightarrow> string \<Rightarrow> usage" where
  "label_usage unsized w key value ws =
     (let rows = filter (\<lambda>s. s_workspace_id s = ws \<and> s_status s \<notin> {Deleting, Deleted} \<and>
                             has_label w (s_id s) key value) (w_sandboxes w)
      in case usage_sums unsized rows of (running, cpus, memory, disk) \<Rightarrow>
        \<lparr>u_running = running, u_cpus = cpus, u_memory_mb = memory, u_disk_gb = disk, u_profile_bytes = 0,
         u_snapshot_bytes = sum_list (map n_size_bytes (filter (\<lambda>n. \<exists>s \<in> set (w_sandboxes w).
           s_id s = n_sandbox_id n \<and> s_workspace_id s = ws \<and> has_label w (s_id s) key value)
           (w_snapshots w)))\<rparr>)"

definition GB :: rat where "GB = 2 ^ 30"

definition storage_gb :: "usage \<Rightarrow> rat" where
  "storage_gb u = of_int (u_disk_gb u) + of_int (u_profile_bytes u + u_snapshot_bytes u) / GB"

subsection \<open>The check\<close>

definition get_workspace_quota :: "'h world \<Rightarrow> string \<Rightarrow> limits option" where
  "get_workspace_quota w ws = map_option snd (find_row (\<lambda>q. fst q = ws) (w_quotas w))"

definition ensure_workspace_quota :: "string \<Rightarrow> limits \<Rightarrow> 'h world \<Rightarrow> 'h world" where
  "ensure_workspace_quota ws l w =
     (if find_row (\<lambda>q. fst q = ws) (w_quotas w) = None then w\<lparr>w_quotas := w_quotas w @ [(ws, l)]\<rparr> else w)"

text \<open>The value's own quota, or else the one for any value of the key.\<close>

definition get_label_quota :: "'h world \<Rightarrow> string \<Rightarrow> string \<Rightarrow> string \<Rightarrow> limits option" where
  "get_label_quota w ws key value =
     (case sort_key (\<lambda>q. lq_value q = ''*'')
             (filter (\<lambda>q. lq_workspace_id q = ws \<and> lq_key q = key \<and> lq_value q \<in> {value, ''*''}) (w_label_quotas w)) of
        [] \<Rightarrow> None | q # _ \<Rightarrow> Some (lq_limits q))"

fun first_over :: "string \<Rightarrow> (string \<times> rat option \<times> rat \<times> rat) list \<Rightarrow> unit res" where
  "first_over whose [] = Inr ()"
| "first_over whose ((name, limit, wanted, now) # rest) =
     (case limit of
        None \<Rightarrow> first_over whose rest
      | Some l \<Rightarrow>
          if wanted > l
          then Inl (HTTPException 409 (whose @ '' quota is '' @ fmt_g l @ '' '' @ name @ ''; it uses '' @ fmt_g now @ '' already''))
          else first_over whose rest)"

definition compare :: "string \<Rightarrow> limits \<Rightarrow> int \<Rightarrow> rat \<Rightarrow> int \<Rightarrow> rat \<Rightarrow> sizing \<Rightarrow> int \<Rightarrow> unit res" where
  "compare whose quota running cpus memory_mb storage z disk =
     first_over whose
       [(''running sandboxes'', map_option of_int (max_running_sandboxes quota), of_int (running + 1), of_int running),
        (''CPUs'', max_cpus quota, cpus + z_cpus z, cpus),
        (''memory (MB)'', map_option of_int (max_memory_mb quota), of_int (memory_mb + z_memory_mb z), of_int memory_mb),
        (''storage (GB)'', map_option of_int (max_storage_gb quota), storage + of_int disk, of_int (round_rat (storage * 10)) / 10)]"

fun check_labels :: "int \<Rightarrow> 'h world \<Rightarrow> string \<Rightarrow> sizing \<Rightarrow> int \<Rightarrow> labels \<Rightarrow> unit res" where
  "check_labels unsized w ws z disk [] = Inr ()"
| "check_labels unsized w ws z disk ((key, value) # rest) =
     (case get_label_quota w ws key value of
        None \<Rightarrow> check_labels unsized w ws z disk rest
      | Some quota \<Rightarrow>
          let row = label_usage unsized w key value ws;
              storage = of_int (u_disk_gb row) + of_int (u_snapshot_bytes row) / GB
          in bindr (compare (key @ ''='' @ value @ [char_of (39 :: nat)] @ ''s'') quota (u_running row) (u_cpus row) (u_memory_mb row) storage z disk)
               (\<lambda>_. check_labels unsized w ws z disk rest))"

text \<open>A disk size of 0 counts as none (\<open>size.disk_gb or UNSIZED_DISK_GB\<close>).\<close>

definition disk_wanted :: "int \<Rightarrow> sizing \<Rightarrow> bool \<Rightarrow> int" where
  "disk_wanted unsized z new =
     (if new then case z_disk_gb z of None \<Rightarrow> unsized | Some d \<Rightarrow> if d = 0 then unsized else d else 0)"

definition check_quota :: "int \<Rightarrow> 'h world \<Rightarrow> string \<Rightarrow> sizing \<Rightarrow> bool \<Rightarrow> labels \<Rightarrow> unit res" where
  "check_quota unsized w ws z new ls =
     (let disk = disk_wanted unsized z new
      in bindr (case get_workspace_quota w ws of
                  None \<Rightarrow> Inr ()
                | Some quota \<Rightarrow>
                    let used = workspace_usage unsized w ws
                    in compare (''the workspace'' @ [char_of (39 :: nat)] @ ''s'') quota (u_running used) (u_cpus used) (u_memory_mb used)
                         (storage_gb used) z disk)
           (\<lambda>_. check_labels unsized w ws z disk ls))"

subsection \<open>Staying within a quota\<close>

definition at_most :: "rat \<Rightarrow> rat option \<Rightarrow> bool" where
  "at_most x limit = (case limit of None \<Rightarrow> True | Some l \<Rightarrow> x \<le> l)"

definition fits :: "limits \<Rightarrow> usage \<Rightarrow> rat \<Rightarrow> bool" where
  "fits q u storage \<longleftrightarrow>
     at_most (of_int (u_running u)) (map_option of_int (max_running_sandboxes q)) \<and>
     at_most (u_cpus u) (max_cpus q) \<and>
     at_most (of_int (u_memory_mb u)) (map_option of_int (max_memory_mb q)) \<and>
     at_most storage (map_option of_int (max_storage_gb q))"

text \<open>The workspace uses no more than its quota; the sandboxes with a label no more than the label's.\<close>

definition workspace_within :: "int \<Rightarrow> 'h world \<Rightarrow> string \<Rightarrow> bool" where
  "workspace_within unsized w ws = (case get_workspace_quota w ws of
     None \<Rightarrow> True
   | Some q \<Rightarrow> fits q (workspace_usage unsized w ws) (storage_gb (workspace_usage unsized w ws)))"

definition label_within :: "int \<Rightarrow> 'h world \<Rightarrow> string \<Rightarrow> string \<times> string \<Rightarrow> bool" where
  "label_within unsized w ws kv = (case get_label_quota w ws (fst kv) (snd kv) of
     None \<Rightarrow> True
   | Some q \<Rightarrow> fits q (label_usage unsized w (fst kv) (snd kv) ws)
                (storage_gb (label_usage unsized w (fst kv) (snd kv) ws)))"

lemma at_most_mono: "x \<le> y \<Longrightarrow> at_most y l \<Longrightarrow> at_most x l"
  by (auto simp: at_most_def split: option.splits)

lemma first_over_ok: "first_over whose cs = Inr u \<longleftrightarrow> (\<forall>(n, l, wanted, now) \<in> set cs. at_most wanted l)"
  by (induction whose cs rule: first_over.induct) (auto simp: at_most_def split: option.splits)

lemma compare_ok:
  "compare whose q running cpus mem storage z disk = Inr x \<longleftrightarrow>
   fits q \<lparr>u_running = running + 1, u_cpus = cpus + z_cpus z, u_memory_mb = mem + z_memory_mb z,
             u_disk_gb = d, u_profile_bytes = pb, u_snapshot_bytes = sb\<rparr> (storage + of_int disk)"
  by (simp add: compare_def first_over_ok fits_def del: first_over.simps)

text \<open>
  What turning a sandbox on adds: one to what runs, its CPUs and its memory. \<open>plus\<close> is the usage
  with the sandbox turned on and \<open>disk\<close> more gigabytes.
\<close>

definition plus :: "usage \<Rightarrow> sizing \<Rightarrow> int \<Rightarrow> usage" where
  "plus u z disk = u\<lparr>u_running := u_running u + 1, u_cpus := u_cpus u + z_cpus z,
     u_memory_mb := u_memory_mb u + z_memory_mb z, u_disk_gb := u_disk_gb u + disk\<rparr>"

lemma fits_plus:
  assumes "compare whose q (u_running u) (u_cpus u) (u_memory_mb u) (storage_gb u) z disk = Inr x"
    and "disk' \<le> disk"
  shows "fits q (plus u z disk') (storage_gb (plus u z disk'))"
proof -
  have "storage_gb (plus u z disk') \<le> storage_gb u + of_int disk"
    using assms(2) by (simp add: storage_gb_def plus_def)
  with assms(1) show ?thesis
    by (auto simp: compare_def first_over_ok fits_def plus_def simp del: first_over.simps intro: at_most_mono)
qed

lemma set_row_split:
  assumes "distinct (map s_id t)" and "s \<in> set t"
  shows "\<exists>a b. t = a @ s # b \<and> (\<forall>f. set_row (s_id s) f t = a @ f s # b)"
proof -
  obtain a b where t: "t = a @ s # b" using assms(2) by (meson split_list)
  with assms(1) have "\<forall>r \<in> set a \<union> set b. s_id r \<noteq> s_id s" by (auto simp: image_iff)
  then have "update_where (\<lambda>r. s_id r = s_id s) f a = a" "update_where (\<lambda>r. s_id r = s_id s) f b = b" for f
    by (auto intro!: update_where_none)
  with t show ?thesis by (auto simp: set_row_def)
qed

lemma usage_sums_turn_on:
  assumes "\<not> counts_running (s_status s)" and "counts_running (s_status s')"
    and "s_cpus s' = s_cpus s" "s_memory_mb s' = s_memory_mb s" "s_disk_gb s' = s_disk_gb s"
    and "p s" and "p s'"
    and "usage_sums unsized (filter p (a @ s # b)) = (r, c, m, d)"
  shows "usage_sums unsized (filter p (a @ s' # b)) = (r + 1, c + s_cpus s, m + s_memory_mb s, d)"
  using assms by (auto simp: usage_sums_def Let_def disk_of_def)

lemma usage_sums_skip:
  "\<not> p s \<Longrightarrow> \<not> p s' \<Longrightarrow> usage_sums unsized (filter p (a @ s' # b)) = usage_sums unsized (filter p (a @ s # b))"
  by simp

text \<open>
  Turning on a sandbox that is there (\<open>f\<close> changes its row), and adding one (\<open>s\<close> is the new row).
\<close>

definition turns_on :: "(sandbox \<Rightarrow> sandbox) \<Rightarrow> bool" where
  "turns_on f \<longleftrightarrow> (\<forall>s. s_id (f s) = s_id s \<and> s_workspace_id (f s) = s_workspace_id s \<and> s_cpus (f s) = s_cpus s \<and>
     s_memory_mb (f s) = s_memory_mb s \<and> s_disk_gb (f s) = s_disk_gb s \<and> s_status (f s) = Provisioning)"

lemma workspace_usage_turn_on:
  assumes "distinct (map s_id (w_sandboxes w))" and "s \<in> set (w_sandboxes w)"
    and "\<not> counts_running (s_status s)" and "s_status s \<noteq> Deleted" and f: "turns_on f"
  shows "workspace_usage unsized (w\<lparr>w_sandboxes := set_row (s_id s) f (w_sandboxes w)\<rparr>) (s_workspace_id s) =
    plus (workspace_usage unsized w (s_workspace_id s)) (size_of s) 0"
proof -
  let ?p = "\<lambda>r. s_workspace_id r = s_workspace_id s \<and> s_status r \<noteq> Deleted"
  obtain a b where t: "w_sandboxes w = a @ s # b" "set_row (s_id s) f (w_sandboxes w) = a @ f s # b"
    using set_row_split [OF assms(1,2)] by metis
  obtain r c m d where u: "usage_sums unsized (filter ?p (a @ s # b)) = (r, c, m, d)"
    by (cases "usage_sums unsized (filter ?p (a @ s # b))")
  have "usage_sums unsized (filter ?p (a @ f s # b)) = (r + 1, c + s_cpus s, m + s_memory_mb s, d)"
    using f assms(3,4) by (intro usage_sums_turn_on [OF _ _ _ _ _ _ _ u]) (auto simp: turns_on_def counts_running_def)
  moreover have "s_id (f s) = s_id s" "s_workspace_id (f s) = s_workspace_id s"
    using f by (auto simp: turns_on_def)
  ultimately show ?thesis
    using u t(2) [unfolded t(1)]
    by (simp add: workspace_usage_def plus_def size_of_def t(1) del: filter_append filter.simps)
qed

lemma label_usage_turn_on:
  assumes "distinct (map s_id (w_sandboxes w))" and "s \<in> set (w_sandboxes w)"
    and "\<not> counts_running (s_status s)" and "s_status s \<notin> {Deleting, Deleted}" and f: "turns_on f"
    and "has_label w (s_id s) key value"
  shows "label_usage unsized (w\<lparr>w_sandboxes := set_row (s_id s) f (w_sandboxes w)\<rparr>) key value (s_workspace_id s) =
    plus (label_usage unsized w key value (s_workspace_id s)) (size_of s) 0"
proof -
  let ?p = "\<lambda>r. s_workspace_id r = s_workspace_id s \<and> s_status r \<notin> {Deleting, Deleted} \<and> has_label w (s_id r) key value"
  obtain a b where t: "w_sandboxes w = a @ s # b" "set_row (s_id s) f (w_sandboxes w) = a @ f s # b"
    using set_row_split [OF assms(1,2)] by metis
  obtain r c m d where u: "usage_sums unsized (filter ?p (a @ s # b)) = (r, c, m, d)"
    by (cases "usage_sums unsized (filter ?p (a @ s # b))")
  have "usage_sums unsized (filter ?p (a @ f s # b)) = (r + 1, c + s_cpus s, m + s_memory_mb s, d)"
    using f assms(3,4,6) by (intro usage_sums_turn_on [OF _ _ _ _ _ _ _ u]) (auto simp: turns_on_def counts_running_def)
  moreover have "s_id (f s) = s_id s" "s_workspace_id (f s) = s_workspace_id s"
    using f by (auto simp: turns_on_def)
  moreover have "has_label (w\<lparr>w_sandboxes := X\<rparr>) = has_label w" for X
    by (simp add: has_label_def fun_eq_iff)
  ultimately show ?thesis
    using u t(2) [unfolded t(1)]
    by (simp add: label_usage_def plus_def size_of_def t(1) del: filter_append filter.simps)
qed

lemma check_labels_ok:
  "check_labels unsized w ws z disk ls = Inr u \<longleftrightarrow>
   (\<forall>(key, value) \<in> set ls. \<forall>q. get_label_quota w ws key value = Some q \<longrightarrow>
      (let row = label_usage unsized w key value ws
       in compare (key @ ''='' @ value @ [char_of (39 :: nat)] @ ''s'') q (u_running row) (u_cpus row) (u_memory_mb row) (storage_gb row) z disk = Inr ()))"
proof (induction ls)
  case (Cons kv ls)
  obtain key "value" where kv: "kv = (key, value)" by (cases kv)
  have storage: "of_int (u_disk_gb (label_usage unsized w key value ws)) +
      of_int (u_snapshot_bytes (label_usage unsized w key value ws)) / GB =
      storage_gb (label_usage unsized w key value ws)"
    by (simp add: storage_gb_def label_usage_def Let_def split: prod.split)
  show ?case
    unfolding kv check_labels.simps Let_def storage
    using Cons.IH by (cases "get_label_quota w ws key value") (auto simp: Let_def)
qed simp

lemma check_quota_ok:
  "check_quota unsized w ws z new ls = Inr u \<longleftrightarrow>
   (\<forall>q. get_workspace_quota w ws = Some q \<longrightarrow>
      (let row = workspace_usage unsized w ws
       in compare (''the workspace'' @ [char_of (39 :: nat)] @ ''s'') q (u_running row) (u_cpus row) (u_memory_mb row)
            (storage_gb row) z (disk_wanted unsized z new) = Inr ())) \<and>
   check_labels unsized w ws z (disk_wanted unsized z new) ls = Inr u"
  by (auto simp: check_quota_def Let_def split: option.splits)

text \<open>A start that passed the check leaves the workspace, and every label of the sandbox, within its quota.\<close>

lemma start_fits:
  assumes "distinct (map s_id (w_sandboxes w))" and "s \<in> set (w_sandboxes w)"
    and "\<not> counts_running (s_status s)" and "s_status s \<notin> {Deleting, Deleted}" and "turns_on f"
    and ok: "check_quota unsized w (s_workspace_id s) (size_of s) False ls = Inr u"
    and ls: "\<And>key val. (key, val) \<in> set ls \<Longrightarrow> has_label w (s_id s) key val"
  shows "workspace_within unsized (w\<lparr>w_sandboxes := set_row (s_id s) f (w_sandboxes w)\<rparr>) (s_workspace_id s)"
    and "\<And>kv. kv \<in> set ls \<Longrightarrow> label_within unsized (w\<lparr>w_sandboxes := set_row (s_id s) f (w_sandboxes w)\<rparr>) (s_workspace_id s) kv"
proof -
  let ?w = "w\<lparr>w_sandboxes := set_row (s_id s) f (w_sandboxes w)\<rparr>"
  have d: "disk_wanted unsized (size_of s) False = 0" by (simp add: disk_wanted_def)
  have "get_workspace_quota ?w = get_workspace_quota w" by (simp add: get_workspace_quota_def fun_eq_iff)
  with ok show "workspace_within unsized ?w (s_workspace_id s)"
    using workspace_usage_turn_on [OF assms(1-3) _ assms(5)] assms(4)
    by (auto simp: workspace_within_def check_quota_ok Let_def d intro!: fits_plus split: option.splits)
  show "label_within unsized ?w (s_workspace_id s) kv" if kv: "kv \<in> set ls" for kv
  proof -
    obtain key "value" where e: "kv = (key, value)" by (cases kv)
    have "get_label_quota ?w = get_label_quota w" by (simp add: get_label_quota_def fun_eq_iff)
    moreover have "label_usage unsized ?w key value (s_workspace_id s) =
        plus (label_usage unsized w key value (s_workspace_id s)) (size_of s) 0"
      using kv e ls by (intro label_usage_turn_on [OF assms(1-5)]) auto
    ultimately show ?thesis
      using ok kv e
      by (fastforce simp: label_within_def check_quota_ok check_labels_ok Let_def d intro!: fits_plus split: option.splits)
  qed
qed

text \<open>
  A create that passed the check: \<open>w'\<close> is \<open>w\<close> with the new sandbox and its labels, and nothing else of
  what usage counts.
\<close>

definition adds_sandbox :: "'h world \<Rightarrow> sandbox \<Rightarrow> labels \<Rightarrow> 'h world \<Rightarrow> bool" where
  "adds_sandbox w s ls w' \<longleftrightarrow>
     s_id s \<notin> s_id ` set (w_sandboxes w) \<and> s_id s \<notin> n_sandbox_id ` set (w_snapshots w) \<and>
     s_status s = Provisioning \<and> w_sandboxes w' = w_sandboxes w @ [s] \<and>
     w_snapshots w' = w_snapshots w \<and> w_quotas w' = w_quotas w \<and> w_label_quotas w' = w_label_quotas w \<and>
     w_profiles w' = w_profiles w \<and> w_profile_versions w' = w_profile_versions w \<and>
     (\<forall>i k v. i \<noteq> s_id s \<longrightarrow> has_label w' i k v = has_label w i k v) \<and>
     (\<forall>(k, v) \<in> set ls. has_label w' (s_id s) k v)"

lemma usage_sums_snoc:
  assumes "counts_running (s_status s)"
  shows "usage_sums unsized (rows @ [s]) = (case usage_sums unsized rows of (r, c, m, d) \<Rightarrow>
    (r + 1, c + s_cpus s, m + s_memory_mb s, d + disk_of unsized s))"
  using assms by (simp add: usage_sums_def Let_def)

lemma workspace_usage_add:
  assumes "adds_sandbox w s ls w'"
  shows "workspace_usage unsized w' (s_workspace_id s) =
    plus (workspace_usage unsized w (s_workspace_id s)) (size_of s) (disk_of unsized s)"
proof -
  let ?p = "\<lambda>r. s_workspace_id r = s_workspace_id s \<and> s_status r \<noteq> Deleted"
  have "filter (\<lambda>n. \<exists>x \<in> set (w_sandboxes w @ [s]). s_id x = n_sandbox_id n \<and> s_workspace_id x = s_workspace_id s) (w_snapshots w) =
      filter (\<lambda>n. \<exists>x \<in> set (w_sandboxes w). s_id x = n_sandbox_id n \<and> s_workspace_id x = s_workspace_id s) (w_snapshots w)"
    using assms by (intro filter_cong) (auto simp: adds_sandbox_def)
  moreover have "usage_sums unsized (filter ?p (w_sandboxes w @ [s])) =
      (case usage_sums unsized (filter ?p (w_sandboxes w)) of (r, c, m, d) \<Rightarrow>
        (r + 1, c + s_cpus s, m + s_memory_mb s, d + disk_of unsized s))"
    using assms usage_sums_snoc by (simp add: adds_sandbox_def counts_running_def)
  ultimately show ?thesis
    using assms
    by (simp add: workspace_usage_def plus_def size_of_def adds_sandbox_def split: prod.split
        del: filter_append filter.simps set_append)
qed

lemma label_usage_add:
  assumes "adds_sandbox w s ls w'" and "(key, val) \<in> set ls"
  shows "label_usage unsized w' key val (s_workspace_id s) =
    plus (label_usage unsized w key val (s_workspace_id s)) (size_of s) (disk_of unsized s)"
proof -
  let ?p = "\<lambda>w r. s_workspace_id r = s_workspace_id s \<and> s_status r \<notin> {Deleting, Deleted} \<and> has_label w (s_id r) key val"
  have old: "has_label w' (s_id x) key val = has_label w (s_id x) key val" if "x \<in> set (w_sandboxes w)" for x
  proof -
    have "s_id x \<noteq> s_id s" using assms(1) that by (metis adds_sandbox_def imageI)
    with assms(1) show ?thesis by (simp add: adds_sandbox_def)
  qed
  have "filter (\<lambda>n. \<exists>x \<in> set (w_sandboxes w @ [s]). s_id x = n_sandbox_id n \<and> s_workspace_id x = s_workspace_id s \<and>
        has_label w' (s_id x) key val) (w_snapshots w) =
      filter (\<lambda>n. \<exists>x \<in> set (w_sandboxes w). s_id x = n_sandbox_id n \<and> s_workspace_id x = s_workspace_id s \<and>
        has_label w (s_id x) key val) (w_snapshots w)"
    using assms(1) old by (intro filter_cong) (auto simp: adds_sandbox_def)
  moreover have "filter (?p w') (w_sandboxes w) = filter (?p w) (w_sandboxes w)"
    using old by (intro filter_cong) auto
  then have "filter (?p w') (w_sandboxes w @ [s]) = filter (?p w) (w_sandboxes w) @ [s]"
    using assms by (auto simp: adds_sandbox_def)
  then have "usage_sums unsized (filter (?p w') (w_sandboxes w @ [s])) =
      (case usage_sums unsized (filter (?p w) (w_sandboxes w)) of (r, c, m, d) \<Rightarrow>
        (r + 1, c + s_cpus s, m + s_memory_mb s, d + disk_of unsized s))"
    using assms usage_sums_snoc by (simp add: adds_sandbox_def counts_running_def)
  ultimately show ?thesis
    using assms
    by (simp add: label_usage_def plus_def size_of_def adds_sandbox_def split: prod.split
        del: filter_append filter.simps set_append)
qed

lemma create_fits:
  assumes add: "adds_sandbox w s ls w'" and "0 \<le> unsized"
    and ok: "check_quota unsized w (s_workspace_id s) (size_of s) True ls = Inr u"
  shows "workspace_within unsized w' (s_workspace_id s)"
    and "\<And>kv. kv \<in> set ls \<Longrightarrow> label_within unsized w' (s_workspace_id s) kv"
proof -
  have d: "disk_of unsized s \<le> disk_wanted unsized (size_of s) True"
    using assms(2) by (auto simp: disk_of_def disk_wanted_def size_of_def split: option.split)
  have "get_workspace_quota w' = get_workspace_quota w"
    using add by (simp add: get_workspace_quota_def fun_eq_iff adds_sandbox_def)
  with ok d show "workspace_within unsized w' (s_workspace_id s)"
    using workspace_usage_add [OF add]
    by (auto simp: workspace_within_def check_quota_ok Let_def intro!: fits_plus split: option.splits)
  show "label_within unsized w' (s_workspace_id s) kv" if kv: "kv \<in> set ls" for kv
  proof -
    obtain key val where e: "kv = (key, val)" by (cases kv)
    have "get_label_quota w' = get_label_quota w"
      using add by (simp add: get_label_quota_def fun_eq_iff adds_sandbox_def)
    then show ?thesis
      using ok kv e d label_usage_add [OF add, of key val]
      by (fastforce simp: label_within_def check_quota_ok check_labels_ok Let_def intro!: fits_plus split: option.splits)
  qed
qed

end
