(* ===== verification/RateLimits.thy ===== *)
theory RateLimits
  imports Prelude
begin

section \<open>Rate limits\<close>

text \<open>
  \<open>apps/server/limits.py\<close>: the class \<open>Limit\<close>, a sliding window over the times of the hits of each
  key. \<open>check\<close> takes the monotonic clock as \<open>now\<close>, in microseconds. A refusal carries the
  \<open>Retry-After\<close> header, so its error is the exception with that header's value.
\<close>

record limit =
  lm_count :: int
  lm_window :: int
  lm_hits :: "(string, time list) dict"

definition new_limit :: "int \<Rightarrow> int \<Rightarrow> limit" where
  "new_limit count window = \<lparr>lm_count = count, lm_window = window, lm_hits = []\<rparr>"

definition LOGIN_PER_IP :: limit where "LOGIN_PER_IP = new_limit 20 60"
definition LOGIN_PER_EMAIL :: limit where "LOGIN_PER_EMAIL = new_limit 10 60"
definition SIGNUP_PER_IP :: limit where "SIGNUP_PER_IP = new_limit 10 (60 * 60)"
definition API_KEY :: limit where "API_KEY = new_limit 600 60"

definition MAX_KEYS :: nat where "MAX_KEYS = 10000"

text \<open>The hits of \<open>key\<close> once those outside the window are popped.\<close>

definition recent_hits :: "time \<Rightarrow> string \<Rightarrow> limit \<Rightarrow> time list" where
  "recent_hits now key l =
     dropWhile (\<lambda>t. t \<le> now - seconds (lm_window l)) (case dict_get (lm_hits l) key of None \<Rightarrow> [] | Some h \<Rightarrow> h)"

definition too_many :: exc where
  "too_many = HTTPException 429 ''too many requests, try again later''"

definition retry_after :: "time \<Rightarrow> time \<Rightarrow> limit \<Rightarrow> int" where
  "retry_after now oldest l = (oldest + seconds (lm_window l) - now) div 1000000 + 1"

definition drop_idle :: "time \<Rightarrow> limit \<Rightarrow> limit" where
  "drop_idle now l =
     (if length (lm_hits l) > MAX_KEYS
      then l\<lparr>lm_hits := filter (\<lambda>(k, v). v \<noteq> [] \<and> last v > now - seconds (lm_window l)) (lm_hits l)\<rparr>
      else l)"

definition check :: "time \<Rightarrow> string \<Rightarrow> limit \<Rightarrow> ((exc \<times> string) + unit) \<times> limit" where
  "check now key l =
     (let hits = recent_hits now key l
      in if int (length hits) \<ge> lm_count l
         then case hits of
             [] \<Rightarrow> (Inl (IndexError, []), l\<lparr>lm_hits := dict_set key [] (lm_hits l)\<rparr>)
           | oldest # _ \<Rightarrow> (Inl (too_many, py_str (retry_after now oldest l)), l\<lparr>lm_hits := dict_set key hits (lm_hits l)\<rparr>)
         else (Inr (), drop_idle now (l\<lparr>lm_hits := dict_set key (hits @ [now]) (lm_hits l)\<rparr>)))"

definition reset :: "limit \<Rightarrow> limit" where
  "reset l = l\<lparr>lm_hits := []\<rparr>"

subsection \<open>A run of requests\<close>

text \<open>
  Requests arrive as pairs of time and key, in the order of time; the run gives those it let
  through, oldest first, with the limiter they leave.
\<close>

fun run_checks :: "(time \<times> string) list \<Rightarrow> limit \<Rightarrow> (time \<times> string) list \<times> limit" where
  "run_checks [] l = ([], l)"
| "run_checks ((now, key) # rest) l =
     (case check now key l of (r, l') \<Rightarrow>
        case run_checks rest l' of (passed, l'') \<Rightarrow> (if r = Inr () then (now, key) # passed else passed, l''))"

definition hits_of :: "limit \<Rightarrow> string \<Rightarrow> time list" where
  "hits_of l key = (case dict_get (lm_hits l) key of None \<Rightarrow> [] | Some h \<Rightarrow> h)"

definition times_of :: "string \<Rightarrow> (time \<times> string) list \<Rightarrow> time list" where
  "times_of key xs = map fst (filter (\<lambda>x. snd x = key) xs)"

text \<open>
  What ties a limiter to the requests \<open>past\<close> that passed so far: for each key it holds, in order,
  at least those inside the window, and only ones that passed.
\<close>

definition tracks :: "time \<Rightarrow> (time \<times> string) list \<Rightarrow> limit \<Rightarrow> bool" where
  "tracks now past l \<longleftrightarrow> wf_dict (lm_hits l) \<and> (\<forall>key.
     sorted (hits_of l key) \<and> (\<forall>t \<in> set (times_of key past) \<union> set (hits_of l key). t \<le> now) \<and>
     filter (\<lambda>t. t > now - seconds (lm_window l)) (hits_of l key) =
     filter (\<lambda>t. t > now - seconds (lm_window l)) (times_of key past))"

lemma dropWhile_sorted_eq_filter:
  "sorted xs \<Longrightarrow> dropWhile (\<lambda>t. t \<le> b) xs = filter (\<lambda>t. t > (b :: time)) xs"
proof (induction xs)
  case (Cons x xs)
  show ?case
  proof (cases "x \<le> b")
    case False
    with Cons.prems have "\<forall>t \<in> set (x # xs). t > b" by auto
    with False show ?thesis by (simp add: filter_id_conv)
  qed (use Cons in simp)
qed simp

lemma filter_later:
  assumes "filter (\<lambda>t. t > (a :: time)) xs = filter (\<lambda>t. t > a) ys" and "a \<le> b"
  shows "filter (\<lambda>t. t > b) xs = filter (\<lambda>t. t > b) ys"
proof -
  have "filter (\<lambda>t. t > b) zs = filter (\<lambda>t. t > b) (filter (\<lambda>t. t > a) zs)" for zs
    using assms(2) by (auto simp: filter_filter intro!: filter_cong)
  with assms(1) show ?thesis by metis
qed

lemma tracks_later: "tracks now past l \<Longrightarrow> now \<le> now' \<Longrightarrow> tracks now' past l"
  unfolding tracks_def
  by (auto intro: filter_later [of "now - seconds (lm_window l)"] order_trans)

lemma hits_of_set [simp]:
  "hits_of (l\<lparr>lm_hits := dict_set key h (lm_hits l)\<rparr>) k = (if k = key then h else hits_of l k)"
  by (simp add: hits_of_def update_conv')

lemma recent_eq:
  assumes "tracks now past l"
  shows "recent_hits now key l = filter (\<lambda>t. t > now - seconds (lm_window l)) (times_of key past)"
proof -
  have "recent_hits now key l = filter (\<lambda>t. t > now - seconds (lm_window l)) (hits_of l key)"
    using assms by (simp add: recent_hits_def hits_of_def [symmetric] tracks_def dropWhile_sorted_eq_filter)
  with assms show ?thesis by (simp add: tracks_def)
qed

lemma sorted_le_last: "sorted xs \<Longrightarrow> t \<in> set xs \<Longrightarrow> t \<le> (last xs :: time)"
  by (induction xs) (auto intro: order_trans)

lemma tracks_drop_idle:
  assumes "tracks now past l"
  shows "tracks now past (drop_idle now l)"
proof (cases "length (lm_hits l) > MAX_KEYS")
  case True
  let ?b = "now - seconds (lm_window l)"
  let ?l = "l\<lparr>lm_hits := filter (\<lambda>(k, v). v \<noteq> [] \<and> last v > ?b) (lm_hits l)\<rparr>"
  have wf: "wf_dict (lm_hits l)" using assms by (simp add: tracks_def)
  have hits: "hits_of ?l k = (if hits_of l k \<noteq> [] \<and> last (hits_of l k) > ?b then hits_of l k else [])" for k
    using dict_get_filter [OF wf, of "\<lambda>v. v \<noteq> [] \<and> last v > ?b" k]
    by (simp add: hits_of_def split: option.split)
  have none: "filter (\<lambda>t. t > ?b) (hits_of l k) = []"
    if "\<not> (hits_of l k \<noteq> [] \<and> last (hits_of l k) > ?b)" for k
  proof -
    have "sorted (hits_of l k)" using assms by (simp add: tracks_def)
    then have "\<forall>t \<in> set (hits_of l k). t \<le> last (hits_of l k)" by (simp add: sorted_le_last)
    with that show ?thesis by (cases "hits_of l k = []") (auto simp: filter_empty_conv intro: order_trans)
  qed
  have "tracks now past ?l"
    unfolding tracks_def
  proof (intro conjI allI)
    show "wf_dict (lm_hits ?l)" using wf by (simp add: distinct_map_filter)
    fix k
    show "sorted (hits_of ?l k)" using assms by (simp add: hits tracks_def)
    show "\<forall>t \<in> set (times_of k past) \<union> set (hits_of ?l k). t \<le> now"
      using assms unfolding tracks_def hits by auto
    show "filter (\<lambda>t. t > now - seconds (lm_window ?l)) (hits_of ?l k) =
        filter (\<lambda>t. t > now - seconds (lm_window ?l)) (times_of k past)"
      using assms none [of k] unfolding tracks_def hits by simp
  qed
  with True show ?thesis by (simp add: drop_idle_def)
qed (use assms in \<open>simp add: drop_idle_def\<close>)

lemma times_of_snoc [simp]:
  "times_of k (past @ [(t, key)]) = times_of k past @ (if k = key then [t] else [])"
  by (simp add: times_of_def)

lemma tracks_set:
  assumes "tracks now past l" and "h = filter (\<lambda>t. t > now - seconds (lm_window l)) (times_of key past)"
  shows "tracks now past (l\<lparr>lm_hits := dict_set key h (lm_hits l)\<rparr>)"
    and "tracks now (past @ [(now, key)]) (l\<lparr>lm_hits := dict_set key (h @ [now]) (lm_hits l)\<rparr>)"
proof -
  have le: "\<forall>t \<in> set h. t \<le> now" using assms by (auto simp: tracks_def)
  have "h = filter (\<lambda>t. t > now - seconds (lm_window l)) (hits_of l key)"
    using assms by (simp add: tracks_def)
  moreover have "sorted (hits_of l key)" using assms(1) by (simp add: tracks_def)
  ultimately have so: "sorted h" by (metis sorted_wrt_filter)
  have ff: "filter (\<lambda>t. t > now - seconds (lm_window l)) h = h" by (simp add: assms(2) filter_filter)
  show "tracks now past (l\<lparr>lm_hits := dict_set key h (lm_hits l)\<rparr>)"
    using assms(1) so le ff assms(2) by (auto simp: tracks_def)
  show "tracks now (past @ [(now, key)]) (l\<lparr>lm_hits := dict_set key (h @ [now]) (lm_hits l)\<rparr>)"
    using assms(1) so le ff assms(2) by (auto simp: tracks_def sorted_append)
qed

lemma drop_idle_simps [simp]:
  "lm_count (drop_idle now l) = lm_count l" "lm_window (drop_idle now l) = lm_window l"
  by (simp_all add: drop_idle_def)

text \<open>A request passes exactly when fewer than \<open>count\<close> passed in the window before it.\<close>

lemma check_tracks:
  assumes "tracks now past l" and "0 < lm_count l"
    and "check now key l = (r, l')"
  shows "tracks now (past @ (if r = Inr () then [(now, key)] else [])) l'"
    and "lm_count l' = lm_count l" and "lm_window l' = lm_window l"
    and "r = Inr () \<longleftrightarrow>
      int (length (filter (\<lambda>t. t > now - seconds (lm_window l)) (times_of key past))) < lm_count l"
proof -
  let ?h = "filter (\<lambda>t. t > now - seconds (lm_window l)) (times_of key past)"
  have recent: "recent_hits now key l = ?h" by (rule recent_eq [OF assms(1)])
  have "tracks now (past @ (if r = Inr () then [(now, key)] else [])) l' \<and> lm_count l' = lm_count l \<and>
      lm_window l' = lm_window l \<and> (r = Inr () \<longleftrightarrow> int (length ?h) < lm_count l)"
  proof (cases "int (length ?h) \<ge> lm_count l")
    case True
    with assms(2) obtain t ts where h: "?h = t # ts" by (cases ?h) auto
    have "r = Inl (too_many, py_str (retry_after now t l))"
        "l' = l\<lparr>lm_hits := dict_set key ?h (lm_hits l)\<rparr>"
      using assms(3) True h unfolding check_def Let_def recent by auto
    with True tracks_set(1) [OF assms(1) refl] show ?thesis by simp
  next
    case False
    then have "r = Inr ()" "l' = drop_idle now (l\<lparr>lm_hits := dict_set key (?h @ [now]) (lm_hits l)\<rparr>)"
      using assms(3) unfolding check_def Let_def recent by auto
    with False tracks_drop_idle [OF tracks_set(2) [OF assms(1) refl]] show ?thesis by simp
  qed
  then show "tracks now (past @ (if r = Inr () then [(now, key)] else [])) l'"
      and "lm_count l' = lm_count l" and "lm_window l' = lm_window l"
      and "r = Inr () \<longleftrightarrow> int (length ?h) < lm_count l"
    by blast+
qed

text \<open>\<open>paced W n ts\<close>: no window of length \<open>W\<close> ending at one of the times holds more than \<open>n\<close> of them.\<close>

definition window_count :: "int \<Rightarrow> time \<Rightarrow> time list \<Rightarrow> nat" where
  "window_count w t ts = length (filter (\<lambda>x. t - seconds w < x \<and> x \<le> t) ts)"

lemma window_count_later:
  assumes "\<forall>x \<in> set ts. x \<le> now" and "now \<le> t"
  shows "window_count w t ts \<le> window_count w now ts"
proof -
  have "filter (\<lambda>x. t - seconds w < x \<and> x \<le> t) ts =
      filter (\<lambda>x. t - seconds w < x \<and> x \<le> t) (filter (\<lambda>x. now - seconds w < x \<and> x \<le> now) ts)"
    unfolding filter_filter
  proof (rule filter_cong [OF refl])
    fix x assume "x \<in> set ts"
    with assms have "x \<le> now" by blast
    with assms(2) show "(t - seconds w < x \<and> x \<le> t) =
        ((now - seconds w < x \<and> x \<le> now) \<and> t - seconds w < x \<and> x \<le> t)" by linarith
  qed
  then show ?thesis unfolding window_count_def by (metis length_filter_le)
qed

lemma window_count_step:
  assumes old: "\<forall>t. window_count w t ts \<le> n" and le: "\<forall>x \<in> set ts. x \<le> now"
    and new: "length (filter (\<lambda>x. x > now - seconds w) ts) < n"
  shows "window_count w t (ts @ [now]) \<le> n"
proof (cases "now \<le> t")
  case True
  have "filter (\<lambda>x. now - seconds w < x \<and> x \<le> now) ts = filter (\<lambda>x. x > now - seconds w) ts"
    by (rule filter_cong) (use le in auto)
  then have "window_count w now (ts @ [now]) \<le> n" using new by (auto simp: window_count_def)
  with window_count_later [of "ts @ [now]" now t w] le True show ?thesis by simp
next
  case False
  then have "window_count w t (ts @ [now]) = window_count w t ts" by (simp add: window_count_def)
  with old show ?thesis by simp
qed

lemma run_paced:
  assumes "tracks now past l" and "0 < lm_count l" and "sorted (map fst reqs)" and "\<forall>r \<in> set reqs. now \<le> fst r"
    and "\<forall>t key. window_count (lm_window l) t (times_of key past) \<le> nat (lm_count l)"
  shows "window_count (lm_window l) t (times_of key (past @ fst (run_checks reqs l))) \<le> nat (lm_count l)"
  using assms
proof (induction reqs arbitrary: now past l)
  case (Cons r reqs)
  obtain n k where r: "r = (n, k)" by (cases r)
  obtain res l' where c: "check n k l = (res, l')" by fastforce
  have tr: "tracks n past l" using Cons.prems(1,4) r by (auto intro: tracks_later)
  note ck = check_tracks [OF tr Cons.prems(2) c]
  let ?past = "past @ (if res = Inr () then [(n, k)] else [])"
  have le: "\<forall>x \<in> set (times_of k past). x \<le> n" using tr by (auto simp: tracks_def)
  have "window_count (lm_window l) t' (times_of key' ?past) \<le> nat (lm_count l)" for t' key'
  proof (cases "res = Inr () \<and> key' = k")
    case True
    with ck(4) have "length (filter (\<lambda>x. x > n - seconds (lm_window l)) (times_of k past)) < nat (lm_count l)" by simp
    with True show ?thesis
      using window_count_step [of "lm_window l" "times_of k past"] Cons.prems(5) le by simp
  qed (use Cons.prems(5) in auto)
  moreover have "\<forall>r \<in> set reqs. n \<le> fst r" "sorted (map fst reqs)" using Cons.prems(3) r by auto
  ultimately have "window_count (lm_window l') t (times_of key (?past @ fst (run_checks reqs l'))) \<le> nat (lm_count l')"
    using Cons.IH [of n ?past l'] ck Cons.prems(2) by simp
  then show ?case using ck r c by (auto split: prod.splits)
qed simp

lemma run_tracks:
  assumes "tracks now past l" and "0 < lm_count l" and "sorted (map fst reqs)"
    and "\<forall>r \<in> set reqs. now \<le> fst r \<and> fst r \<le> later" and "now \<le> later"
  shows "tracks later (past @ fst (run_checks reqs l)) (snd (run_checks reqs l)) \<and>
    lm_count (snd (run_checks reqs l)) = lm_count l \<and> lm_window (snd (run_checks reqs l)) = lm_window l"
  using assms
proof (induction reqs arbitrary: now past l)
  case Nil
  then show ?case by (auto intro: tracks_later)
next
  case (Cons r reqs)
  obtain n k where r: "r = (n, k)" by (cases r)
  obtain res l' where c: "check n k l = (res, l')" by fastforce
  have "tracks n past l" using Cons.prems(1,4) r by (auto intro: tracks_later)
  note ck = check_tracks [OF this Cons.prems(2) c]
  have "\<forall>r \<in> set reqs. n \<le> fst r \<and> fst r \<le> later" "sorted (map fst reqs)" "n \<le> later"
    using Cons.prems(3,4) r by auto
  from Cons.IH [OF ck(1) _ this(2,1,3)] ck(2,3) Cons.prems(2) r c show ?case
    by (auto split: prod.splits if_splits)
qed

lemma new_limit_tracks: "tracks now [] (new_limit count window)"
  by (simp add: tracks_def new_limit_def hits_of_def times_of_def)

lemma new_limit_simps [simp]: "lm_count (new_limit c w) = c" "lm_window (new_limit c w) = w"
  by (simp_all add: new_limit_def)

subsection \<open>Properties\<close>

text \<open>
  C6. However many keys and requests there are, and although idle keys are dropped, every window
  of the limit's length holds at most \<open>count\<close> requests of one key that passed.
\<close>

theorem rate_limit_holds:
  assumes "0 < count" and "sorted (map fst reqs)"
  shows "window_count window t (times_of key (fst (run_checks reqs (new_limit count window)))) \<le> nat count"
proof -
  obtain t0 where "\<forall>r \<in> set reqs. t0 \<le> fst r"
  proof (cases reqs)
    case (Cons r rs)
    with assms(2) show ?thesis by (intro that [of "fst r"]) auto
  qed (use that in auto)
  with run_paced [OF new_limit_tracks [of t0 count window] _ assms(2), of t key] assms(1) show ?thesis
    by (simp add: window_count_def times_of_def)
qed

theorem rate_limit_holds_witness:
  "window_count 60 5 (times_of ''k'' (fst (run_checks [(1, ''k''), (2, ''k''), (3, ''j''), (4, ''k'')] (new_limit 2 60)))) \<le> 2 \<and>
   fst (run_checks [(1, ''k''), (2, ''k''), (3, ''j''), (4, ''k'')] (new_limit 2 60)) = [(1, ''k''), (2, ''k''), (3, ''j'')]"
proof -
  have "fst (run_checks [(1, ''k''), (2, ''k''), (3, ''j''), (4, ''k'')] (new_limit 2 60)) = [(1, ''k''), (2, ''k''), (3, ''j'')]"
    by (simp add: new_limit_def check_def recent_hits_def drop_idle_def MAX_KEYS_def seconds_def Let_def)
  then show ?thesis
    using rate_limit_holds [of 2 "[(1, ''k''), (2, ''k''), (3, ''j''), (4, ''k'')]" 60 5 "''k''"] by simp
qed

text \<open>
  C24. A refusal is a 429 whose \<open>Retry-After\<close> is a positive number of seconds, at most one more than the
  window, and enough: a request of the key after that long passes.
\<close>

theorem retry_after_is_enough:
  assumes "0 < count" and "sorted (map fst reqs)" and "\<forall>r \<in> set reqs. fst r \<le> now"
    and l: "run_checks reqs (new_limit count window) = (passed, l)"
    and refused: "check now key l = (Inl e, l')"
  shows "\<exists>s. e = (too_many, py_str s) \<and> 1 \<le> s \<and> s \<le> max 1 (window + 1) \<and> fst (check (now + seconds s) key l') = Inr ()"
proof -
  obtain t0 where t0: "\<forall>r \<in> set reqs. t0 \<le> fst r" "t0 \<le> now"
  proof (cases reqs)
    case (Cons r rs)
    with assms(2,3) show ?thesis by (intro that [of "fst r"]) auto
  qed (use that in auto)
  have tr: "tracks now passed l" and cl: "lm_count l = count" "lm_window l = window"
    using run_tracks [OF new_limit_tracks [of t0 count window] _ assms(2), of now] t0 assms(1,3) l by auto
  let ?h = "filter (\<lambda>t. t > now - seconds window) (times_of key passed)"
  have pos: "0 < lm_count l" using cl assms(1) by simp
  note ck = check_tracks [OF tr pos refused]
  have "int (length ?h) \<ge> count" using ck(4) cl by simp
  then obtain x xs where h: "?h = x # xs" using assms(1) by (cases ?h) auto
  have rec: "recent_hits now key l = ?h" using recent_eq [OF tr] cl by simp
  then have e: "e = (too_many, py_str (retry_after now x l))"
    using refused h \<open>int (length ?h) \<ge> count\<close> cl by (auto simp: check_def Let_def)
  let ?s = "retry_after now x l"
  have xm: "x \<in> set ?h" using h by simp
  then have x: "now - seconds window < x" "x \<le> now" using tr by (auto simp: tracks_def)
  then have s: "1 \<le> ?s" "x \<le> now + seconds ?s - seconds window" "?s \<le> window + 1"
    using cl by (auto simp: retry_after_def seconds_def algebra_simps)
  have "window_count window now (times_of key passed) \<le> nat count"
    using run_paced [OF new_limit_tracks [of t0 count window] _ assms(2), of now key] t0 assms(1) l
    by (simp add: window_count_def times_of_def)
  moreover have "filter (\<lambda>y. now - seconds window < y \<and> y \<le> now) (times_of key passed) = ?h"
    by (rule filter_cong) (use tr in \<open>auto simp: tracks_def\<close>)
  ultimately have len: "length ?h \<le> nat count" by (simp add: window_count_def)
  have nonneg: "0 \<le> seconds ?s" using s(1) by (simp add: seconds_def)
  have tr': "tracks (now + seconds ?s) passed l'"
    using ck(1) s(1) by (auto intro: tracks_later)
  have "filter (\<lambda>t. t > now + seconds ?s - seconds window) (times_of key passed) =
      filter (\<lambda>t. t > now + seconds ?s - seconds window) ?h"
    unfolding filter_filter by (rule filter_cong [OF refl]) (use nonneg in linarith)
  also have "\<dots> = filter (\<lambda>t. t > now + seconds ?s - seconds window) xs" using h s(2) by simp
  also have "length \<dots> < nat count" using len h by (simp add: le_less_trans [OF length_filter_le])
  finally have "int (length (filter (\<lambda>t. t > now + seconds ?s - seconds window) (times_of key passed))) < count"
    using assms(1) by linarith
  then have "fst (check (now + seconds ?s) key l') = Inr ()"
    using check_tracks(4) [OF tr', of key] ck(2,3) cl pos by (metis prod.collapse)
  with e s(1,3) show ?thesis by auto
qed

theorem retry_after_is_enough_witness:
  "\<exists>s. (too_many, ''60'') = (too_many, py_str s) \<and> 1 \<le> s \<and>
     fst (check (seconds 1 + seconds s) ''k'' (snd (check (seconds 1) ''k''
       (snd (run_checks [(2, ''k'')] (new_limit 1 60)))))) = Inr ()"
proof -
  let ?l = "snd (run_checks [(2, ''k'')] (new_limit 1 60))"
  have l: "run_checks [(2, ''k'')] (new_limit 1 60) = ([(2, ''k'')], ?l)"
    by (simp add: new_limit_def check_def recent_hits_def Let_def split: prod.split)
  have "fst (check (seconds 1) ''k'' ?l) = Inl (too_many, ''60'')"
    by (simp add: new_limit_def check_def recent_hits_def drop_idle_def MAX_KEYS_def seconds_def Let_def
        retry_after_def py_str_def digits.simps)
  then have "check (seconds 1) ''k'' ?l = (Inl (too_many, ''60''), snd (check (seconds 1) ''k'' ?l))"
    by (metis prod.collapse)
  from retry_after_is_enough [OF _ _ _ l this] show ?thesis by (auto simp: seconds_def)
qed

end
