(* ===== verification/Auth.thy ===== *)
theory Auth
  imports World RateLimits Quotas
begin

section \<open>Members, roles and API keys\<close>

text \<open>
  \<open>apps/server/auth_api.py\<close>: who a request acts as and what it may reach. The password hash, the
  SHA-256 of a key and the signed session token are parameters: \<open>hash_key\<close> is the digest, and
  \<open>decode token\<close> is \<open>None\<close> when \<open>jwt.decode\<close> raises and else the token's subject, \<open>Some None\<close> when that is
  not a string.
\<close>

subsection \<open>Roles\<close>

definition ROLES :: "role list" where
  "ROLES = [Viewer, Member, Admin, Owner]"

fun role_text :: "role \<Rightarrow> string" where
  "role_text Viewer = ''viewer''"
| "role_text Member = ''member''"
| "role_text Admin = ''admin''"
| "role_text Owner = ''owner''"

fun index_in :: "'a \<Rightarrow> 'a list \<Rightarrow> nat" where
  "index_in x [] = 0"
| "index_in x (y # ys) = (if x = y then 0 else Suc (index_in x ys))"

record member =
  mb_id :: string
  mb_email :: string
  mb_workspace_id :: string
  mb_role :: role
  mb_key_id :: "string option"
  mb_key_sandbox_id :: "string option"
  mb_key_labels :: "labels option"

definition can :: "member \<Rightarrow> role \<Rightarrow> bool" where
  "can u r \<longleftrightarrow> index_in (mb_role u) ROLES \<ge> index_in r ROLES"

definition require :: "member \<Rightarrow> role \<Rightarrow> unit res" where
  "require u r = guardr (can u r) (HTTPException 403 (''this needs the '' @ role_text r @ '' role in the workspace''))"

definition require_sandbox :: "member \<Rightarrow> string \<Rightarrow> unit res" where
  "require_sandbox u sandbox_id =
     guardr (mb_key_sandbox_id u = None \<or> mb_key_sandbox_id u = Some sandbox_id)
       (HTTPException 403 ''this API key is for another sandbox'')"

lemma can_Viewer [simp]: "can u Viewer"
  by (simp add: can_def ROLES_def)

lemma can_simps [simp]:
  "can u Member \<longleftrightarrow> mb_role u \<noteq> Viewer" "can u Admin \<longleftrightarrow> mb_role u \<in> {Admin, Owner}" "can u Owner \<longleftrightarrow> mb_role u = Owner"
  by (cases "mb_role u"; simp add: can_def ROLES_def)+

subsection \<open>Routes\<close>

definition VIEWER_WRITES :: "string list" where
  "VIEWER_WRITES = [''/sandboxes/{sandbox_id}/screenshot'', ''/sandboxes/{sandbox_id}/viewer-links'']"

definition ADMIN_WRITES :: "string list" where
  "ADMIN_WRITES = [''/servers'', ''/nodes/tokens'', ''/vault'', ''/profiles'', ''/api-keys'', ''/pool'',
     ''/kubernetes'', ''/webhooks'']"

definition SELF_CHECKED :: "string list" where
  "SELF_CHECKED = [''/workspaces'', ''/invitations'']"

definition SANDBOX_KEY_ROUTES :: "(string \<times> string) list" where
  "SANDBOX_KEY_ROUTES = [(''GET'', ''/sandboxes''), (''GET'', ''/tools''), (''GET'', ''/auth/me'')]"

definition LABEL_KEY_ROUTES :: "(string \<times> string) list" where
  "LABEL_KEY_ROUTES = SANDBOX_KEY_ROUTES @ [(''POST'', ''/sandboxes''), (''GET'', ''/usage''),
     (''GET'', ''/usage/export''), (''GET'', ''/events''), (''GET'', ''/events/stream'')]"

definition starts_with :: "string \<Rightarrow> string list \<Rightarrow> bool" where
  "starts_with s ps \<longleftrightarrow> list_ex (\<lambda>p. take (length p) s = p) ps"

definition remove_prefix :: "string \<Rightarrow> string \<Rightarrow> string" where
  "remove_prefix p s = (if take (length p) s = p then drop (length p) s else s)"

text \<open>
  The checks of \<open>current_user\<close> once the member is known: \<open>path\<close> is the route's template, \<open>sandbox\<close> the
  path parameter \<open>sandbox_id\<close> and \<open>ls\<close> the labels of that sandbox.
\<close>

definition route_check :: "string \<Rightarrow> string \<Rightarrow> string option \<Rightarrow> labels \<Rightarrow> member \<Rightarrow> unit res" where
  "route_check method path sandbox ls u =
     (let route = remove_prefix ''/v1'' path;
          writes = (method \<notin> {''GET'', ''HEAD''} \<and> \<not> starts_with route SELF_CHECKED)
      in bindr (guardr (\<not> (writes \<and> \<not> can u Member \<and> route \<notin> set VIEWER_WRITES))
                  (HTTPException 403 ''viewers can look but not change anything'')) (\<lambda>_.
         bindr (if writes \<and> starts_with route ADMIN_WRITES then require u Admin else Inr ()) (\<lambda>_.
         bindr (if mb_key_sandbox_id u = None then Inr ()
                else case sandbox of
                    Some sandbox_id \<Rightarrow> require_sandbox u sandbox_id
                  | None \<Rightarrow> guardr ((method, route) \<in> set SANDBOX_KEY_ROUTES)
                      (HTTPException 403 ''this API key only reaches its own sandbox'')) (\<lambda>_.
         if mb_key_labels u = None then Inr ()
         else case sandbox of
             Some sandbox_id \<Rightarrow> guardr (matches ls (mb_key_labels u)) (HTTPException 404 ''sandbox not found'')
           | None \<Rightarrow> guardr ((method, route) \<in> set LABEL_KEY_ROUTES)
               (HTTPException 403 ''this API key only reaches its labelled sandboxes'')))))"

subsection \<open>Who a token is\<close>

definition get_api_key_by_hash :: "time \<Rightarrow> api_key tbl \<Rightarrow> string \<Rightarrow> api_key option" where
  "get_api_key_by_hash now t h =
     find_row (\<lambda>k. ak_key_hash k = h \<and> ak_revoked_at k = None \<and>
       (case ak_expires_at k of None \<Rightarrow> True | Some e \<Rightarrow> e > now)) t"

definition get_user :: "user tbl \<Rightarrow> string \<Rightarrow> user option" where
  "get_user t i = find_row (\<lambda>u. us_id u = i) t"

definition get_workspace_member :: "member_row tbl \<Rightarrow> string \<Rightarrow> string \<Rightarrow> member_row option" where
  "get_workspace_member t workspace_id user_id =
     find_row (\<lambda>m. mr_workspace_id m = workspace_id \<and> mr_user_id m = user_id) t"

definition get_workspace_by_slug :: "workspace tbl \<Rightarrow> string \<Rightarrow> workspace option" where
  "get_workspace_by_slug t slug = find_row (\<lambda>w. ws_slug w = slug) t"

definition update_api_key_last_used :: "time \<Rightarrow> string \<Rightarrow> api_key tbl \<Rightarrow> api_key tbl" where
  "update_api_key_last_used now i t = update_where (\<lambda>k. ak_id k = i) (\<lambda>k. k\<lparr>ak_last_used_at := Some now\<rparr>) t"

definition revoke_api_key :: "time \<Rightarrow> string \<Rightarrow> api_key tbl \<Rightarrow> api_key tbl" where
  "revoke_api_key now i t =
     update_where (\<lambda>k. ak_id k = i \<and> ak_revoked_at k = None) (\<lambda>k. k\<lparr>ak_revoked_at := Some now\<rparr>) t"

definition list_api_keys_by_workspace :: "api_key tbl \<Rightarrow> string \<Rightarrow> api_key list" where
  "list_api_keys_by_workspace t workspace_id =
     sort_key (\<lambda>k. - ak_created_at k) (filter (\<lambda>k. ak_workspace_id k = workspace_id) t)"

text \<open>
  The user's own workspace, made when it is first needed, with the user as its owner and the
  default limits. Its slug is unique; a concurrent creation is the workspace found on the second
  look, so the model's single look covers both.
\<close>

definition create_workspace :: "time \<Rightarrow> string \<Rightarrow> string \<Rightarrow> string \<Rightarrow> string \<Rightarrow> workspace tbl \<Rightarrow> workspace \<times> workspace tbl" where
  "create_workspace now i name slug created_by t =
     (let r = \<lparr>ws_id = i, ws_name = name, ws_slug = slug, ws_created_by = created_by, ws_created_at = now, ws_updated_at = now,
               ws_default_idle_timeout_minutes = None, ws_default_max_lifetime_minutes = None, ws_storage_metered_at = None\<rparr>
      in (r, t @ [r]))"

definition add_workspace_member :: "time \<Rightarrow> string \<Rightarrow> string \<Rightarrow> role \<Rightarrow> member_row tbl \<Rightarrow> member_row \<times> member_row tbl" where
  "add_workspace_member now workspace_id user_id role t =
     (let r = \<lparr>mr_workspace_id = workspace_id, mr_user_id = user_id, mr_role = role, mr_status = Active,
               mr_joined_at = Some now, mr_created_at = now\<rparr>
      in (r, t @ [r]))"

definition personal_workspace :: "time \<Rightarrow> limits \<Rightarrow> string \<Rightarrow> user \<Rightarrow> 'h world \<Rightarrow> string \<times> 'h world" where
  "personal_workspace now defaults uid u w =
     (let slug = ''personal-'' @ us_id u
      in case get_workspace_by_slug (w_workspaces w) slug of
           Some ws \<Rightarrow> (ws_id ws, w)
         | None \<Rightarrow>
             let (made, ws) = create_workspace now uid ''Personal'' slug (us_id u) (w_workspaces w);
                 (m, ms) = add_workspace_member now (ws_id made) (us_id u) Owner (w_members w)
             in (ws_id made, ensure_workspace_quota (ws_id made) defaults (w\<lparr>w_workspaces := ws, w_members := ms\<rparr>)))"

definition API_KEY_PREFIX :: string where "API_KEY_PREFIX = ''zoo_''"

definition key_role :: "api_key \<Rightarrow> member_row \<Rightarrow> role" where
  "key_role key m = (if ak_read_only key \<or> mr_role m = Viewer then Viewer else Member)"

definition key_member :: "api_key \<Rightarrow> user \<Rightarrow> member_row \<Rightarrow> member" where
  "key_member key u m =
     \<lparr>mb_id = us_id u, mb_email = us_email u, mb_workspace_id = ak_workspace_id key, mb_role = key_role key m, mb_key_id = Some (ak_id key),
      mb_key_sandbox_id = ak_sandbox_id key, mb_key_labels = ak_label_selector key\<rparr>"

definition touch_key :: "time \<Rightarrow> api_key \<Rightarrow> 'h world \<Rightarrow> 'h world" where
  "touch_key now key w =
     (if (case ak_last_used_at key of None \<Rightarrow> True | Some a \<Rightarrow> now - a > seconds 60)
      then w\<lparr>w_keys := update_api_key_last_used now (ak_id key) (w_keys w)\<rparr> else w)"

text \<open>The result, the limiter of the API keys and the tables, which a personal workspace or a key's use changes.\<close>

definition user_from_token :: "(string \<Rightarrow> string) \<Rightarrow> (string \<Rightarrow> string option option) \<Rightarrow> limits \<Rightarrow> time \<Rightarrow> string \<Rightarrow>
    string \<Rightarrow> string option \<Rightarrow> limit \<times> 'h world \<Rightarrow> member option res \<times> limit \<times> 'h world" where
  "user_from_token hash_key decode defaults now uid token workspace lw =
     (let (l, w) = lw in
      if starts_with token [API_KEY_PREFIX]
      then case get_api_key_by_hash now (w_keys w) (hash_key token) of
          None \<Rightarrow> (Inr None, l, w)
        | Some key \<Rightarrow>
            if workspace \<noteq> None \<and> workspace \<noteq> Some (ak_workspace_id key)
            then (Inl (HTTPException 403 ''this API key belongs to another workspace''), l, w)
            else case check now (ak_id key) l of
                (Inl e, l') \<Rightarrow> (Inl (fst e), l', w)
              | (Inr _, l') \<Rightarrow>
                  (case (get_user (w_users w) (ak_created_by key),
                         get_workspace_member (w_members w) (ak_workspace_id key) (ak_created_by key)) of
                     (Some u, Some m) \<Rightarrow>
                       if mr_status m \<noteq> Active then (Inr None, l', w)
                       else (Inr (Some (key_member key u m)), l', touch_key now key w)
                   | _ \<Rightarrow> (Inr None, l', w))
      else case decode token of
          Some (Some sub) \<Rightarrow>
            (case get_user (w_users w) sub of
               None \<Rightarrow> (Inr None, l, w)
             | Some u \<Rightarrow>
                 let (workspace_id, w') = (case workspace of
                       Some ws \<Rightarrow> if ws = [] then personal_workspace now defaults uid u w else (ws, w)
                     | None \<Rightarrow> personal_workspace now defaults uid u w)
                 in case get_workspace_member (w_members w') workspace_id (us_id u) of
                     None \<Rightarrow> (Inl (HTTPException 404 ''workspace not found''), l, w')
                   | Some m \<Rightarrow>
                       if mr_status m \<noteq> Active then (Inl (HTTPException 404 ''workspace not found''), l, w')
                       else (Inr (Some \<lparr>mb_id = us_id u, mb_email = us_email u, mb_workspace_id = workspace_id, mb_role = mr_role m,
                              mb_key_id = None, mb_key_sandbox_id = None, mb_key_labels = None\<rparr>), l, w'))
        | _ \<Rightarrow> (Inr None, l, w))"

subsection \<open>Lemmas\<close>

lemma key_token_cases:
  assumes "starts_with token [API_KEY_PREFIX]"
    and "user_from_token hash_key decode defaults now uid token workspace (l, w) = (Inr (Some u), l', w')"
  shows "\<exists>key us m. get_api_key_by_hash now (w_keys w) (hash_key token) = Some key \<and>
    get_user (w_users w) (ak_created_by key) = Some us \<and>
    get_workspace_member (w_members w) (ak_workspace_id key) (ak_created_by key) = Some m \<and>
    mr_status m = Active \<and> workspace \<in> {None, Some (ak_workspace_id key)} \<and> u = key_member key us m"
  using assms
  by (auto simp: user_from_token_def split: option.splits if_splits prod.splits sum.splits)

lemma get_api_key_by_hashD:
  assumes "get_api_key_by_hash now t h = Some key"
  shows "key \<in> set t \<and> ak_key_hash key = h \<and> ak_revoked_at key = None \<and>
    (\<forall>e. ak_expires_at key = Some e \<longrightarrow> now < e)"
  using find_row_SomeD [OF assms [unfolded get_api_key_by_hash_def]] by (auto split: option.splits)

text \<open>A small workspace to run the properties on: an admin with a key for one sandbox.\<close>

definition demo_world :: "unit world" where
  "demo_world = \<lparr>w_sandboxes = [], w_snapshots = [], w_snapshot_seq = 1, w_labels = [], w_usage_labels = [],
     w_workspaces = [\<lparr>ws_id = ''w1'', ws_name = ''Team'', ws_slug = ''team'', ws_created_by = ''u1'',
       ws_created_at = 0, ws_updated_at = 0, ws_default_idle_timeout_minutes = None, ws_default_max_lifetime_minutes = None,
       ws_storage_metered_at = None\<rparr>],
     w_members = [\<lparr>mr_workspace_id = ''w1'', mr_user_id = ''u1'', mr_role = Admin, mr_status = Active,
       mr_joined_at = Some 0, mr_created_at = 0\<rparr>],
     w_users = [\<lparr>us_id = ''u1'', us_email = ''u1@example.com'', us_name = None, us_password = ''x'', us_avatar_url = None,
       us_onboarded_at = None, us_created_at = 0, us_updated_at = 0\<rparr>],
     w_keys = [\<lparr>ak_id = ''k1'', ak_workspace_id = ''w1'', ak_created_by = ''u1'', ak_name = ''key'',
       ak_key_hash = ''zoo_1'', ak_key_prefix = ''zoo_1'', ak_scopes = ''[]'', ak_expires_at = None, ak_last_used_at = None,
       ak_revoked_at = None, ak_created_at = 0, ak_sandbox_id = Some ''s1'', ak_read_only = False,
       ak_label_selector = None\<rparr>],
     w_quotas = [], w_label_quotas = [], w_servers = [], w_profiles = [], w_profile_versions = [], w_secrets = [],
     w_grants = [], w_permissions = [], w_images = [], w_versions = [], w_pool = [], w_pool_seq = 1, w_pool_settings = [],
     w_pool_claimed = [], w_pool_booting = [], w_audit = [], w_sandbox_secrets = [], w_secret_keys = [], w_policies = [], w_rules = [], w_apps = [],
     w_app_permissions = [], w_invitations = [], w_links = [], w_executions = [], w_data_keys = [], w_booted = [], w_attached = [], w_suspects = [], w_probed = [],
     w_host = ()\<rparr>"

definition no_limits :: limits where
  "no_limits = \<lparr>max_running_sandboxes = None, max_cpus = None, max_memory_mb = None, max_storage_gb = None\<rparr>"

definition demo_key_member :: member where
  "demo_key_member = key_member (hd (w_keys demo_world)) (hd (w_users demo_world)) (hd (w_members demo_world))"

lemma demo_token:
  "user_from_token (\<lambda>t. t) (\<lambda>t. None) no_limits 5 ''x'' ''zoo_1'' None (API_KEY, demo_world) =
    (Inr (Some demo_key_member), snd (check 5 ''k1'' API_KEY), touch_key 5 (hd (w_keys demo_world)) demo_world)"
proof -
  obtain l where "check 5 ''k1'' API_KEY = (Inr (), l)"
    by (simp add: check_def API_KEY_def new_limit_def recent_hits_def Let_def)
  then show ?thesis
    by (simp add: user_from_token_def starts_with_def API_KEY_PREFIX_def demo_world_def demo_key_member_def
        get_api_key_by_hash_def get_user_def get_workspace_member_def)
qed

subsection \<open>Properties\<close>







end
