(* ===== verification/Access.thy ===== *)
theory Access
  imports Auth
begin

section \<open>Reaching a sandbox\<close>

text \<open>
  The parts of \<open>apps/server/sandbox_api.py\<close> every route starts with: the sandbox a caller may see
  (\<open>owned\<close>), may change (\<open>idle\<close>), may use (\<open>running\<close>, \<open>allowed\<close>), and the view of it a response carries
  (\<open>to_response\<close>, with times left as times). \<open>owned_async\<close> and \<open>allowed_async\<close> make the same checks on
  the state \<open>state_async\<close> read; they are given that state.
\<close>

subsection \<open>Kinds of sandbox\<close>

definition in_VMS :: "kind \<Rightarrow> bool" where
  "in_VMS k \<longleftrightarrow> k = Macos \<or> k = Windows"

fun kind_text :: "kind \<Rightarrow> string" where
  "kind_text Desktop = ''desktop''"
| "kind_text Browser = ''browser''"
| "kind_text Code = ''code''"
| "kind_text Macos = ''macos''"
| "kind_text Windows = ''windows''"

definition platform_of :: "kind \<Rightarrow> string" where
  "platform_of k = (if in_VMS k then kind_text k else ''linux'')"

fun job_kind_text :: "job_kind \<Rightarrow> string" where
  "job_kind_text KBoot = ''boot''"
| "job_kind_text KStop = ''stop''"
| "job_kind_text KDelete = ''delete''"
| "job_kind_text KMove = ''move''"
| "job_kind_text KSnapshot = ''snapshot''"
| "job_kind_text KRestore = ''restore''"

definition BOOT_DEADLINE_LINUX :: int where "BOOT_DEADLINE_LINUX = 3 * 60"
definition BOOT_DEADLINE_VM :: int where "BOOT_DEADLINE_VM = 10 * 60"

definition boot_deadline :: "kind \<Rightarrow> int" where
  "boot_deadline k = (if in_VMS k then BOOT_DEADLINE_VM else BOOT_DEADLINE_LINUX)"

text \<open>\<open>runtime.default_image\<close> with the three configured images.\<close>

record images =
  image_desktop :: string
  image_browser :: string
  image_code :: string

definition default_image :: "images \<Rightarrow> kind \<Rightarrow> string" where
  "default_image im k = (if k = Code then image_code im else if k = Browser then image_browser im else image_desktop im)"

definition pinned_image :: "sandbox \<Rightarrow> string option" where
  "pinned_image s = (case dict_get (s_config s) ''image'' of Some (JStr i) \<Rightarrow> Some i | _ \<Rightarrow> None)"

subsection \<open>The view of a sandbox\<close>

record job_view =
  jv_kind :: job_kind
  jv_state :: job_state
  jv_attempts :: int
  jv_max_attempts :: int
  jv_last_error :: "string option"
  jv_deadline :: "time option"
  jv_waiting :: bool

record sandbox_view =
  v_id :: string
  v_name :: string
  v_kind :: kind
  v_server_id :: "string option"
  v_status :: status
  v_error_message :: "string option"
  v_started_at :: "time option"
  v_created_at :: time
  v_unreachable :: bool
  v_resumable :: bool
  v_job :: "job_view option"
  v_image :: "string option"
  v_image_outdated :: bool
  v_base_version :: "string option"
  v_boot_seconds :: "rat option"
  v_recovered_at :: "time option"
  v_cpus :: rat
  v_memory_mb :: int
  v_disk_gb :: "int option"
  v_idle_timeout_minutes :: "int option"
  v_max_lifetime_minutes :: "int option"
  v_last_activity_at :: "time option"
  v_labels :: labels

definition job_view_of :: "job \<Rightarrow> job_view" where
  "job_view_of j = \<lparr>jv_kind = j_kind j, jv_state = j_state j, jv_attempts = j_attempts j, jv_max_attempts = j_max_attempts j,
     jv_last_error = j_last_error j, jv_deadline = j_deadline j,
     jv_waiting = starts_with (case j_last_error j of None \<Rightarrow> [] | Some e \<Rightarrow> e) [WAITING]\<rparr>"

definition view :: "images \<Rightarrow> sandbox \<Rightarrow> job option \<Rightarrow> labels \<Rightarrow> sandbox_view" where
  "view im s job ls =
     \<lparr>v_id = s_id s, v_name = s_name s, v_kind = s_kind s, v_server_id = s_server_id s, v_status = s_status s,
      v_error_message = s_error_message s, v_started_at = s_started_at s, v_created_at = s_created_at s,
      v_unreachable = (s_unreachable_since s \<noteq> None),
      v_resumable = (s_status s = Stopped \<and> s_paused_at s \<noteq> None),
      v_job = map_option job_view_of job, v_image = pinned_image s,
      v_image_outdated = (case pinned_image s of None \<Rightarrow> False | Some i \<Rightarrow> i \<noteq> default_image im (s_kind s)),
      v_base_version = s_base_version s, v_boot_seconds = s_boot_seconds s, v_recovered_at = s_recovered_at s,
      v_cpus = s_cpus s, v_memory_mb = s_memory_mb s, v_disk_gb = s_disk_gb s,
      v_idle_timeout_minutes = s_idle_timeout_minutes s, v_max_lifetime_minutes = s_max_lifetime_minutes s,
      v_last_activity_at = s_last_activity_at s, v_labels = ls\<rparr>"

definition to_response :: "images \<Rightarrow> sandbox \<Rightarrow> 'h zoo \<Rightarrow> sandbox_view" where
  "to_response im s z = view im s (get_active_job (q_jobs z) (s_id s)) (labels_of (w_labels (q_world z)) (s_id s))"

subsection \<open>Who may reach it\<close>

definition sandbox_not_found :: exc where
  "sandbox_not_found = HTTPException 404 ''sandbox not found''"

definition owned :: "string \<Rightarrow> member \<Rightarrow> 'h zoo \<Rightarrow> sandbox res" where
  "owned sandbox_id u z =
     (case get_sandbox (sbs z) sandbox_id of
        None \<Rightarrow> Inl sandbox_not_found
      | Some s \<Rightarrow>
          if s_workspace_id s \<noteq> mb_workspace_id u \<or> s_status s = Deleted then Inl sandbox_not_found
          else if mb_key_labels u \<noteq> None \<and> \<not> matches (labels_of (w_labels (q_world z)) (s_id s)) (mb_key_labels u)
          then Inl sandbox_not_found
          else bindr (require_sandbox u (s_id s)) (\<lambda>_. Inr s))"

definition busy :: "job \<Rightarrow> exc" where
  "busy j = HTTPException 409 (''sandbox is busy: '' @ job_kind_text (j_kind j) @ '' in progress'')"

definition wrong_status :: "sandbox \<Rightarrow> exc" where
  "wrong_status s = HTTPException 409 (''sandbox is '' @ status_text (s_status s))"

definition idle :: "string \<Rightarrow> member \<Rightarrow> 'h zoo \<Rightarrow> sandbox res" where
  "idle sandbox_id u z =
     bindr (owned sandbox_id u z) (\<lambda>s.
       case get_active_job (q_jobs z) (s_id s) of None \<Rightarrow> Inr s | Some active \<Rightarrow> Inl (busy active))"

definition running :: "string \<Rightarrow> member \<Rightarrow> 'h zoo \<Rightarrow> sandbox res" where
  "running sandbox_id u z =
     bindr (owned sandbox_id u z) (\<lambda>s.
       if s_status s \<noteq> Up \<or> \<not> truthy (s_runtime_id s) then Inl (wrong_status s) else Inr s)"

definition get_sandbox_permission :: "sandbox_permission tbl \<Rightarrow> string \<Rightarrow> string \<Rightarrow> string \<Rightarrow> sandbox_permission option" where
  "get_sandbox_permission t sandbox_id permission action =
     find_row (\<lambda>p. sp_sandbox_id p = sandbox_id \<and> sp_permission p = permission \<and> sp_action p = action) t"

definition denied :: "string \<Rightarrow> string \<Rightarrow> exc" where
  "denied permission action = HTTPException 403 (permission @ ''.'' @ action @ '' is denied for this sandbox'')"

definition allowed :: "string \<Rightarrow> member \<Rightarrow> string \<Rightarrow> string \<Rightarrow> 'h zoo \<Rightarrow> sandbox res" where
  "allowed sandbox_id u permission action z =
     bindr (running sandbox_id u z) (\<lambda>s.
       case get_sandbox_permission (w_permissions (q_world z)) (s_id s) permission action of
         None \<Rightarrow> Inr s
       | Some stored \<Rightarrow> if sp_effect stored \<noteq> ''allow'' then Inl (denied permission action) else Inr s)"

definition member_of :: "sandbox \<Rightarrow> string \<Rightarrow> 'h zoo \<Rightarrow> bool" where
  "member_of s user_id z = (case get_workspace_member (w_members (q_world z)) (s_workspace_id s) user_id of
      None \<Rightarrow> False | Some m \<Rightarrow> mr_status m = Active \<and> mr_role m \<noteq> Viewer)"

text \<open>What \<open>state_async\<close> reads of a sandbox for the checks below.\<close>

record sandbox_state =
  ss_sandbox :: sandbox
  ss_labels :: labels
  ss_permissions :: "(string \<times> string, string) dict"

definition load_state :: "'h zoo \<Rightarrow> string \<Rightarrow> sandbox_state option" where
  "load_state z sandbox_id = map_option (\<lambda>s.
     \<lparr>ss_sandbox = s, ss_labels = labels_of (w_labels (q_world z)) sandbox_id,
      ss_permissions = dict_merge [] (map (\<lambda>p. ((sp_permission p, sp_action p), sp_effect p))
        (filter (\<lambda>p. sp_sandbox_id p = sandbox_id) (w_permissions (q_world z))))\<rparr>) (get_sandbox (sbs z) sandbox_id)"

definition owned_async :: "sandbox_state option \<Rightarrow> string \<Rightarrow> member \<Rightarrow> sandbox_state res" where
  "owned_async state sandbox_id u =
     (case state of
        None \<Rightarrow> Inl sandbox_not_found
      | Some st \<Rightarrow>
          if s_workspace_id (ss_sandbox st) \<noteq> mb_workspace_id u \<or> s_status (ss_sandbox st) = Deleted
          then Inl sandbox_not_found
          else bindr (require_sandbox u sandbox_id) (\<lambda>_.
            if \<not> matches (ss_labels st) (mb_key_labels u) then Inl sandbox_not_found else Inr st))"

definition allowed_async :: "sandbox_state option \<Rightarrow> string \<Rightarrow> member \<Rightarrow> string \<Rightarrow> string \<Rightarrow> sandbox_state res" where
  "allowed_async state sandbox_id u permission action =
     bindr (owned_async state sandbox_id u) (\<lambda>st.
       if s_status (ss_sandbox st) \<noteq> Up \<or> s_runtime_id (ss_sandbox st) = None then Inl (wrong_status (ss_sandbox st))
       else if (case dict_get (ss_permissions st) (permission, action) of None \<Rightarrow> ''allow'' | Some e \<Rightarrow> e) \<noteq> ''allow''
       then Inl (denied permission action) else Inr st)"

subsection \<open>Lemmas\<close>

lemma owned_Inr:
  assumes "owned i u z = Inr s"
  shows "get_sandbox (sbs z) i = Some s \<and> s_id s = i \<and> s \<in> set (sbs z) \<and> s_workspace_id s = mb_workspace_id u \<and>
    s_status s \<noteq> Deleted \<and> matches (labels_of (w_labels (q_world z)) i) (mb_key_labels u) \<and>
    mb_key_sandbox_id u \<in> {None, Some i}"
proof -
  from assms have g: "get_sandbox (sbs z) i = Some s" by (auto simp: owned_def split: option.splits if_splits)
  with assms show ?thesis
    using sandboxes.lookup_key [OF g] sandboxes.lookup_mem [OF g]
    by (auto simp: owned_def require_sandbox_def matches_def split: option.splits if_splits)
qed

lemma idle_Inr: "idle i u z = Inr s \<longleftrightarrow> owned i u z = Inr s \<and> get_active_job (q_jobs z) (s_id s) = None"
  by (auto simp: idle_def split: option.splits)

lemma permissions_of:
  assumes "distinct (map (\<lambda>p. (sp_sandbox_id p, sp_permission p, sp_action p)) t)"
  shows "dict_get (dict_merge [] (map (\<lambda>p. ((sp_permission p, sp_action p), sp_effect p)) (filter (\<lambda>p. sp_sandbox_id p = i) t))) (perm, act)
    = map_option sp_effect (get_sandbox_permission t i perm act)"
proof -
  let ?rows = "filter (\<lambda>p. sp_sandbox_id p = i) t"
  have "distinct (map (\<lambda>p. (sp_sandbox_id p, sp_permission p, sp_action p)) ?rows)"
    using assms by (rule distinct_filter_map)
  then have "wf_dict (map (\<lambda>p. ((sp_permission p, sp_action p), sp_effect p)) ?rows)"
    by (auto simp: distinct_map inj_on_def)
  moreover have "map_of (map (\<lambda>p. ((sp_permission p, sp_action p), sp_effect p)) ?rows) (perm, act) =
      map_option sp_effect (get_sandbox_permission t i perm act)"
    by (induction t) (auto simp: get_sandbox_permission_def)
  ultimately show ?thesis by (simp add: dict_get_merge)
qed

subsection \<open>Properties\<close>


definition demo_sandbox :: sandbox where
  "demo_sandbox = (fst (create_sandbox 0 ''s1'' ''w1'' ''v1'' ''u1'' ''box'' ''docker'' ''{}'' [] []))
     \<lparr>s_status := Up, s_runtime_id := Some ''c1''\<rparr>"

definition demo_zoo :: "unit zoo" where
  "demo_zoo = \<lparr>q_jobs = [], q_seq = 1, q_live = [], q_world = demo_world\<lparr>w_sandboxes := [demo_sandbox],
     w_permissions := [\<lparr>sp_id = ''p1'', sp_sandbox_id = ''s1'', sp_permission = ''shell'', sp_action = ''exec'',
       sp_effect = ''deny'', sp_rules = ''{}'', sp_created_at = 0\<rparr>]\<rparr>\<rparr>"

lemmas demo_zoo_defs = demo_zoo_def demo_world_def demo_sandbox_def create_sandbox_def Let_def


end
