(* ===== verification/Placement.thy ===== *)
theory Placement
  imports Access
begin

section \<open>Platforms and placement\<close>

text \<open>
  \<open>apps/server/platforms.py\<close>, and \<open>place\<close> and \<open>place_vm\<close> of \<open>apps/server/sandbox_api.py\<close>: which hosts
  can run a sandbox, and the one it goes to. Whether a host's Linux engine answers
  (\<open>remote_docker.available\<close>) is asked over the network: the parameter \<open>available\<close>. \<open>max_vms\<close> is the
  limit \<open>MAX_VMS\<close> of each kind of virtual machine.
\<close>

record platform =
  pl_id :: string
  pl_name :: string
  pl_host :: string
  pl_kinds :: "kind list"
  pl_runs :: "string list"
  pl_requirements :: string

definition LINUX_PLATFORM :: platform where
  "LINUX_PLATFORM = \<lparr>pl_id = ''linux'', pl_name = ''Linux'', pl_host = ''Linux server'',
     pl_kinds = [Desktop, Browser, Code], pl_runs = [''linux''],
     pl_requirements = ''Linux Docker engine, or the configured Docker or Kubernetes runtime''\<rparr>"

definition PLATFORMS :: "platform list" where
  "PLATFORMS = [LINUX_PLATFORM,
     \<lparr>pl_id = ''macos'', pl_name = ''macOS'', pl_host = ''Mac'', pl_kinds = [Macos], pl_runs = [''macos'', ''linux''],
      pl_requirements = ''Native macOS: Apple Silicon, macOS 14+, zoovm. Linux desktop/browser/code: a Linux Docker engine.''\<rparr>,
     \<lparr>pl_id = ''windows'', pl_name = ''Windows'', pl_host = ''Windows machine'', pl_kinds = [Windows], pl_runs = [''windows'', ''linux''],
      pl_requirements = ''Native Windows: Windows Pro/Enterprise/Education or Server with Hyper-V. Linux desktop/browser/code: a Linux Docker engine.''\<rparr>]"

definition os_of :: "kind \<Rightarrow> string" where
  "os_of k = (case find (\<lambda>p. k \<in> set (pl_kinds p)) PLATFORMS of None \<Rightarrow> ''linux'' | Some p \<Rightarrow> pl_id p)"

definition parse_capabilities :: "string \<Rightarrow> string list" where
  "parse_capabilities text = filter (\<lambda>c. c \<noteq> []) (split_at (CHR '','') text)"

definition platform_named :: "string \<Rightarrow> platform option" where
  "platform_named i = find (\<lambda>p. pl_id p = i) PLATFORMS"

definition capabilities_of :: "string \<Rightarrow> string res" where
  "capabilities_of p = (case platform_named p of None \<Rightarrow> Inl (KeyError p) | Some pl \<Rightarrow> Inr (join '','' (pl_runs pl)))"

definition strip_right :: "char \<Rightarrow> string \<Rightarrow> string" where
  "strip_right c s = rev (dropWhile (\<lambda>x. x = c) (rev s))"

text \<open>\<open>INSTALL_URL\<close> is the configured address, if there is one.\<close>

definition install_command :: "string option \<Rightarrow> string \<Rightarrow> string \<Rightarrow> string \<Rightarrow> string res" where
  "install_command INSTALL_URL p public_key api_url =
     (if platform_named p = None then Inl (ValueError ''node hosts must be linux, macos or windows'')
      else let source = (if truthy INSTALL_URL then the INSTALL_URL else strip_right (CHR ''/'') api_url @ ''/v1/nodes/install'');
               q = [char_of (39 :: nat)]; d = [char_of (34 :: nat)]
           in if p = ''windows''
              then Inr (''powershell -ExecutionPolicy Bypass -c '' @ d @ ''& ([scriptblock]::Create((irm '' @ source @ ''/install-node.ps1)))'' @
                        '' -Key '' @ q @ public_key @ q @ '' -ControlPlane '' @ q @ api_url @ q @ d)
              else Inr (''curl -fsSL '' @ source @ ''/install.sh | sudo bash -s -- --node --key '' @ q @ public_key @ q @
                        '' --control-plane '' @ q @ api_url @ q))"

subsection \<open>Placement\<close>

definition AUTO :: string where "AUTO = ''auto''"

definition list_servers_by_workspace :: "server tbl \<Rightarrow> string \<Rightarrow> server list" where
  "list_servers_by_workspace t ws = sort_key sv_created_at (filter (\<lambda>s. sv_workspace_id s = ws) t)"

definition get_server :: "server tbl \<Rightarrow> string \<Rightarrow> server option" where
  "get_server t i = find_row (\<lambda>s. sv_id s = i) t"

definition server_of :: "sandbox \<Rightarrow> 'h zoo \<Rightarrow> server option" where
  "server_of s z = (if truthy (s_server_id s) then get_server (w_servers (q_world z)) (the (s_server_id s)) else None)"

definition booted :: "sandbox \<Rightarrow> bool" where
  "booted s \<longleftrightarrow> s_status s = Up \<or> s_status s = Provisioning"

text \<open>The counters \<open>load\<close>, one per host in the hosts' order, and \<open>min(load, key=load.get)\<close>: the first of the least.\<close>

definition load_of :: "(sandbox \<Rightarrow> bool) \<Rightarrow> string list \<Rightarrow> sandbox list \<Rightarrow> (string, nat) dict" where
  "load_of counted ids rows = map (\<lambda>i. (i, length (filter (\<lambda>s. s_server_id s = Some i \<and> counted s) rows))) ids"

fun least :: "(string \<times> nat) \<Rightarrow> (string, nat) dict \<Rightarrow> string \<times> nat" where
  "least best [] = best"
| "least best (x # xs) = least (if snd x < snd best then x else best) xs"

definition platform_title :: "kind \<Rightarrow> string" where
  "platform_title k = (if k = Macos then ''macOS'' else ''Windows'')"

definition place_vm :: "(kind \<Rightarrow> nat) \<Rightarrow> kind \<Rightarrow> string option \<Rightarrow> server list \<Rightarrow> bool \<Rightarrow> 'h zoo \<Rightarrow> string res" where
  "place_vm max_vms k server_id servers queue z =
     (let name = platform_title k; limit = max_vms k
      in case servers of
           [] \<Rightarrow> Inl (HTTPException 400 (''add a '' @ (case platform_named (os_of k) of None \<Rightarrow> [] | Some p \<Rightarrow> pl_host p) @
                   '' under Servers to run '' @ name @ '' sandboxes''))
         | first # rest \<Rightarrow>
             if server_id \<noteq> None \<and> server_id \<noteq> Some AUTO
             then if the server_id \<notin> sv_id ` set servers then Inl (HTTPException 404 (name @ '' server not found''))
                  else Inr (the server_id)
             else let load = load_of (\<lambda>s. s_kind s = k \<and> booted s) (map sv_id servers) (list_all_sandboxes (sbs z));
                      (best, n) = least (hd load) (tl load)
                  in if n \<ge> limit
                     then if k = Macos \<and> queue then Inr best
                          else if k = Macos
                          then Inl (HTTPException 409 (''Mac full: every Mac already runs '' @ py_str (int limit) @
                                 '' macOS VMs, the most Apple allows per Mac. Stop one, add a Mac, or create with queue to wait for room''))
                          else Inl (HTTPException 409 (''every '' @ name @ '' server already runs '' @ py_str (int limit) @ '' VMs''))
                     else Inr best)"

definition place :: "(string \<Rightarrow> bool) \<Rightarrow> (kind \<Rightarrow> nat) \<Rightarrow> string option \<Rightarrow> member \<Rightarrow> kind \<Rightarrow> bool \<Rightarrow> 'h zoo \<Rightarrow> string option res" where
  "place available max_vms server_id u k queue z =
     (let servers = filter (\<lambda>s. os_of k \<in> set (parse_capabilities (sv_capabilities s)))
                      (list_servers_by_workspace (w_servers (q_world z)) (mb_workspace_id u))
      in if in_VMS k then bindr (place_vm max_vms k server_id servers queue z) (\<lambda>i. Inr (Some i))
         else if server_id \<noteq> None \<and> server_id \<noteq> Some AUTO
         then if the server_id \<notin> sv_id ` set servers then Inl (HTTPException 404 ''Linux-capable server not found'')
              else if \<not> available (the server_id)
              then Inl (ZooError ''unavailable'' (''the server'' @ [char_of (39 :: nat)] @ ''s Linux Docker runtime is not ready'')
                     (Some ''Start Docker in Linux-container mode and reconnect zoo-node.''))
              else Inr server_id
         else if server_id = Some AUTO
         then case filter (\<lambda>s. available (sv_id s)) servers of
             [] \<Rightarrow> Inr None
           | ready \<Rightarrow> let load = load_of booted (map sv_id ready) (list_all_sandboxes (sbs z))
                      in Inr (Some (fst (least (hd load) (tl load))))
         else Inr None)"

subsection \<open>Lemmas\<close>

lemma least_spec:
  "least b xs \<in> insert b (set xs) \<and> (\<forall>x \<in> insert b (set xs). snd (least b xs) \<le> snd x)"
proof (induction b xs rule: least.induct)
  case (2 b x xs)
  then show ?case by (cases "snd x < snd b") auto
qed simp

lemma os_of_kinds:
  "os_of Desktop = ''linux''" "os_of Browser = ''linux''" "os_of Code = ''linux''" "os_of Macos = ''macos''" "os_of Windows = ''windows''"
  by (simp_all add: os_of_def PLATFORMS_def LINUX_PLATFORM_def)

lemma least_load:
  assumes "ids \<noteq> []" and "load = load_of counted ids rows" and "least (hd load) (tl load) = (best, n)"
  shows "best \<in> set ids \<and> n = length (filter (\<lambda>s. s_server_id s = Some best \<and> counted s) rows) \<and>
    (\<forall>i \<in> set ids. n \<le> length (filter (\<lambda>s. s_server_id s = Some i \<and> counted s) rows))"
proof -
  have ne: "load \<noteq> []" using assms(1,2) by (simp add: load_of_def)
  then have "insert (hd load) (set (tl load)) = set load" by (cases load) auto
  with least_spec [of "hd load" "tl load"] assms(3) have "(best, n) \<in> set load" "\<forall>x \<in> set load. n \<le> snd x" by auto
  then show ?thesis by (auto simp: assms(2) load_of_def)
qed

text \<open>A host of the workspace that can run the kind, and the virtual machines of the kind on a host.\<close>

definition candidate :: "kind \<Rightarrow> string \<Rightarrow> server tbl \<Rightarrow> string \<Rightarrow> bool" where
  "candidate k ws t i \<longleftrightarrow> (\<exists>s \<in> set t. sv_id s = i \<and> sv_workspace_id s = ws \<and> os_of k \<in> set (parse_capabilities (sv_capabilities s)))"

definition vms_on :: "kind \<Rightarrow> 'h zoo \<Rightarrow> string \<Rightarrow> nat" where
  "vms_on k z i = length (filter (\<lambda>s. s_server_id s = Some i \<and> s_kind s = k \<and> booted s) (list_all_sandboxes (sbs z)))"

subsection \<open>Properties\<close>

text \<open>
  What \<open>capabilities_of\<close> writes for a platform of the table, \<open>parse_capabilities\<close> reads back as the
  systems that platform runs.
\<close>

theorem capabilities_roundtrip:
  assumes "platform_named p = Some pl"
  shows "\<exists>text. capabilities_of p = Inr text \<and> parse_capabilities text = pl_runs pl"
proof -
  have "pl \<in> set PLATFORMS" using assms by (auto simp: platform_named_def find_Some_iff)
  then have "pl_runs pl \<noteq> []" "\<forall>w \<in> set (pl_runs pl). CHR '','' \<notin> set w \<and> w \<noteq> []"
    by (auto simp: PLATFORMS_def LINUX_PLATFORM_def)
  then show ?thesis
    using assms split_at_join [of "pl_runs pl" "CHR '',''"]
    by (simp add: capabilities_of_def parse_capabilities_def)
qed

theorem capabilities_roundtrip_witness:
  "\<exists>text. capabilities_of ''macos'' = Inr text \<and> parse_capabilities text = [''macos'', ''linux'']"
  using capabilities_roundtrip [of "''macos''"] by (simp add: platform_named_def PLATFORMS_def LINUX_PLATFORM_def)


definition demo_mac :: "string \<Rightarrow> server" where
  "demo_mac i = \<lparr>sv_id = i, sv_workspace_id = ''w1'', sv_name = ''Mac'', sv_docker_url = ''ssh://mac'', sv_bind_address = ''mac'',
     sv_created_by = ''u1'', sv_created_at = 0, sv_platform = ''macos'', sv_capabilities = ''macos,linux''\<rparr>"

definition demo_macs :: "unit zoo" where
  "demo_macs = demo_zoo\<lparr>q_world := demo_world\<lparr>w_servers := [demo_mac ''m1'', demo_mac ''m2''],
     w_sandboxes := [demo_sandbox\<lparr>s_kind := Macos, s_server_id := Some ''m1''\<rparr>]\<rparr>\<rparr>"

lemma demo_macs_candidate: "candidate Macos ''w1'' (w_servers (q_world demo_macs)) i \<longleftrightarrow> i = ''m1'' \<or> i = ''m2''"
  by (auto simp: candidate_def demo_macs_def demo_mac_def os_of_kinds parse_capabilities_def)


end
