(* ===== verification/Kms.thy ===== *)
theory Kms
  imports World
begin

section \<open>Wrapping data keys\<close>

text \<open>
  \<open>apps/server/kms.py\<close>: how the data keys that encrypt stored secrets are wrapped and unwrapped. What a
  Fernet token, AWS KMS, Google Cloud KMS and Vault do is a parameter, the record \<open>ciphers\<close>; \<open>ciphers_ok\<close>
  is what the code relies on: what was encrypted under a key decrypts under it. Fernet encryption
  is randomised, so it takes the random bytes as an argument. Text is its UTF-8 bytes, and the
  environment is a record of the variables the code reads.
\<close>

record ciphers =
  f_encrypt :: "string \<Rightarrow> string \<Rightarrow> string \<Rightarrow> string"
  f_decrypt :: "string \<Rightarrow> string \<Rightarrow> string option"
  f_derive :: "string \<Rightarrow> string"
  aws_encrypt :: "string \<Rightarrow> string \<Rightarrow> string \<Rightarrow> string res"
  aws_decrypt :: "string \<Rightarrow> string \<Rightarrow> string res"
  gcp_encrypt :: "string \<Rightarrow> string \<Rightarrow> string res"
  gcp_decrypt :: "string \<Rightarrow> string \<Rightarrow> string res"
  vault_encrypt :: "string \<Rightarrow> string \<Rightarrow> string res"
  vault_decrypt :: "string \<Rightarrow> string \<Rightarrow> string res"

definition ciphers_ok :: "ciphers \<Rightarrow> bool" where
  "ciphers_ok c \<longleftrightarrow>
     (\<forall>k r d. f_decrypt c k (f_encrypt c k r d) = Some d) \<and>
     (\<forall>k region d b. aws_encrypt c k region d = Inr b \<longrightarrow> aws_decrypt c region b = Inr d) \<and>
     (\<forall>k d b. gcp_encrypt c k d = Inr b \<longrightarrow> gcp_decrypt c k b = Inr d) \<and>
     (\<forall>k d b. vault_encrypt c k d = Inr b \<longrightarrow> vault_decrypt c k b = Inr d)"

record kms_env =
  ZOO_SECRETS_KEY :: "string option"
  ZOO_SECRETS_KEY_PREVIOUS :: string
  ZOO_KMS :: string
  AWS_REGION :: "string option"
  AWS_DEFAULT_REGION :: "string option"

text \<open>\<open>MultiFernet\<close>: the first key encrypts, and each in turn is tried to decrypt.\<close>

definition local_fernet :: "ciphers \<Rightarrow> kms_env \<Rightarrow> string list res" where
  "local_fernet c env =
     (case ZOO_SECRETS_KEY env of
        None \<Rightarrow> Inl (KeyError ''ZOO_SECRETS_KEY'')
      | Some k \<Rightarrow> Inr (map (f_derive c)
          (rev (remdups (rev (k # filter (\<lambda>x. x \<noteq> []) (split_at (CHR '','') (ZOO_SECRETS_KEY_PREVIOUS env))))))))"

fun multi_decrypt :: "ciphers \<Rightarrow> string list \<Rightarrow> string \<Rightarrow> string res" where
  "multi_decrypt c [] token = Inl InvalidToken"
| "multi_decrypt c (k # ks) token = (case f_decrypt c k token of Some d \<Rightarrow> Inr d | None \<Rightarrow> multi_decrypt c ks token)"

definition aws_region :: "kms_env \<Rightarrow> string \<Rightarrow> string res" where
  "aws_region env key =
     (if take 4 key = ''arn:'' then py_nth (split_at (CHR '':'') key) 3
      else case (AWS_REGION env, AWS_DEFAULT_REGION env) of
          (Some (r # rs), _) \<Rightarrow> Inr (r # rs)
        | (_, Some (r # rs)) \<Rightarrow> Inr (r # rs)
        | _ \<Rightarrow> Inl (RuntimeError (''set AWS_REGION, or give ZOO_KMS the key'' @ [char_of (39 :: nat)] @ ''s full ARN'')))"

definition wrap :: "ciphers \<Rightarrow> kms_env \<Rightarrow> string \<Rightarrow> string \<Rightarrow> string res" where
  "wrap c env rnd data_key =
     (let setting = strip (ZOO_KMS env)
      in if setting = [] then bindr (local_fernet c env) (\<lambda>ks. Inr (''local:'' @ f_encrypt c (hd ks) rnd data_key))
         else let (provider, _, key) = partition_at (CHR '':'') setting
              in if provider = ''aws''
                 then bindr (aws_region env key) (\<lambda>region.
                      bindr (aws_encrypt c key region data_key) (\<lambda>blob. Inr (''aws:'' @ region @ '':'' @ blob)))
                 else if provider = ''gcp''
                 then bindr (gcp_encrypt c key data_key) (\<lambda>x. Inr (''gcp:'' @ key @ '':'' @ x))
                 else if provider = ''vault''
                 then bindr (vault_encrypt c key data_key) (\<lambda>x. Inr (''vault:'' @ key @ '':'' @ x))
                 else Inl (RuntimeError (''ZOO_KMS must start with aws:, gcp: or vault:, not '' @ py_repr setting)))"

definition unwrap :: "ciphers \<Rightarrow> kms_env \<Rightarrow> string \<Rightarrow> string res" where
  "unwrap c env wrapped =
     (let (provider, _, rest) = partition_at (CHR '':'') wrapped
      in if provider = ''local'' then bindr (local_fernet c env) (\<lambda>ks. multi_decrypt c ks rest)
         else let (whr, _, ciphertext) = partition_at (CHR '':'') rest
              in if provider = ''aws'' then aws_decrypt c whr ciphertext
                 else if provider = ''gcp'' then gcp_decrypt c whr ciphertext
                 else if provider = ''vault'' then vault_decrypt c whr ciphertext
                 else Inl (RuntimeError (''a data key was wrapped by '' @ py_repr provider @ '', which this API doesn'' @
                        [char_of (39 :: nat)] @ ''t know'')))"

subsection \<open>A wrapped key opens again\<close>

text \<open>The part of the setting before the ciphertext has no colon, as the code's comment says.\<close>

definition kms_env_ok :: "kms_env \<Rightarrow> bool" where
  "kms_env_ok env \<longleftrightarrow> (case partition_at (CHR '':'') (strip (ZOO_KMS env)) of (provider, _, key) \<Rightarrow>
     (provider = ''gcp'' \<or> provider = ''vault'' \<longrightarrow> CHR '':'' \<notin> set key) \<and>
     (provider = ''aws'' \<longrightarrow> (\<forall>region. aws_region env key = Inr region \<longrightarrow> CHR '':'' \<notin> set region)))"

lemma last_remdups_snoc: "last (remdups (xs @ [x])) = x"
  by (induction xs) auto

lemma local_fernet_hd:
  assumes "local_fernet c env = Inr ks"
  shows "\<exists>k. ZOO_SECRETS_KEY env = Some k \<and> ks \<noteq> [] \<and> hd ks = f_derive c k"
proof -
  obtain k where k: "ZOO_SECRETS_KEY env = Some k"
    using assms by (auto simp: local_fernet_def split: option.splits)
  let ?xs = "rev (filter (\<lambda>x. x \<noteq> []) (split_at (CHR '','') (ZOO_SECRETS_KEY_PREVIOUS env)))"
  have ks: "ks = map (f_derive c) (rev (remdups (?xs @ [k])))"
    using assms k by (simp add: local_fernet_def)
  have "remdups (?xs @ [k]) \<noteq> []" by (simp add: remdups_eq_nil_iff)
  then show ?thesis by (simp add: k ks hd_map hd_rev last_remdups_snoc)
qed

lemma multi_decrypt_hd:
  "ks \<noteq> [] \<Longrightarrow> f_decrypt c (hd ks) token = Some d \<Longrightarrow> multi_decrypt c ks token = Inr d"
  by (cases ks) auto

lemma unwrap_wrap:
  assumes ok: "ciphers_ok c" "kms_env_ok env" and w: "wrap c env rnd dk = Inr wrapped"
    and same: "ZOO_SECRETS_KEY env' = ZOO_SECRETS_KEY env"
  shows "unwrap c env' wrapped = Inr dk"
proof (cases "strip (ZOO_KMS env) = []")
  case True
  then obtain ks where ks: "local_fernet c env = Inr ks" "wrapped = ''local:'' @ f_encrypt c (hd ks) rnd dk"
    using w by (auto simp: wrap_def)
  obtain k where k: "ZOO_SECRETS_KEY env = Some k" "hd ks = f_derive c k" using local_fernet_hd [OF ks(1)] by auto
  obtain ks' where ks': "local_fernet c env' = Inr ks'" using same k by (auto simp: local_fernet_def)
  have "ks' \<noteq> []" "hd ks' = hd ks" using local_fernet_hd [OF ks'] same k by auto
  then have "multi_decrypt c ks' (f_encrypt c (hd ks) rnd dk) = Inr dk"
    using ok(1) by (intro multi_decrypt_hd) (auto simp: ciphers_ok_def)
  then show ?thesis by (simp add: unwrap_def ks(2) ks')
next
  case False
  obtain provider b key where p: "partition_at (CHR '':'') (strip (ZOO_KMS env)) = (provider, b, key)"
    by (cases "partition_at (CHR '':'') (strip (ZOO_KMS env))") auto
  have "partition_at (CHR '':'') (r @ CHR '':'' # x) = (r, True, x)" if "CHR '':'' \<notin> set r" for r x
    using that by (rule partition_at_append)
  with False p w ok show ?thesis
    by (auto simp: wrap_def unwrap_def Let_def kms_env_ok_def ciphers_ok_def split: if_splits)
qed

end
