(* ===== verification/Security.thy ===== *)
theory Security
  imports Kms Auth "HOL-Library.Sublist"
begin

section \<open>Stored secrets\<close>

text \<open>
  \<open>apps/server/security.py\<close>: envelope encryption with a data key per workspace, the secret values of a
  sandbox, what is masked in tool output, the rotation of the data keys and the audit rows. The
  random bytes and ids a call draws are its \<open>entropy\<close>. A call that fails leaves the cache of data
  keys as it was; what the cache holds is what \<open>unwrap\<close> gives, so it only saves the unwrapping.
\<close>

record entropy =
  en_id :: string
  en_data_key :: string
  en_wrap :: string
  en_token :: string
  en_password :: string

definition ENVELOPE :: string where "ENVELOPE = ''zk1:''"
definition SYSTEM :: string where "SYSTEM = ''system''"
definition REDACTED :: string where "REDACTED = ''[redacted]''"
definition MIN_REDACT_LENGTH :: nat where "MIN_REDACT_LENGTH = 6"
definition VNC_PASSWORD :: string where "VNC_PASSWORD = ''vnc_password''"
definition APP_ACTION :: string where "APP_ACTION = ''launch''"

subsection \<open>Queries\<close>

definition get_secret_key :: "secret_key tbl \<Rightarrow> string \<Rightarrow> secret_key option" where
  "get_secret_key t i = find_row (\<lambda>k. sk_id k = i) t"

definition get_secret_key_by_scope :: "secret_key tbl \<Rightarrow> string \<Rightarrow> secret_key option" where
  "get_secret_key_by_scope t scope = find_row (\<lambda>k. sk_scope k = scope) t"

text \<open>\<open>ON CONFLICT (scope) DO NOTHING\<close>.\<close>

definition create_secret_key :: "time \<Rightarrow> string \<Rightarrow> string \<Rightarrow> string \<Rightarrow> secret_key tbl \<Rightarrow> secret_key tbl" where
  "create_secret_key now i scope wrapped t =
     (if get_secret_key_by_scope t scope \<noteq> None then t
      else t @ [\<lparr>sk_id = i, sk_scope = scope, sk_wrapped = wrapped, sk_created_at = now, sk_rotated_at = None\<rparr>])"

definition rewrap_secret_key :: "time \<Rightarrow> string \<Rightarrow> string \<Rightarrow> secret_key tbl \<Rightarrow> secret_key tbl" where
  "rewrap_secret_key now wrapped i t =
     update_where (\<lambda>k. sk_id k = i) (\<lambda>k. k\<lparr>sk_wrapped := wrapped, sk_rotated_at := Some now\<rparr>) t"

definition list_sandbox_vault_secrets :: "'h world \<Rightarrow> string \<Rightarrow> vault_secret list" where
  "list_sandbox_vault_secrets w sandbox_id =
     sort_key vs_name (concat (map (\<lambda>g. filter (\<lambda>v. vs_id v = vg_secret_id g) (w_secrets w))
       (filter (\<lambda>g. vg_sandbox_id g = sandbox_id) (w_grants w))))"

definition list_sandbox_secrets :: "sandbox_secret tbl \<Rightarrow> string \<Rightarrow> sandbox_secret list" where
  "list_sandbox_secrets t sandbox_id = sort_key se_name (filter (\<lambda>r. se_sandbox_id r = sandbox_id) t)"

definition get_sandbox_secret :: "sandbox_secret tbl \<Rightarrow> string \<Rightarrow> sandbox_secret option" where
  "get_sandbox_secret t i = find_row (\<lambda>r. se_id r = i) t"

definition mark_vault_secret_used :: "time \<Rightarrow> string \<Rightarrow> vault_secret tbl \<Rightarrow> vault_secret tbl" where
  "mark_vault_secret_used now i t = update_where (\<lambda>v. vs_id v = i) (\<lambda>v. v\<lparr>vs_last_used_at := Some now\<rparr>) t"

definition mark_sandbox_vault_secrets_used :: "time \<Rightarrow> string \<Rightarrow> vault_grant tbl \<Rightarrow> vault_grant tbl" where
  "mark_sandbox_vault_secrets_used now sandbox_id t =
     update_where (\<lambda>g. vg_sandbox_id g = sandbox_id) (\<lambda>g. g\<lparr>vg_last_used_at := Some now\<rparr>) t"

definition create_audit_log :: "time \<Rightarrow> string \<Rightarrow> string \<Rightarrow> string option \<Rightarrow> string option \<Rightarrow> string \<Rightarrow> string \<Rightarrow> string option \<Rightarrow>
    (string, json) dict \<Rightarrow> audit_row list \<Rightarrow> audit_row list" where
  "create_audit_log now i workspace_id actor_id sandbox_id action resource_type resource_id metadata t =
     t @ [\<lparr>au_id = i, au_workspace_id = workspace_id, au_actor_id = actor_id, au_sandbox_id = sandbox_id, au_action = action,
           au_resource_type = resource_type, au_resource_id = resource_id, au_metadata = metadata, au_created_at = now\<rparr>]"

subsection \<open>Envelope encryption\<close>

definition cached_key :: "ciphers \<Rightarrow> kms_env \<Rightarrow> secret_key \<Rightarrow> 'h world \<Rightarrow> (string \<times> 'h world) res" where
  "cached_key c env row w =
     (case dict_get (w_data_keys w) (sk_id row) of
        Some k \<Rightarrow> Inr (k, w)
      | None \<Rightarrow> bindr (unwrap c env (sk_wrapped row)) (\<lambda>k.
          Inr (k, w\<lparr>w_data_keys := dict_set (sk_id row) k (w_data_keys w)\<rparr>)))"

definition data_key :: "ciphers \<Rightarrow> kms_env \<Rightarrow> entropy \<Rightarrow> time \<Rightarrow> string \<Rightarrow> 'h world \<Rightarrow> ((string \<times> string) \<times> 'h world) res" where
  "data_key c env en now scope w =
     bindr (case get_secret_key_by_scope (w_secret_keys w) scope of
              Some row \<Rightarrow> Inr (row, w)
            | None \<Rightarrow> bindr (wrap c env (en_wrap en) (en_data_key en)) (\<lambda>wrapped.
                let w1 = w\<lparr>w_secret_keys := create_secret_key now (en_id en) scope wrapped (w_secret_keys w)\<rparr>
                in case get_secret_key_by_scope (w_secret_keys w1) scope of
                     None \<Rightarrow> Inl AssertionError | Some row \<Rightarrow> Inr (row, w1)))
       (\<lambda>(row, w1). bindr (cached_key c env row w1) (\<lambda>(k, w2). Inr ((sk_id row, k), w2)))"

definition data_key_by_id :: "ciphers \<Rightarrow> kms_env \<Rightarrow> string \<Rightarrow> 'h world \<Rightarrow> (string \<times> 'h world) res" where
  "data_key_by_id c env key_id w =
     (case dict_get (w_data_keys w) key_id of
        Some k \<Rightarrow> Inr (k, w)
      | None \<Rightarrow> (case get_secret_key (w_secret_keys w) key_id of
          None \<Rightarrow> Inl InvalidToken
        | Some row \<Rightarrow> bindr (unwrap c env (sk_wrapped row)) (\<lambda>k.
            Inr (k, w\<lparr>w_data_keys := dict_set key_id k (w_data_keys w)\<rparr>))))"

definition encrypt :: "ciphers \<Rightarrow> kms_env \<Rightarrow> entropy \<Rightarrow> time \<Rightarrow> string \<Rightarrow> string \<Rightarrow> 'h world \<Rightarrow> (string \<times> 'h world) res" where
  "encrypt c env en now data scope w =
     bindr (data_key c env en now scope w) (\<lambda>((key_id, k), w').
       Inr (ENVELOPE @ key_id @ '':'' @ f_encrypt c k (en_token en) data, w'))"

definition open_token :: "ciphers \<Rightarrow> string \<Rightarrow> string \<times> 'h world \<Rightarrow> (string \<times> 'h world) res" where
  "open_token c rest kw = (case f_decrypt c (fst kw) rest of None \<Rightarrow> Inl InvalidToken | Some d \<Rightarrow> Inr (d, snd kw))"

definition decrypt :: "ciphers \<Rightarrow> kms_env \<Rightarrow> string \<Rightarrow> 'h world \<Rightarrow> (string \<times> 'h world) res" where
  "decrypt c env token w =
     (let (key_id, _, rest) = partition_at (CHR '':'') (drop (length ENVELOPE) token)
      in bindr (data_key_by_id c env key_id w) (open_token c rest))"

definition decrypt_async :: "ciphers \<Rightarrow> kms_env \<Rightarrow> string \<Rightarrow> 'h world \<Rightarrow> (string \<times> 'h world) res" where
  "decrypt_async c env token w =
     (if take 4 token \<noteq> ''zk1:'' then Inl InvalidToken
      else let (key_id, found, rest) = partition_at (CHR '':'') (drop 4 token)
           in if \<not> found then Inl (ValueError ''not enough values to unpack (expected 2, got 1)'')
              else bindr (data_key_by_id c env key_id w) (open_token c rest))"

text \<open>\<open>rotate\<close>: a random value per key for the new wrapping.\<close>

fun rotate_rows :: "ciphers \<Rightarrow> kms_env \<Rightarrow> (string \<Rightarrow> string) \<Rightarrow> time \<Rightarrow> secret_key list \<Rightarrow> 'h world \<Rightarrow> 'h world res" where
  "rotate_rows c env rnd now [] w = Inr w"
| "rotate_rows c env rnd now (row # rows) w =
     bindr (unwrap c env (sk_wrapped row)) (\<lambda>k.
     bindr (wrap c env (rnd (sk_id row)) k) (\<lambda>wrapped.
       rotate_rows c env rnd now rows (w\<lparr>w_secret_keys := rewrap_secret_key now wrapped (sk_id row) (w_secret_keys w),
         w_data_keys := dict_pop (sk_id row) (w_data_keys w)\<rparr>)))"

definition rotate :: "ciphers \<Rightarrow> kms_env \<Rightarrow> (string \<Rightarrow> string) \<Rightarrow> time \<Rightarrow> 'h world \<Rightarrow> (nat \<times> 'h world) res" where
  "rotate c env rnd now w =
     bindr (rotate_rows c env rnd now (w_secret_keys w) w) (\<lambda>w'. Inr (length (w_secret_keys w), w'))"

subsection \<open>A sandbox's secrets\<close>

fun decrypt_into :: "ciphers \<Rightarrow> kms_env \<Rightarrow> (string \<times> string) list \<Rightarrow> (string, string) dict \<Rightarrow> 'h world \<Rightarrow>
    ((string, string) dict \<times> 'h world) res" where
  "decrypt_into c env [] acc w = Inr (acc, w)"
| "decrypt_into c env ((name, token) # rows) acc w =
     bindr (decrypt c env token w) (\<lambda>(v, w'). decrypt_into c env rows (dict_set name v acc) w')"

definition secret_values :: "ciphers \<Rightarrow> kms_env \<Rightarrow> string \<Rightarrow> 'h world \<Rightarrow> ((string, string) dict \<times> 'h world) res" where
  "secret_values c env sandbox_id w =
     decrypt_into c env
       (map (\<lambda>v. (vs_name v, vs_ciphertext v)) (list_sandbox_vault_secrets w sandbox_id) @
        map (\<lambda>r. (se_name r, case get_sandbox_secret (w_sandbox_secrets w) (se_id r) of None \<Rightarrow> [] | Some x \<Rightarrow> se_secret_ref x))
          (filter se_enabled (list_sandbox_secrets (w_sandbox_secrets w) sandbox_id))) [] w"

definition secret_env :: "ciphers \<Rightarrow> kms_env \<Rightarrow> time \<Rightarrow> string \<Rightarrow> 'h world \<Rightarrow> ((string, string) dict \<times> 'h world) res" where
  "secret_env c env now sandbox_id w =
     secret_values c env sandbox_id
       (w\<lparr>w_secrets := fold (\<lambda>v. mark_vault_secret_used now (vs_id v)) (list_sandbox_vault_secrets w sandbox_id) (w_secrets w),
          w_grants := mark_sandbox_vault_secrets_used now sandbox_id (w_grants w)\<rparr>)"

definition remember_secrets :: "string \<Rightarrow> string list \<Rightarrow> 'h world \<Rightarrow> 'h world" where
  "remember_secrets sandbox_id values w =
     w\<lparr>w_booted := dict_set sandbox_id values (w_booted w), w_attached := dict_pop sandbox_id (w_attached w)\<rparr>"

definition forget_secrets :: "string \<Rightarrow> 'h world \<Rightarrow> 'h world" where
  "forget_secrets sandbox_id w =
     w\<lparr>w_booted := dict_pop sandbox_id (w_booted w), w_attached := dict_pop sandbox_id (w_attached w)\<rparr>"

definition secrets_changed :: "string option \<Rightarrow> 'h world \<Rightarrow> 'h world" where
  "secrets_changed sandbox_id w =
     (case sandbox_id of None \<Rightarrow> w\<lparr>w_attached := []\<rparr> | Some i \<Rightarrow> w\<lparr>w_attached := dict_pop i (w_attached w)\<rparr>)"

definition stored_password :: "sandbox \<Rightarrow> string option" where
  "stored_password s = (case dict_get (s_config s) VNC_PASSWORD of Some (JStr p) \<Rightarrow> if p = [] then None else Some p | _ \<Rightarrow> None)"

definition redaction_values :: "ciphers \<Rightarrow> kms_env \<Rightarrow> sandbox \<Rightarrow> 'h world \<Rightarrow> (string list \<times> 'h world) res" where
  "redaction_values c env s w =
     bindr (case dict_get (w_attached w) (s_id s) of
              Some a \<Rightarrow> Inr (a, w)
            | None \<Rightarrow>
                bindr (secret_values c env (s_id s) w) (\<lambda>(vs, w1).
                bindr (case stored_password s of
                         None \<Rightarrow> Inr (map snd vs, w1)
                       | Some p \<Rightarrow> bindr (decrypt c env p w1) (\<lambda>(v, w2). Inr (map snd vs @ [v], w2))) (\<lambda>(a, w3).
                  Inr (a, w3\<lparr>w_attached := dict_set (s_id s) a (w_attached w3)\<rparr>))))
       (\<lambda>(a, w'). Inr ((case dict_get (w_booted w') (s_id s) of None \<Rightarrow> [] | Some b \<Rightarrow> b) @ a, w'))"

definition vnc_password :: "ciphers \<Rightarrow> kms_env \<Rightarrow> sandbox \<Rightarrow> 'h world \<Rightarrow> (string \<times> 'h world) res" where
  "vnc_password c env s w =
     (case stored_password s of
        None \<Rightarrow> Inl (RuntimeError ''the sandbox has no VNC password; restart the sandbox'')
      | Some p \<Rightarrow> decrypt c env p w)"

definition ensure_vnc_password :: "ciphers \<Rightarrow> kms_env \<Rightarrow> entropy \<Rightarrow> time \<Rightarrow> sandbox \<Rightarrow> 'h world \<Rightarrow> (string \<times> 'h world) res" where
  "ensure_vnc_password c env en now s w =
     (case dict_get (s_config s) VNC_PASSWORD of
        Some v \<Rightarrow> decrypt c env (case v of JStr p \<Rightarrow> p | _ \<Rightarrow> []) w
      | None \<Rightarrow>
          bindr (encrypt c env en now (en_password en) (s_workspace_id s) w) (\<lambda>(token, w1).
            decrypt c env token (w1\<lparr>w_sandboxes := update_sandbox now (s_name s) (s_resources s)
              (dict_set VNC_PASSWORD (JStr token) (s_config s)) (s_id s) (w_sandboxes w1)\<rparr>)))"

definition audit :: "time \<Rightarrow> string \<Rightarrow> member \<Rightarrow> string \<Rightarrow> string \<Rightarrow> string option \<Rightarrow> string option \<Rightarrow> (string, json) dict \<Rightarrow>
    'h world \<Rightarrow> 'h world" where
  "audit now i u action resource_type resource_id sandbox_id metadata w =
     w\<lparr>w_audit := create_audit_log now i (mb_workspace_id u) (Some (mb_id u)) sandbox_id action resource_type resource_id
       metadata (w_audit w)\<rparr>"

subsection \<open>Redaction\<close>

text \<open>\<open>str.replace\<close>: every occurrence from the left, none overlapping.\<close>

function replace :: "string \<Rightarrow> string \<Rightarrow> string \<Rightarrow> string" where
  "replace s r [] = []"
| "replace s r (x # xs) =
     (if s \<noteq> [] \<and> take (length s) (x # xs) = s then r @ replace s r (drop (length s) (x # xs))
      else x # replace s r xs)"
  by pat_completeness auto
termination by (relation "measure (\<lambda>(s, r, v). length v)") (auto simp: length_greater_0_conv [symmetric] simp del: length_greater_0_conv)

definition long_secrets :: "string list \<Rightarrow> string list" where
  "long_secrets secrets = rev (sort_key length (rev (filter (\<lambda>s. MIN_REDACT_LENGTH \<le> length s) secrets)))"

definition redact_text :: "string list \<Rightarrow> string \<Rightarrow> string" where
  "redact_text secrets v = fold (\<lambda>s. replace s REDACTED) secrets v"

fun walk :: "string list \<Rightarrow> json \<Rightarrow> json" where
  "walk secrets (JStr v) = JStr (redact_text secrets v)"
| "walk secrets (JObj kvs) = JObj (map (\<lambda>(k, v). (k, walk secrets v)) kvs)"
| "walk secrets (JList vs) = JList (map (walk secrets) vs)"
| "walk secrets v = v"

definition redact :: "json \<Rightarrow> string list \<Rightarrow> json" where
  "redact v secrets = (let long = long_secrets secrets in if long = [] then v else walk long v)"

subsection \<open>Lemmas\<close>

interpretation secret_keys: keyed_table sk_id get_secret_key
  by unfold_locales (simp add: get_secret_key_def)

text \<open>
  The keys are in order: each has an id of its own, without a colon (they are UUIDs), and the cache
  holds what the stored keys unwrap to. \<open>reads\<close> is what a token says when it is read without the cache.
\<close>

definition keys_ok :: "ciphers \<Rightarrow> kms_env \<Rightarrow> 'h world \<Rightarrow> bool" where
  "keys_ok c env w \<longleftrightarrow> distinct (map sk_id (w_secret_keys w)) \<and> (\<forall>r \<in> set (w_secret_keys w). CHR '':'' \<notin> set (sk_id r)) \<and>
     (\<forall>i k. dict_get (w_data_keys w) i = Some k \<longrightarrow>
        (\<exists>r. get_secret_key (w_secret_keys w) i = Some r \<and> unwrap c env (sk_wrapped r) = Inr k))"

definition reads :: "ciphers \<Rightarrow> kms_env \<Rightarrow> 'h world \<Rightarrow> string \<Rightarrow> string \<Rightarrow> bool" where
  "reads c env w token v \<longleftrightarrow> (case partition_at (CHR '':'') (drop (length ENVELOPE) token) of (key_id, _, rest) \<Rightarrow>
     \<exists>r k. get_secret_key (w_secret_keys w) key_id = Some r \<and> unwrap c env (sk_wrapped r) = Inr k \<and>
       f_decrypt c k rest = Some v)"

lemma open_token_Inr [simp]: "open_token c rest (k, w) = Inr (v, w') \<longleftrightarrow> f_decrypt c k rest = Some v \<and> w' = w"
  by (auto simp: open_token_def split: option.splits)

lemma decrypt_reads:
  assumes "keys_ok c env w"
  shows "(\<exists>w'. decrypt c env token w = Inr (v, w')) \<longleftrightarrow> reads c env w token v"
proof -
  obtain key_id b rest where p: "partition_at (CHR '':'') (drop (length ENVELOPE) token) = (key_id, b, rest)"
    by (cases "partition_at (CHR '':'') (drop (length ENVELOPE) token)") auto
  show ?thesis
  proof (cases "dict_get (w_data_keys w) key_id")
    case None
    then show ?thesis
      by (auto simp: p decrypt_def reads_def data_key_by_id_def split: option.splits)
  next
    case (Some k)
    then obtain r where "get_secret_key (w_secret_keys w) key_id = Some r" "unwrap c env (sk_wrapped r) = Inr k"
      using assms unfolding keys_ok_def by blast
    with Some show ?thesis
      by (auto simp: p decrypt_def reads_def data_key_by_id_def split: option.splits)
  qed
qed

lemma keys_ok_cache:
  assumes "keys_ok c env w" and "get_secret_key (w_secret_keys w) i = Some r" and "unwrap c env (sk_wrapped r) = Inr k"
  shows "keys_ok c env (w\<lparr>w_data_keys := dict_set i k (w_data_keys w)\<rparr>)"
  using assms by (auto simp: keys_ok_def update_conv')

lemma cached_keyD:
  assumes "keys_ok c env w" and "get_secret_key (w_secret_keys w) (sk_id row) = Some row"
    and "cached_key c env row w = Inr (k, w')"
  shows "unwrap c env (sk_wrapped row) = Inr k \<and> w_secret_keys w' = w_secret_keys w \<and> keys_ok c env w'"
proof (cases "dict_get (w_data_keys w) (sk_id row)")
  case None
  then show ?thesis using assms keys_ok_cache [OF assms(1,2)] by (auto simp: cached_key_def)
next
  case (Some k')
  then have "unwrap c env (sk_wrapped row) = Inr k'" using assms(1,2) unfolding keys_ok_def by fastforce
  then show ?thesis using assms Some by (auto simp: cached_key_def)
qed

lemma keys_ok_create:
  assumes "keys_ok c env w" and "i \<notin> sk_id ` set (w_secret_keys w)" and "CHR '':'' \<notin> set i"
    and "get_secret_key_by_scope (w_secret_keys w) scope = None"
  shows "keys_ok c env (w\<lparr>w_secret_keys := create_secret_key now i scope wrapped (w_secret_keys w)\<rparr>)"
proof -
  have "get_secret_key (w_secret_keys w) j = Some r \<Longrightarrow>
      get_secret_key (create_secret_key now i scope wrapped (w_secret_keys w)) j = Some r" for j r
    by (simp add: create_secret_key_def assms(4) secret_keys.lookup_append)
  with assms show ?thesis
    unfolding keys_ok_def by (auto simp: create_secret_key_def) blast
qed

text \<open>The key that a scope encrypts with: its row is there, and unwraps to it.\<close>

lemma data_keyD:
  assumes ok: "keys_ok c env w" and fresh: "en_id en \<notin> sk_id ` set (w_secret_keys w)" "CHR '':'' \<notin> set (en_id en)"
    and d: "data_key c env en now scope w = Inr ((i, k), w')"
  shows "\<exists>r. get_secret_key (w_secret_keys w') i = Some r \<and> unwrap c env (sk_wrapped r) = Inr k \<and>
    CHR '':'' \<notin> set i \<and> keys_ok c env w'"
proof -
  obtain row w1 where row: "get_secret_key_by_scope (w_secret_keys w1) scope = Some row" "keys_ok c env w1"
    "cached_key c env row w1 = Inr (k, w')" "i = sk_id row"
  proof (cases "get_secret_key_by_scope (w_secret_keys w) scope")
    case None
    then obtain x row where x: "get_secret_key_by_scope (create_secret_key now (en_id en) scope x (w_secret_keys w)) scope = Some row"
      "cached_key c env row (w\<lparr>w_secret_keys := create_secret_key now (en_id en) scope x (w_secret_keys w)\<rparr>) = Inr (k, w')" "i = sk_id row"
      using d by (auto simp: data_key_def Let_def split: option.splits)
    show thesis by (rule that [OF _ keys_ok_create [OF ok fresh None] x(2,3)]) (simp add: x(1))
  next
    case (Some row)
    then show thesis using that [of w row] d ok by (auto simp: data_key_def)
  qed
  have mem: "row \<in> set (w_secret_keys w1)"
    using find_row_SomeD [OF row(1) [unfolded get_secret_key_by_scope_def]] by simp
  with row(2) have g: "get_secret_key (w_secret_keys w1) (sk_id row) = Some row"
    by (auto simp: keys_ok_def intro: secret_keys.lookup_unique)
  from cached_keyD [OF row(2) g row(3)] show ?thesis
    using g mem row(2,4) by (auto simp: keys_ok_def)
qed

lemma rotate_rowsD:
  assumes "rotate_rows c env rnd now rows w = Inr w'" and "distinct (map sk_id rows)"
  shows "(\<forall>i. i \<notin> sk_id ` set rows \<longrightarrow> get_secret_key (w_secret_keys w') i = get_secret_key (w_secret_keys w) i \<and>
        dict_get (w_data_keys w') i = dict_get (w_data_keys w) i) \<and>
    (\<forall>row \<in> set rows. dict_get (w_data_keys w') (sk_id row) = None \<and> (\<exists>k x. unwrap c env (sk_wrapped row) = Inr k \<and>
        wrap c env (rnd (sk_id row)) k = Inr x \<and>
        get_secret_key (w_secret_keys w') (sk_id row) =
          map_option (\<lambda>r. r\<lparr>sk_wrapped := x, sk_rotated_at := Some now\<rparr>) (get_secret_key (w_secret_keys w) (sk_id row))))"
  using assms
proof (induction rows arbitrary: w)
  case (Cons row rows)
  from Cons.prems(1) obtain k x where kx: "unwrap c env (sk_wrapped row) = Inr k" "wrap c env (rnd (sk_id row)) k = Inr x"
    and rest: "rotate_rows c env rnd now rows (w\<lparr>w_secret_keys := rewrap_secret_key now x (sk_id row) (w_secret_keys w),
         w_data_keys := dict_pop (sk_id row) (w_data_keys w)\<rparr>) = Inr w'"
    by auto
  have get: "get_secret_key (rewrap_secret_key now x (sk_id row) (w_secret_keys w)) j =
      map_option (\<lambda>r. if sk_id r = sk_id row then r\<lparr>sk_wrapped := x, sk_rotated_at := Some now\<rparr> else r)
        (get_secret_key (w_secret_keys w) j)" for j
    by (simp add: rewrap_secret_key_def secret_keys.lookup_update)
  have other: "map_option (\<lambda>r. if sk_id r = sk_id row then r\<lparr>sk_wrapped := x, sk_rotated_at := Some now\<rparr> else r)
        (get_secret_key (w_secret_keys w) j) = get_secret_key (w_secret_keys w) j" if "j \<noteq> sk_id row" for j
    using that by (cases "get_secret_key (w_secret_keys w) j") (auto dest: secret_keys.lookup_key)
  have same: "map_option (\<lambda>r. if sk_id r = sk_id row then r\<lparr>sk_wrapped := x, sk_rotated_at := Some now\<rparr> else r)
        (get_secret_key (w_secret_keys w) (sk_id row)) =
      map_option (\<lambda>r. r\<lparr>sk_wrapped := x, sk_rotated_at := Some now\<rparr>) (get_secret_key (w_secret_keys w) (sk_id row))"
    by (cases "get_secret_key (w_secret_keys w) (sk_id row)") (auto dest: secret_keys.lookup_key)
  have nin: "sk_id row \<notin> sk_id ` set rows" using Cons.prems(2) by simp
  have ih: "(\<forall>i. i \<notin> sk_id ` set rows \<longrightarrow>
        get_secret_key (w_secret_keys w') i = get_secret_key (rewrap_secret_key now x (sk_id row) (w_secret_keys w)) i \<and>
        dict_get (w_data_keys w') i = dict_get (dict_pop (sk_id row) (w_data_keys w)) i) \<and>
    (\<forall>row' \<in> set rows. dict_get (w_data_keys w') (sk_id row') = None \<and> (\<exists>k x'. unwrap c env (sk_wrapped row') = Inr k \<and>
        wrap c env (rnd (sk_id row')) k = Inr x' \<and>
        get_secret_key (w_secret_keys w') (sk_id row') = map_option (\<lambda>r. r\<lparr>sk_wrapped := x', sk_rotated_at := Some now\<rparr>)
          (get_secret_key (rewrap_secret_key now x (sk_id row) (w_secret_keys w)) (sk_id row'))))"
    using Cons.IH [OF rest] Cons.prems(2) by simp
  have "sk_id row' \<noteq> sk_id row" if "row' \<in> set rows" for row' using that nin by (metis image_eqI)
  with ih nin kx show ?case by (auto simp: get other same)
qed simp

lemma rotate_rows_ids:
  "rotate_rows c env rnd now rows w = Inr w' \<Longrightarrow> map sk_id (w_secret_keys w') = map sk_id (w_secret_keys w)"
proof (induction rows arbitrary: w)
  case (Cons row rows)
  then obtain x where "rotate_rows c env rnd now rows (w\<lparr>w_secret_keys := rewrap_secret_key now x (sk_id row) (w_secret_keys w),
         w_data_keys := dict_pop (sk_id row) (w_data_keys w)\<rparr>) = Inr w'"
    by auto
  from Cons.IH [OF this] show ?case by (simp add: rewrap_secret_key_def secret_keys.keys_update)
qed simp

lemma rotate_reads:
  assumes ok: "ciphers_ok c" "kms_env_ok env" "keys_ok c env w"
    and same: "ZOO_SECRETS_KEY env' = ZOO_SECRETS_KEY env"
    and rot: "rotate c env rnd now w = Inr (n, w')" and r: "reads c env w token v"
  shows "keys_ok c env' w' \<and> reads c env' w' token v"
proof -
  from rot have rr: "rotate_rows c env rnd now (w_secret_keys w) w = Inr w'" by (auto simp: rotate_def)
  have d: "distinct (map sk_id (w_secret_keys w))" using ok(3) by (simp add: keys_ok_def)
  note R = rotate_rowsD [OF rr d]
  have row: "\<exists>r'. get_secret_key (w_secret_keys w') i = Some r' \<and> sk_id r' = i \<and> unwrap c env' (sk_wrapped r') = Inr k"
    if g: "get_secret_key (w_secret_keys w) i = Some r" and u: "unwrap c env (sk_wrapped r) = Inr k" for i r k
  proof -
    have m: "r \<in> set (w_secret_keys w)" "sk_id r = i"
      using secret_keys.lookup_mem [OF g] secret_keys.lookup_key [OF g] by auto
    with R u obtain x where x: "wrap c env (rnd i) k = Inr x"
      "get_secret_key (w_secret_keys w') i = map_option (\<lambda>r. r\<lparr>sk_wrapped := x, sk_rotated_at := Some now\<rparr>) (get_secret_key (w_secret_keys w) i)"
      by fastforce
    have "unwrap c env' x = Inr k" by (rule unwrap_wrap [OF ok(1,2) x(1) same])
    with x(2) g m(2) show ?thesis by simp
  qed
  have cache: "dict_get (w_data_keys w') i = None" for i
  proof (cases "i \<in> sk_id ` set (w_secret_keys w)")
    case True
    then obtain row where "row \<in> set (w_secret_keys w)" "i = sk_id row" by blast
    then show ?thesis using conjunct2 [OF R] by simp
  next
    case False
    then have "dict_get (w_data_keys w) i = None"
      using ok(3) unfolding keys_ok_def by (metis not_Some_eq secret_keys.lookup_None)
    with False conjunct1 [OF R] show ?thesis by simp
  qed
  have ids: "map sk_id (w_secret_keys w') = map sk_id (w_secret_keys w)" by (rule rotate_rows_ids [OF rr])
  have "sk_id ` set (w_secret_keys w') = sk_id ` set (w_secret_keys w)"
    using arg_cong [OF ids, of set] by simp
  moreover have "\<forall>x \<in> sk_id ` set (w_secret_keys w). CHR '':'' \<notin> set x" using ok(3) by (auto simp: keys_ok_def)
  ultimately have "\<forall>x \<in> sk_id ` set (w_secret_keys w'). CHR '':'' \<notin> set x" by (simp only:)
  then have "\<forall>r \<in> set (w_secret_keys w'). CHR '':'' \<notin> set (sk_id r)" by auto
  then have "keys_ok c env' w'" using d ids cache by (simp add: keys_ok_def)
  moreover have "reads c env' w' token v"
    using r row unfolding reads_def by (fastforce split: prod.splits)
  ultimately show ?thesis ..
qed

text \<open>A secret is plain when no bracket is in it and it is no part of the word that masks it.\<close>

definition plain_secret :: "string \<Rightarrow> bool" where
  "plain_secret s \<longleftrightarrow> s \<noteq> [] \<and> CHR ''['' \<notin> set s \<and> CHR '']'' \<notin> set s \<and> \<not> sublist s ''redacted''"

lemma REDACTED_split: "REDACTED = CHR ''['' # ''redacted'' @ [CHR '']'']"
  by (simp add: REDACTED_def)

lemma prefix_replace:
  assumes "CHR ''['' \<notin> set s" and "prefix s (replace t REDACTED v)"
  shows "prefix s v"
  using assms
proof (induction t "REDACTED" v arbitrary: s rule: replace.induct)
  case (2 t x xs)
  show ?case
  proof (cases s)
    case (Cons y ys)
    then have miss: "\<not> (t \<noteq> [] \<and> take (length t) (x # xs) = t)"
      using "2.prems" by (auto simp: REDACTED_def)
    with "2.prems" Cons have "y = x" "prefix ys (replace t REDACTED xs)" by auto
    with "2.hyps"(2) [OF miss] "2.prems"(1) Cons show ?thesis by auto
  qed simp
qed simp

lemma sublist_REDACTED_append:
  assumes "plain_secret s" and "sublist s (REDACTED @ u)"
  shows "sublist s u"
proof -
  have no: "\<not> sublist s REDACTED"
  proof
    assume "sublist s REDACTED"
    then obtain p q where "CHR ''['' # ''redacted'' @ [CHR '']''] = p @ s @ q"
      by (auto simp: sublist_def REDACTED_split)
    moreover have "p \<noteq> []" using assms(1) calculation by (cases s) (auto simp: plain_secret_def)
    moreover have "q \<noteq> []"
    proof
      assume "q = []"
      with calculation(1) have "last (p @ s) = CHR '']''" by (metis append_Nil2 last_snoc append_Cons)
      with assms(1) show False by (auto simp: plain_secret_def last_in_set dest: last_in_set)
    qed
    ultimately obtain p' q' where "''redacted'' @ [CHR '']''] = p' @ s @ q'" "q' \<noteq> []"
      by (cases p) auto
    then have "''redacted'' = p' @ s @ butlast q'" by (metis butlast_append butlast_snoc append_assoc)
    with assms(1) show False by (auto simp: plain_secret_def sublist_def)
  qed
  from assms(2) have "sublist s REDACTED \<or> sublist s u \<or> (\<exists>a b. s = a @ b \<and> suffix a REDACTED \<and> prefix b u)"
    by (simp only: sublist_append)
  with no consider "sublist s u" | a b where "s = a @ b" "suffix a REDACTED" "prefix b u" by blast
  then show ?thesis
  proof cases
    case (2 a b)
    show ?thesis
    proof (cases "a = []")
      case False
      from 2(2) obtain z where "REDACTED = z @ a" by (auto simp: suffix_def)
      then have "last a = last REDACTED" using False by (metis last_appendR)
      then have "CHR '']'' \<in> set a" using last_in_set [OF False] by (simp add: REDACTED_def)
      with 2(1) assms(1) show ?thesis by (simp add: plain_secret_def)
    qed (use 2 in simp)
  qed
qed

lemma sublist_replace:
  assumes "plain_secret s" and "sublist s (replace t REDACTED v)"
  shows "sublist s v"
  using assms
proof (induction t REDACTED v rule: replace.induct)
  case (2 t x xs)
  show ?case
  proof (cases "t \<noteq> [] \<and> take (length t) (x # xs) = t")
    case True
    then have "sublist s (replace t REDACTED (drop (length t) (x # xs)))"
      using "2.prems" by (auto intro: sublist_REDACTED_append)
    with "2.hyps"(1) [OF True] "2.prems"(1) show ?thesis by (meson sublist_drop sublist_order.order_trans)
  next
    case False
    have "prefix s (x # replace t REDACTED xs) \<or> sublist s (replace t REDACTED xs)"
      using "2.prems"(2) by (simp only: replace.simps False if_False sublist_Cons_right)
    then show ?thesis
    proof
      assume "prefix s (x # replace t REDACTED xs)"
      then obtain s' where "s = x # s'" "prefix s' (replace t REDACTED xs)"
        using "2.prems"(1) by (cases s) (auto simp: plain_secret_def)
      moreover have "CHR ''['' \<notin> set s'" using calculation(1) "2.prems"(1) by (simp add: plain_secret_def)
      ultimately have "prefix s (x # xs)" using prefix_replace by simp
      then show ?thesis by blast
    next
      assume "sublist s (replace t REDACTED xs)"
      with "2.hyps"(2) [OF False] "2.prems"(1) show ?thesis by (simp add: sublist_Cons_right)
    qed
  qed
qed simp

lemma replace_removes: "plain_secret s \<Longrightarrow> \<not> sublist s (replace s REDACTED v)"
proof (induction s REDACTED v rule: replace.induct)
  case (1 s)
  then show ?case by (simp add: plain_secret_def)
next
  case (2 s x xs)
  show ?case
  proof (cases "s \<noteq> [] \<and> take (length s) (x # xs) = s")
    case True
    then show ?thesis using "2.hyps"(1) [OF True] "2.prems" by (auto dest: sublist_REDACTED_append)
  next
    case False
    have "\<not> prefix s (x # replace s REDACTED xs)"
    proof
      assume "prefix s (x # replace s REDACTED xs)"
      then obtain s' where s': "s = x # s'" "prefix s' (replace s REDACTED xs)"
        using "2.prems" by (cases s) (auto simp: plain_secret_def)
      have "prefix s (x # xs)" using s' prefix_replace [of s' s xs] "2.prems" by (simp add: plain_secret_def)
      with False "2.prems" show False by (auto simp: plain_secret_def prefix_def)
    qed
    with "2.hyps"(2) [OF False "2.prems"] show ?thesis
      by (simp only: replace.simps False if_False sublist_Cons_right simp_thms)
  qed
qed

lemma redact_text_keeps: "plain_secret s \<Longrightarrow> \<not> sublist s v \<Longrightarrow> \<not> sublist s (redact_text ss v)"
  by (induction ss arbitrary: v) (auto simp: redact_text_def dest: sublist_replace)

lemma redact_text_hides: "plain_secret s \<Longrightarrow> s \<in> set ss \<Longrightarrow> \<not> sublist s (redact_text ss v)"
proof (induction ss arbitrary: v)
  case (Cons t ss)
  show ?case
  proof (cases "s = t")
    case True
    then show ?thesis
      using redact_text_keeps [OF Cons.prems(1), of "replace t REDACTED v" ss] replace_removes [OF Cons.prems(1)]
      by (simp add: redact_text_def)
  next
    case False
    then show ?thesis using Cons by (simp add: redact_text_def)
  qed
qed simp

text \<open>Every text of a JSON value but the keys of its objects.\<close>

fun texts :: "json \<Rightarrow> string list" where
  "texts (JStr v) = [v]"
| "texts (JObj kvs) = concat (map (\<lambda>(k, v). texts v) kvs)"
| "texts (JList vs) = concat (map texts vs)"
| "texts v = []"

lemma texts_walk: "t \<in> set (texts (walk ss v)) \<Longrightarrow> \<exists>u. t = redact_text ss u"
proof (induction ss v rule: walk.induct)
  case (2 ss kvs)
  then obtain k v where "(k, v) \<in> set kvs" "t \<in> set (texts (walk ss v))" by auto
  then show ?case using "2.IH" by blast
qed auto

lemma set_long_secrets: "set (long_secrets ss) = {s \<in> set ss. MIN_REDACT_LENGTH \<le> length s}"
  by (simp add: long_secrets_def)

subsection \<open>Properties\<close>

text \<open>
  C28. A stored secret reads back: what \<open>encrypt\<close> made of a value, under the data key of any scope and
  also when it had to make that key, \<open>decrypt\<close> and \<open>decrypt_async\<close> turn into the value again, and the
  keys stay in order. It rests on the ciphers decrypting what they encrypted.
\<close>

theorem stored_secret_reads_back:
  assumes "ciphers_ok c" and "keys_ok c env w"
    and "en_id en \<notin> sk_id ` set (w_secret_keys w)" and "CHR '':'' \<notin> set (en_id en)"
    and e: "encrypt c env en now data scope w = Inr (token, w')"
  shows "(\<exists>v. decrypt c env token w' = Inr (data, v)) \<and> decrypt_async c env token w' = decrypt c env token w' \<and> keys_ok c env w'"
proof -
  obtain i k where d: "data_key c env en now scope w = Inr ((i, k), w')"
    and t: "token = ENVELOPE @ i @ '':'' @ f_encrypt c k (en_token en) data"
    using e by (auto simp: encrypt_def)
  obtain r where r: "get_secret_key (w_secret_keys w') i = Some r" "unwrap c env (sk_wrapped r) = Inr k"
    "CHR '':'' \<notin> set i" "keys_ok c env w'"
    using data_keyD [OF assms(2-4) d] by blast
  have p: "partition_at (CHR '':'') (drop (length ENVELOPE) token) = (i, True, f_encrypt c k (en_token en) data)"
    using partition_at_append [OF r(3)] by (simp add: t)
  have "reads c env w' token data"
    using r(1,2) assms(1) by (auto simp: reads_def p ciphers_ok_def)
  then have "\<exists>v. decrypt c env token w' = Inr (data, v)" using decrypt_reads [OF r(4)] by blast
  moreover have "decrypt_async c env token w' = decrypt c env token w'"
    using p by (simp add: decrypt_async_def decrypt_def t ENVELOPE_def)
  ultimately show ?thesis using r(4) by blast
qed

text \<open>
  C7. Rotating the data keys loses nothing and retires the old keys: after \<open>rotate\<close>, every token that could
  be read before reads the same, also once \<open>ZOO_SECRETS_KEY_PREVIOUS\<close> and \<open>ZOO_KMS\<close> are set to anything
  else, as long as \<open>ZOO_SECRETS_KEY\<close> stays.
\<close>

theorem rotation_keeps_secrets:
  assumes "ciphers_ok c" and "kms_env_ok env" and "keys_ok c env w"
    and "rotate c env rnd now w = Inr (n, w')" and "decrypt c env token w = Inr (v, w0)"
  shows "\<exists>w2. decrypt c (env\<lparr>ZOO_SECRETS_KEY_PREVIOUS := previous, ZOO_KMS := kms\<rparr>) token w' = Inr (v, w2)"
proof -
  have "reads c env w token v" using decrypt_reads [OF assms(3)] assms(5) by blast
  then have "keys_ok c (env\<lparr>ZOO_SECRETS_KEY_PREVIOUS := previous, ZOO_KMS := kms\<rparr>) w' \<and>
      reads c (env\<lparr>ZOO_SECRETS_KEY_PREVIOUS := previous, ZOO_KMS := kms\<rparr>) w' token v"
    using rotate_reads [OF assms(1-3) _ assms(4)] by simp
  then show ?thesis using decrypt_reads by blast
qed


text \<open>
  Redaction leaves the keys of an object as they are: a secret that a tool returns as a key is
  in the redacted result.
\<close>

theorem redaction_misses_keys:
  "redact (JObj [(''hunter22'', JStr ''hunter22'')]) [''hunter22''] = JObj [(''hunter22'', JStr ''[redacted]'')]"
  by (simp add: redact_def long_secrets_def MIN_REDACT_LENGTH_def redact_text_def REDACTED_def Let_def)

subsection \<open>Witnesses\<close>

definition demo_ciphers :: ciphers where
  "demo_ciphers = \<lparr>f_encrypt = \<lambda>k r d. k @ d, f_decrypt = \<lambda>k t. if take (length k) t = k then Some (drop (length k) t) else None,
     f_derive = (\<lambda>k. k), aws_encrypt = \<lambda>k r d. Inr d, aws_decrypt = \<lambda>r d. Inr d, gcp_encrypt = \<lambda>k d. Inr d, gcp_decrypt = \<lambda>k d. Inr d,
     vault_encrypt = \<lambda>k d. Inr d, vault_decrypt = \<lambda>k d. Inr d\<rparr>"

definition demo_env :: kms_env where
  "demo_env = \<lparr>ZOO_SECRETS_KEY = Some ''new'', ZOO_SECRETS_KEY_PREVIOUS = ''old'', ZOO_KMS = [], AWS_REGION = None,
     AWS_DEFAULT_REGION = None\<rparr>"

definition demo_entropy :: entropy where
  "demo_entropy = \<lparr>en_id = ''id1'', en_data_key = ''dk'', en_wrap = [], en_token = [], en_password = ''pw''\<rparr>"

definition demo_old_key :: "unit world" where
  "demo_old_key = demo_world\<lparr>w_secret_keys := [\<lparr>sk_id = ''k1'', sk_scope = ''w1'', sk_wrapped = ''local:olddk'',
     sk_created_at = 0, sk_rotated_at = None\<rparr>]\<rparr>"

lemma demo_ciphers_ok: "ciphers_ok demo_ciphers"
  by (simp add: ciphers_ok_def demo_ciphers_def)

lemma demo_env_ok: "kms_env_ok demo_env"
  by (simp add: kms_env_ok_def demo_env_def strip_def)

lemma demo_old_key_ok: "keys_ok demo_ciphers demo_env demo_old_key"
  by (simp add: keys_ok_def demo_old_key_def demo_world_def)

lemma demo_fernet: "local_fernet demo_ciphers demo_env = Inr [''new'', ''old'']"
  by (simp add: local_fernet_def demo_env_def demo_ciphers_def)

theorem stored_secret_reads_back_witness:
  "\<exists>w' v. encrypt demo_ciphers demo_env demo_entropy 0 ''s3cret'' ''w1'' demo_world = Inr (''zk1:id1:dks3cret'', w') \<and>
     decrypt demo_ciphers demo_env ''zk1:id1:dks3cret'' w' = Inr (''s3cret'', v)"
proof -
  have e: "\<exists>w'. encrypt demo_ciphers demo_env demo_entropy 0 ''s3cret'' ''w1'' demo_world = Inr (''zk1:id1:dks3cret'', w')"
    using demo_fernet
    by (simp add: encrypt_def data_key_def get_secret_key_by_scope_def create_secret_key_def cached_key_def wrap_def unwrap_def
        demo_world_def demo_entropy_def demo_ciphers_def demo_env_def strip_def ENVELOPE_def Let_def)
  then obtain w' where w': "encrypt demo_ciphers demo_env demo_entropy 0 ''s3cret'' ''w1'' demo_world = Inr (''zk1:id1:dks3cret'', w')" ..
  have "keys_ok demo_ciphers demo_env demo_world" by (simp add: keys_ok_def demo_world_def)
  from stored_secret_reads_back [OF demo_ciphers_ok this _ _ w'] w' show ?thesis
    by (simp add: demo_world_def demo_entropy_def)
qed

theorem rotation_keeps_secrets_witness:
  "\<exists>n w' w2. rotate demo_ciphers demo_env (\<lambda>_. []) 5 demo_old_key = Inr (n, w') \<and>
     decrypt demo_ciphers (demo_env\<lparr>ZOO_SECRETS_KEY_PREVIOUS := [], ZOO_KMS := ''vault:transit/k''\<rparr>) ''zk1:k1:dkhello'' w' = Inr (''hello'', w2)"
proof -
  have u: "unwrap demo_ciphers demo_env ''local:olddk'' = Inr ''dk''"
    using demo_fernet by (simp add: unwrap_def demo_ciphers_def)
  have w: "wrap demo_ciphers demo_env [] ''dk'' = Inr ''local:newdk''"
    using demo_fernet by (simp add: wrap_def demo_ciphers_def demo_env_def strip_def)
  obtain n w' where r: "rotate demo_ciphers demo_env (\<lambda>_. []) 5 demo_old_key = Inr (n, w')"
    using u w by (simp add: rotate_def demo_old_key_def demo_world_def)
  obtain w0 where d: "decrypt demo_ciphers demo_env ''zk1:k1:dkhello'' demo_old_key = Inr (''hello'', w0)"
    using u by (simp add: decrypt_def data_key_by_id_def open_token_def get_secret_key_def demo_old_key_def demo_world_def ENVELOPE_def demo_ciphers_def)
  from rotation_keeps_secrets [OF demo_ciphers_ok demo_env_ok demo_old_key_ok r d] r show ?thesis by blast
qed


end
