(* ===== verification/Errors.thy ===== *)
theory Errors
  imports Prelude
begin

section \<open>The error format\<close>

text \<open>
  \<open>apps/server/errors.py\<close>: the codes of the API's errors, the code an \<open>HTTPException\<close> gets from its status
  and message, and the response each exception becomes. Text is its UTF-8 bytes; request ids and
  the address of the documentation are arguments.
\<close>

definition CODES :: "(string, int \<times> string) dict" where
  "CODES = [
    (''bad_request'', 400, ''The request was malformed. Check the body against the endpoint'' @ [char_of (39 :: nat)] @ ''s schema.''),
    (''unauthenticated'', 401, ''No or invalid credentials. Send `Authorization: Bearer <key>`.''),
    (''forbidden'', 403, ''Your role, API key scope or a sandbox policy doesn'' @ [char_of (39 :: nat)] @ ''t allow this.''),
    (''not_found'', 404, ''No such route or object.''),
    (''sandbox_not_found'', 404, ''No sandbox with that id in this workspace. `GET /v1/sandboxes` lists them.''),
    (''method_not_allowed'', 405, ''The route exists but not with this method.''),
    (''create_failed'', 503, ''No warm sandbox could be handed over in time. Retry.''),
    (''conflict'', 409, ''The object'' @ [char_of (39 :: nat)] @ ''s current state doesn'' @ [char_of (39 :: nat)] @
       ''t allow this, e.g. the sandbox isn'' @ [char_of (39 :: nat)] @ ''t running.''),
    (''quota_exceeded'', 409, ''A workspace, member or label quota is used up.''),
    (''idempotency_key_reused'', 409, ''This Idempotency-Key was used with a different request body.''),
    (''idempotency_key_in_progress'', 409, ''A request with this Idempotency-Key is still running.''),
    (''gone'', 410, ''The object existed but has expired or been revoked.''),
    (''too_large'', 413, ''The request body is too large.''),
    (''validation_failed'', 422, ''A field didn'' @ [char_of (39 :: nat)] @ ''t match the schema; the message names it.''),
    (''rate_limited'', 429, ''Too many requests. Wait as long as the Retry-After header says.''),
    (''internal_error'', 500, ''Zoo failed. Retry; if it keeps failing, report the request id.''),
    (''not_supported'', 501, ''This runtime or deployment doesn'' @ [char_of (39 :: nat)] @ ''t support it.''),
    (''upstream_error'', 502, ''A sandbox, node or provider Zoo talks to failed.''),
    (''unavailable'', 503, ''Zoo or a dependency is starting or overloaded. Retry with backoff.''),
    (''guest_unavailable'', 503, ''The sandbox'' @ [char_of (39 :: nat)] @ ''s guest agent isn'' @ [char_of (39 :: nat)] @
       ''t connected, and every tool goes through it.''),
    (''timeout'', 504, ''A sandbox, node or provider didn'' @ [char_of (39 :: nat)] @ ''t answer in time.'')]"

definition HINTS :: "(string, string) dict" where
  "HINTS = [
    (''unauthenticated'', ''Create an API key in Settings '' @ map char_of [226 :: nat, 134, 146] @
       '' API keys and send it as `Authorization: Bearer <key>`.''),
    (''sandbox_not_found'', ''`GET /v1/sandboxes` lists this workspace'' @ [char_of (39 :: nat)] @ ''s sandboxes; ids are case-sensitive.''),
    (''quota_exceeded'', ''Stop or delete sandboxes, or ask a workspace admin to raise the quota.''),
    (''idempotency_key_reused'', ''Use a new Idempotency-Key for a different request.''),
    (''idempotency_key_in_progress'', ''Wait for the first request to finish, then retry.''),
    (''create_failed'', ''Retry the create; a cold create starts once no warm sandbox is left.''),
    (''rate_limited'', ''Retry after the number of seconds in the Retry-After header.''),
    (''internal_error'', ''Retry. If it keeps failing, report the request id to your Zoo operator.''),
    (''unavailable'', ''Retry with exponential backoff.''),
    (''guest_unavailable'', ''the sandbox'' @ [char_of (39 :: nat)] @ ''s guest agent is not connected; restart the sandbox''),
    (''timeout'', ''Retry; long commands can pass a larger `timeout`.'')]"

definition BY_STATUS :: "(int, string) dict" where
  "BY_STATUS = [(400, ''bad_request''), (401, ''unauthenticated''), (403, ''forbidden''), (404, ''not_found''),
     (405, ''method_not_allowed''), (409, ''conflict''), (410, ''gone''), (413, ''too_large''), (422, ''validation_failed''),
     (429, ''rate_limited''), (500, ''internal_error''), (501, ''not_supported''), (502, ''upstream_error''),
     (503, ''unavailable''), (504, ''timeout'')]"

subsection \<open>The code of an exception\<close>

text \<open>\<open>NOT_FOUND\<close>: a word and \<open>not found\<close>, with \<open>$\<close> also matching before a final newline.\<close>

definition word_char :: "char \<Rightarrow> bool" where
  "word_char c \<longleftrightarrow> (let n = (of_char c :: nat) in 48 \<le> n \<and> n \<le> 57 \<or> 65 \<le> n \<and> n \<le> 90 \<or> 97 \<le> n \<and> n \<le> 122 \<or> n = 95 \<or> 128 \<le> n)"

definition NOT_FOUND_match :: "string \<Rightarrow> string option" where
  "NOT_FOUND_match message =
     (let m = (if message \<noteq> [] \<and> last message = char_of (10 :: nat) then butlast message else message);
          w = takeWhile word_char m
      in if w \<noteq> [] \<and> dropWhile word_char m = '' not found'' then Some w else None)"

definition lower :: "string \<Rightarrow> string" where
  "lower s = map (\<lambda>c. let n = (of_char c :: nat) in if 65 \<le> n \<and> n \<le> 90 then char_of (n + 32) else c) s"

fun contains :: "string \<Rightarrow> string \<Rightarrow> bool" where
  "contains s [] = (s = [])"
| "contains s (x # xs) = (take (length s) (x # xs) = s \<or> contains s xs)"

definition code_for :: "int \<Rightarrow> string \<Rightarrow> string" where
  "code_for st message =
     (if st = 404 \<and> (case NOT_FOUND_match message of None \<Rightarrow> False | Some w \<Rightarrow> dict_get CODES (w @ ''_not_found'') \<noteq> None)
      then the (NOT_FOUND_match message) @ ''_not_found''
      else if contains ''quota'' (lower message) \<and> (st = 403 \<or> st = 409 \<or> st = 429) then ''quota_exceeded''
      else case dict_get BY_STATUS st of Some c \<Rightarrow> c | None \<Rightarrow> if st < 500 then ''bad_request'' else ''internal_error'')"

subsection \<open>Responses\<close>

record error_body =
  eb_code :: string
  eb_message :: string
  eb_hint :: "string option"
  eb_docs_url :: string
  eb_request_id :: string

definition body :: "string \<Rightarrow> string \<Rightarrow> string \<Rightarrow> string option \<Rightarrow> string \<Rightarrow> error_body" where
  "body DOCS_URL code message hint rid =
     \<lparr>eb_code = code, eb_message = message, eb_hint = (case hint of Some h \<Rightarrow> Some h | None \<Rightarrow> dict_get HINTS code),
      eb_docs_url = DOCS_URL @ ''#'' @ code, eb_request_id = rid\<rparr>"

record response =
  rs_status :: int
  rs_body :: error_body
  rs_headers :: "(string, string) dict"

definition respond :: "string \<Rightarrow> string \<Rightarrow> int \<Rightarrow> string \<Rightarrow> string \<Rightarrow> string option \<Rightarrow> (string, string) dict \<Rightarrow> response" where
  "respond DOCS_URL rid st code message hint headers =
     \<lparr>rs_status = st, rs_body = body DOCS_URL code message hint rid, rs_headers = dict_set ''X-Request-Id'' rid headers\<rparr>"

text \<open>The status a \<open>ZooError\<close> has, from its code; a code outside the table is a \<open>KeyError\<close> where it is made.\<close>

definition zoo_status :: "string \<Rightarrow> int option" where
  "zoo_status code = map_option fst (dict_get CODES code)"

text \<open>The exception handlers: \<open>http_error\<close> for HTTP exceptions, \<open>crashed\<close> for every other one.\<close>

definition http_error :: "string \<Rightarrow> string \<Rightarrow> exc \<Rightarrow> response" where
  "http_error DOCS_URL rid e =
     (case e of
        ZooError code message hint \<Rightarrow> respond DOCS_URL rid (case zoo_status code of Some s \<Rightarrow> s | None \<Rightarrow> 500) code message hint []
      | HTTPException st message \<Rightarrow> respond DOCS_URL rid st (code_for st message) message None []
      | _ \<Rightarrow> respond DOCS_URL rid 500 ''internal_error'' (''internal error (request id '' @ rid @ '')'') None [])"

text \<open>\<open>invalid\<close>: the problems of a request that failed validation, as places and messages.\<close>

definition problem :: "string list \<Rightarrow> string \<Rightarrow> string" where
  "problem loc msg = (let w = join ''.'' (filter (\<lambda>p. p \<noteq> ''body'') loc) in if w \<noteq> [] then w @ '': '' @ msg else msg)"

definition invalid :: "string \<Rightarrow> string \<Rightarrow> (string list \<times> string) list \<Rightarrow> response" where
  "invalid DOCS_URL rid errors =
     (let text = join ''; '' (map (\<lambda>(loc, msg). problem loc msg) errors)
      in respond DOCS_URL rid 422 ''validation_failed'' (if text = [] then ''invalid request'' else text) None [])"

subsection \<open>Properties\<close>

lemma BY_STATUS_codes: "list_all (\<lambda>(st, c). zoo_status c = Some st) BY_STATUS"
  by code_simp

lemma CODES_not_found: "list_all (\<lambda>c. drop (length c - 10) c = ''_not_found'' \<longrightarrow> c = ''sandbox_not_found'') (map fst CODES)"
  by code_simp

lemma zoo_status_codes:
  "zoo_status ''sandbox_not_found'' = Some 404" "zoo_status ''quota_exceeded'' = Some 409"
  "zoo_status ''bad_request'' = Some 400" "zoo_status ''internal_error'' = Some 500"
  by code_simp+

lemma BY_STATUS_coded: "dict_get BY_STATUS st = Some c \<Longrightarrow> zoo_status c = Some st"
  using BY_STATUS_codes by (auto simp: list_all_iff dest: map_of_SomeD)

lemma CODES_sandbox:
  assumes "dict_get CODES (w @ ''_not_found'') \<noteq> None"
  shows "w = ''sandbox''"
proof -
  from assms have "w @ ''_not_found'' \<in> set (map fst CODES)" by (metis map_of_eq_None_iff set_map)
  then have "drop (length (w @ ''_not_found'') - 10) (w @ ''_not_found'') = ''_not_found'' \<longrightarrow> w @ ''_not_found'' = ''sandbox_not_found''"
    using CODES_not_found unfolding list_all_iff by (rule bspec [rotated])
  then have "w @ ''_not_found'' = ''sandbox'' @ ''_not_found''" by simp
  then show ?thesis by (simp only: append_same_eq)
qed

lemma zoo_status_coded: "dict_get CODES c \<noteq> None \<longleftrightarrow> zoo_status c \<noteq> None"
  by (simp add: zoo_status_def)

lemma code_for_coded: "zoo_status (code_for st m) \<noteq> None"
proof -
  have "the (NOT_FOUND_match m) = ''sandbox''"
    if "case NOT_FOUND_match m of None \<Rightarrow> False | Some w \<Rightarrow> dict_get CODES (w @ ''_not_found'') \<noteq> None"
    using that CODES_sandbox by (auto split: option.splits)
  then show ?thesis
    using BY_STATUS_coded [of st] zoo_status_codes by (auto simp: code_for_def split: option.split)
qed


lemma code_for_sandbox: "code_for 404 ''sandbox not found'' = ''sandbox_not_found''"
  by code_simp


end
