(* ===== verification/Runtime.thy ===== *)
theory Runtime
  imports Placement Security Errors
begin

section \<open>The runtime: which host an operation goes to\<close>

text \<open>
  \<open>apps/server/runtime.py\<close>, the routing of \<open>remote_docker.py\<close> and the runtime ids of \<open>macos.py\<close> and
  \<open>windows.py\<close>. What a driver does on its host is a parameter, the record \<open>'h hosts\<close>: an operation
  takes the host's state \<open>'h\<close> and gives a result or a fault, with the state it leaves behind (a fault
  does not undo what was done). It also holds the settings the operations read, the guest agents'
  calls (\<open>guest.hub\<close>), the virtual machine control of Kubernetes (\<open>vm_control\<close>) and the object
  storage. The driver modules are \<open>driver\<close>: the Linux runtime of the
  installation, Docker on a registered server, and the macOS and Windows virtual machines.
\<close>

datatype driver = DLocal | DRemote string | DMac | DWin

text \<open>How a driver fails: it asks to wait for room (\<open>jobs.Wait\<close>), or raises something else.\<close>

datatype fault = FWait string int | FExc string

type_synonym ('a, 'h) act = "'h \<Rightarrow> (fault + 'a) \<times> 'h"

type_synonym env = "(string, string) dict"

record 'h hosts =
  rt_NAME :: string
  rt_images :: images
  rt_BROWSER_HOME :: string
  rt_MAX_SNAPSHOTS :: nat
  rt_UNSIZED_DISK_GB :: int
  rt_max_vms :: "kind \<Rightarrow> nat"
  rt_available :: "'h \<Rightarrow> string \<Rightarrow> bool"
  rt_guest_env :: "string \<Rightarrow> bool \<Rightarrow> env res"
  rt_ciphers :: ciphers
  rt_env :: kms_env
  rt_macos_user :: string
  op_run_container :: "driver \<Rightarrow> string \<Rightarrow> string \<Rightarrow> string \<Rightarrow> env \<Rightarrow> bool \<Rightarrow> sizing \<Rightarrow> (string \<times> string option, 'h) act"
  op_remove_container :: "driver \<Rightarrow> string \<Rightarrow> (unit, 'h) act"
  op_remove_named :: "driver \<Rightarrow> string \<Rightarrow> (unit, 'h) act"
  op_stop :: "driver \<Rightarrow> string \<Rightarrow> (unit, 'h) act"
  op_pause :: "driver \<Rightarrow> string \<Rightarrow> (unit, 'h) act"
  op_resume :: "driver \<Rightarrow> string \<Rightarrow> (unit, 'h) act"
  op_is_running :: "driver \<Rightarrow> string \<Rightarrow> (bool, 'h) act"
  op_write_secrets :: "driver \<Rightarrow> string \<Rightarrow> env \<Rightarrow> (unit, 'h) act"
  op_import_dir :: "driver \<Rightarrow> string \<Rightarrow> string \<Rightarrow> string \<Rightarrow> (unit, 'h) act"
  op_apply_network :: "driver \<Rightarrow> string \<Rightarrow> string \<Rightarrow> bool \<Rightarrow> (string \<times> string \<times> string) list \<Rightarrow> (unit, 'h) act"
  op_apply_apps :: "driver \<Rightarrow> string \<Rightarrow> env \<Rightarrow> (unit, 'h) act"
  op_remove_volume :: "driver \<Rightarrow> string \<Rightarrow> (unit, 'h) act"
  op_remove_home :: "(string, json) dict \<Rightarrow> (unit, 'h) act"
  op_snapshot :: "driver \<Rightarrow> string \<Rightarrow> string \<Rightarrow> string option \<Rightarrow> (int, 'h) act"
  op_restore_snapshot :: "driver \<Rightarrow> string \<Rightarrow> string \<Rightarrow> string option \<Rightarrow> (unit, 'h) act"
  op_remove_snapshot :: "driver \<Rightarrow> string \<Rightarrow> string option \<Rightarrow> (unit, 'h) act"
  op_vm_start :: "driver \<Rightarrow> string \<Rightarrow> string \<Rightarrow> env \<Rightarrow> bool \<Rightarrow> (string, 'h) act"
  op_vm_delete :: "driver \<Rightarrow> string \<Rightarrow> string \<Rightarrow> (unit, 'h) act"
  op_vm_move :: "driver \<Rightarrow> string \<Rightarrow> string option \<Rightarrow> string option \<Rightarrow> (unit, 'h) act"
  op_vm_base_of :: "driver \<Rightarrow> string \<Rightarrow> string option"
  op_move_volume :: "string \<Rightarrow> string \<Rightarrow> (unit, 'h) act"
  op_refill_volumes :: "(unit, 'h) act"
  op_connect :: "driver \<Rightarrow> server \<Rightarrow> (unit, 'h) act"
  op_pressured_nodes :: "(string list, 'h) act"
  op_wait_for_desktop :: "string \<Rightarrow> int \<Rightarrow> (bool, 'h) act"
  op_wait_for_guest :: "string \<Rightarrow> int \<Rightarrow> (bool, 'h) act"
  op_bind :: "string \<Rightarrow> string \<Rightarrow> (unit, 'h) act"
  op_heartbeat :: "string \<Rightarrow> (bool, 'h) act"
  op_responsive :: "string \<Rightarrow> (bool, 'h) act"
  op_start_browser :: "string \<Rightarrow> string \<Rightarrow> (unit, 'h) act"
  op_vm_revision :: "string \<Rightarrow> string \<Rightarrow> (string, json) dict \<Rightarrow> (int, 'h) act"
  op_vm_pause :: "string \<Rightarrow> string \<Rightarrow> (string, json) dict \<Rightarrow> int \<Rightarrow> (unit, 'h) act"
  op_vm_resume :: "string \<Rightarrow> string \<Rightarrow> (string, json) dict \<Rightarrow> int \<Rightarrow> (unit, 'h) act"
  op_vm_binding :: "string \<Rightarrow> string \<Rightarrow> (string, json) dict \<Rightarrow> (json, 'h) act"
  op_object_get :: "string \<Rightarrow> (string, 'h) act"

definition linux :: "'h hosts \<Rightarrow> driver res" where
  "linux H = (if rt_NAME H = ''docker'' \<or> rt_NAME H = ''kube'' then Inr DLocal
     else Inl (ZooError ''unavailable'' ''ZOO_RUNTIME must be docker or kube'' (Some ''Set ZOO_RUNTIME=docker or ZOO_RUNTIME=kube.'')))"

definition is_kube :: "'h hosts \<Rightarrow> bool" where
  "is_kube H \<longleftrightarrow> rt_NAME H = ''kube''"

subsection \<open>Runtime ids\<close>

definition MACOS_PREFIX :: string where "MACOS_PREFIX = ''macos:''"
definition WINDOWS_PREFIX :: string where "WINDOWS_PREFIX = ''windows:''"

definition macos_is_vm :: "string option \<Rightarrow> bool" where
  "macos_is_vm rid \<longleftrightarrow> truthy rid \<and> starts_with (the rid) [MACOS_PREFIX]"

definition windows_is_vm :: "string option \<Rightarrow> bool" where
  "windows_is_vm rid \<longleftrightarrow> truthy rid \<and> starts_with (the rid) [WINDOWS_PREFIX]"

definition is_vm :: "string option \<Rightarrow> bool" where
  "is_vm rid \<longleftrightarrow> macos_is_vm rid \<or> windows_is_vm rid"

definition vm_name :: "string \<Rightarrow> string" where
  "vm_name sandbox_id = ''zoo-'' @ sandbox_id"

definition macos_runtime_id :: "string \<Rightarrow> string \<Rightarrow> string" where
  "macos_runtime_id server_id sandbox_id = MACOS_PREFIX @ server_id @ '':'' @ vm_name sandbox_id"

definition windows_runtime_id :: "string \<Rightarrow> string \<Rightarrow> string" where
  "windows_runtime_id server_id sandbox_id = WINDOWS_PREFIX @ server_id @ '':'' @ vm_name sandbox_id"

text \<open>\<open>split(":", 1)\<close> into the server and the machine; a text without a colon does not unpack.\<close>

definition vm_parse :: "string \<Rightarrow> string \<Rightarrow> (string \<times> string) res" where
  "vm_parse pre rid = (case partition_at (CHR '':'') (drop (length pre) rid) of (server_id, found, name) \<Rightarrow>
     if found then Inr (server_id, name) else Inl (ValueError ''not enough values to unpack (expected 2, got 1)''))"

definition is_remote :: "string option \<Rightarrow> bool" where
  "is_remote rid \<longleftrightarrow> truthy rid \<and> starts_with (the rid) [''linux:'']"

definition identifier_start :: "char \<Rightarrow> bool" where
  "identifier_start c \<longleftrightarrow> (let n = (of_char c :: nat) in 48 \<le> n \<and> n \<le> 57 \<or> 65 \<le> n \<and> n \<le> 90 \<or> 97 \<le> n \<and> n \<le> 122)"

definition is_identifier :: "string \<Rightarrow> bool" where
  "is_identifier s \<longleftrightarrow> (case s of [] \<Rightarrow> False | c # cs \<Rightarrow> identifier_start c \<and> length cs \<le> 127 \<and>
     (\<forall>x \<in> set cs. identifier_start x \<or> x = CHR ''_'' \<or> x = CHR ''.'' \<or> x = CHR ''-''))"

definition remote_parse :: "string \<Rightarrow> (string \<times> string) res" where
  "remote_parse rid = (case split_at (CHR '':'') rid of
       [p0, p1, p2] \<Rightarrow> if p0 \<noteq> ''linux'' \<or> \<not> (is_identifier p1 \<and> is_identifier p2)
         then Inl (ZooError ''bad_request'' ''invalid remote Linux runtime ID'' None) else Inr (p1, p2)
     | _ \<Rightarrow> Inl (ZooError ''bad_request'' ''invalid remote Linux runtime ID'' None))"

definition remote_runtime_id :: "string \<Rightarrow> string \<Rightarrow> string" where
  "remote_runtime_id server_id raw_id = ''linux:'' @ server_id @ '':'' @ raw_id"

text \<open>The driver of a runtime id, with the id the driver gets: \<open>remote_docker.Runtime\<close> passes on the raw one.\<close>

definition backend :: "'h hosts \<Rightarrow> string \<Rightarrow> (driver \<times> string) res" where
  "backend H rid =
     (if is_remote (Some rid) then bindr (remote_parse rid) (\<lambda>(server_id, raw_id). Inr (DRemote server_id, raw_id))
      else if macos_is_vm (Some rid) then Inr (DMac, rid)
      else if windows_is_vm (Some rid) then Inr (DWin, rid)
      else bindr (linux H) (\<lambda>d. Inr (d, rid)))"

definition vm_driver :: "kind \<Rightarrow> driver" where
  "vm_driver k = (if k = Macos then DMac else DWin)"

subsection \<open>Operations\<close>

text \<open>\<open>str\<close> of an exception; that of an HTTP exception is its status and detail.\<close>

fun exc_text :: "exc \<Rightarrow> string" where
  "exc_text (HTTPException st d) = py_str st @ '': '' @ d"
| "exc_text (ZooError c d h) = py_str (case zoo_status c of Some s \<Rightarrow> s | None \<Rightarrow> 500) @ '': '' @ d"
| "exc_text (ValueError m) = m"
| "exc_text (RuntimeError m) = m"
| "exc_text (KeyError k) = py_repr k"
| "exc_text IndexError = ''list index out of range''"
| "exc_text AssertionError = []"
| "exc_text InvalidToken = []"
| "exc_text (FileNotFoundError m) = m"

definition with_res :: "'b res \<Rightarrow> ('b \<Rightarrow> ('a, 'h) act) \<Rightarrow> ('a, 'h) act" where
  "with_res r f h = (case r of Inl e \<Rightarrow> (Inl (FExc (exc_text e)), h) | Inr x \<Rightarrow> f x h)"

definition on_backend :: "'h hosts \<Rightarrow> (driver \<Rightarrow> string \<Rightarrow> ('a, 'h) act) \<Rightarrow> string \<Rightarrow> ('a, 'h) act" where
  "on_backend H op rid = with_res (backend H rid) (\<lambda>(d, i). op d i)"

definition run_container :: "'h hosts \<Rightarrow> string \<Rightarrow> string \<Rightarrow> string \<Rightarrow> env \<Rightarrow> server option \<Rightarrow> bool \<Rightarrow> sizing \<Rightarrow>
    (string \<times> string option, 'h) act" where
  "run_container H name img sandbox_id env server desktop z =
     (case server of
        Some sv \<Rightarrow> (\<lambda>h. case op_run_container H (DRemote (sv_id sv)) name img sandbox_id env desktop z h of
            (Inl f, h') \<Rightarrow> (Inl f, h')
          | (Inr (raw_id, _), h') \<Rightarrow>
              (Inr (remote_runtime_id (sv_id sv) raw_id, if desktop then Some (sv_bind_address sv) else None), h'))
      | None \<Rightarrow> with_res (linux H) (\<lambda>d. op_run_container H d name img sandbox_id env desktop z))"

definition pause :: "'h hosts \<Rightarrow> string \<Rightarrow> (unit, 'h) act" where
  "pause H = on_backend H (op_pause H)"

definition resume :: "'h hosts \<Rightarrow> string \<Rightarrow> (unit, 'h) act" where
  "resume H = on_backend H (op_resume H)"

definition write_secrets :: "'h hosts \<Rightarrow> string \<Rightarrow> env \<Rightarrow> (unit, 'h) act" where
  "write_secrets H rid values = on_backend H (\<lambda>d i. op_write_secrets H d i values) rid"

definition is_running :: "'h hosts \<Rightarrow> string \<Rightarrow> (bool, 'h) act" where
  "is_running H = on_backend H (op_is_running H)"

definition import_dir :: "'h hosts \<Rightarrow> string \<Rightarrow> string \<Rightarrow> string \<Rightarrow> (unit, 'h) act" where
  "import_dir H rid parent data = on_backend H (\<lambda>d i. op_import_dir H d i parent data) rid"

definition apply_network :: "'h hosts \<Rightarrow> string \<Rightarrow> string \<Rightarrow> bool \<Rightarrow> (string \<times> string \<times> string) list \<Rightarrow> (unit, 'h) act" where
  "apply_network H rid default_action allow_dns rules =
     on_backend H (\<lambda>d i. op_apply_network H d i default_action allow_dns rules) rid"

definition apply_apps :: "'h hosts \<Rightarrow> string \<Rightarrow> env \<Rightarrow> (unit, 'h) act" where
  "apply_apps H rid effects = on_backend H (\<lambda>d i. op_apply_apps H d i effects) rid"

definition remove_container :: "'h hosts \<Rightarrow> string \<Rightarrow> (unit, 'h) act" where
  "remove_container H rid =
     (if is_vm (Some rid) then on_backend H (op_stop H) rid else on_backend H (op_remove_container H) rid)"

definition remove_volume :: "'h hosts \<Rightarrow> sandbox \<Rightarrow> server option \<Rightarrow> (unit, 'h) act" where
  "remove_volume H s server =
     (if in_VMS (s_kind s)
      then case server of None \<Rightarrow> (\<lambda>h. (Inr (), h)) | Some sv \<Rightarrow> op_vm_delete H (vm_driver (s_kind s)) (s_id s) (sv_id sv)
      else case server of
          Some sv \<Rightarrow> op_remove_volume H (DRemote (sv_id sv)) (s_id s)
        | None \<Rightarrow> with_res (linux H) (\<lambda>d. op_remove_volume H d (s_id s)))"

definition remove_volume_id :: "'h hosts \<Rightarrow> string \<Rightarrow> (string, json) dict \<Rightarrow> (unit, 'h) act" where
  "remove_volume_id H sandbox_id config =
     (case dict_get config ''remote_server_id'' of
        Some (JStr (c # cs)) \<Rightarrow> op_remove_volume H (DRemote (c # cs)) sandbox_id
      | _ \<Rightarrow> if is_kube H then op_remove_home H config else with_res (linux H) (\<lambda>d. op_remove_volume H d sandbox_id))"

definition remove_named_container :: "'h hosts \<Rightarrow> string \<Rightarrow> (unit, 'h) act" where
  "remove_named_container H name = with_res (linux H) (\<lambda>d. op_remove_named H d name)"

definition snapshot_disk :: "'h hosts \<Rightarrow> sandbox \<Rightarrow> string \<Rightarrow> server option \<Rightarrow> (int, 'h) act" where
  "snapshot_disk H s snapshot_id server =
     (if in_VMS (s_kind s) then op_snapshot H (vm_driver (s_kind s)) (s_id s) snapshot_id (map_option sv_id server)
      else case server of
          Some sv \<Rightarrow> op_snapshot H (DRemote (sv_id sv)) (s_id s) snapshot_id None
        | None \<Rightarrow> with_res (linux H) (\<lambda>d. op_snapshot H d (s_id s) snapshot_id None))"

definition restore_snapshot :: "'h hosts \<Rightarrow> sandbox \<Rightarrow> string \<Rightarrow> server option \<Rightarrow> (unit, 'h) act" where
  "restore_snapshot H s snapshot_id server =
     (if in_VMS (s_kind s) then op_restore_snapshot H (vm_driver (s_kind s)) (s_id s) snapshot_id (map_option sv_id server)
      else case server of
          Some sv \<Rightarrow> op_restore_snapshot H (DRemote (sv_id sv)) (s_id s) snapshot_id None
        | None \<Rightarrow> with_res (linux H) (\<lambda>d. op_restore_snapshot H d (s_id s) snapshot_id None))"

definition remove_snapshot :: "'h hosts \<Rightarrow> sandbox \<Rightarrow> string \<Rightarrow> server option \<Rightarrow> (unit, 'h) act" where
  "remove_snapshot H s snapshot_id server =
     (if in_VMS (s_kind s) then op_remove_snapshot H (vm_driver (s_kind s)) snapshot_id (map_option sv_id server)
      else with_res (linux H) (\<lambda>d. op_remove_snapshot H d snapshot_id None))"

definition move_vm :: "'h hosts \<Rightarrow> sandbox \<Rightarrow> server option \<Rightarrow> server option \<Rightarrow> (unit, 'h) act" where
  "move_vm H s source target =
     (if in_VMS (s_kind s) then op_vm_move H (vm_driver (s_kind s)) (s_id s) (map_option sv_id source) (map_option sv_id target)
      else with_res (Inl (ZooError ''not_supported'' ''Linux moves require the Kubernetes snapshot transfer path.'' None)) (\<lambda>x :: unit. \<lambda>h. (Inr x, h)))"

definition move_volume :: "'h hosts \<Rightarrow> string \<Rightarrow> string \<Rightarrow> (unit, 'h) act" where
  "move_volume H sandbox_id target_node =
     (if \<not> is_kube H
      then with_res (Inl (ZooError ''not_supported'' ''Docker sandboxes run on one host and cannot be moved.'' None)) (\<lambda>x :: unit. \<lambda>h. (Inr x, h))
      else op_move_volume H sandbox_id target_node)"

definition refill_volumes :: "'h hosts \<Rightarrow> (unit, 'h) act" where
  "refill_volumes H = (if is_kube H then op_refill_volumes H else (\<lambda>h. (Inr (), h)))"

definition connect :: "'h hosts \<Rightarrow> server \<Rightarrow> (unit, 'h) act" where
  "connect H sv = op_connect H (if sv_platform sv = ''macos'' then DMac else if sv_platform sv = ''windows'' then DWin else DRemote (sv_id sv)) sv"

definition NODE :: string where "NODE = ''local''"

definition node_of :: "'h hosts \<Rightarrow> sandbox \<Rightarrow> string" where
  "node_of H s =
     (if truthy (s_server_id s) then the (s_server_id s)
      else if is_kube H then case dict_get (s_config s) ''node_name'' of Some (JStr (c # cs)) \<Rightarrow> c # cs | _ \<Rightarrow> NODE
      else NODE)"

subsection \<open>Properties\<close>

lemma identifier_no_colon: "is_identifier s \<Longrightarrow> CHR '':'' \<notin> set s"
  by (auto simp: is_identifier_def identifier_start_def split: list.splits)

lemma remote_parse_id:
  assumes "is_identifier server_id" and "is_identifier raw_id"
  shows "remote_parse (remote_runtime_id server_id raw_id) = Inr (server_id, raw_id)"
proof -
  have "split_at (CHR '':'') (''linux'' @ CHR '':'' # server_id @ CHR '':'' # raw_id) = [''linux'', server_id, raw_id]"
    using assms [THEN identifier_no_colon] by (subst split_at_append) (simp_all add: split_at_append split_at_word)
  then show ?thesis using assms by (simp add: remote_parse_def remote_runtime_id_def)
qed

text \<open>
  A container started on a registered server stays with that server: the runtime id \<open>run_container\<close>
  records sends every later operation on it to Docker on the same server, with the container id
  that server knows. The server's id and Docker's id are identifiers (UUIDs and hexadecimal).
\<close>

theorem remote_container_stays_remote:
  assumes "run_container H name img sandbox_id env (Some sv) desktop z h = (Inr (rid, host), h')"
    and "is_identifier (sv_id sv)"
    and "\<And>r x h1. op_run_container H (DRemote (sv_id sv)) name img sandbox_id env desktop z h = (Inr (r, x), h1) \<Longrightarrow> is_identifier r"
  shows "\<exists>raw_id x. op_run_container H (DRemote (sv_id sv)) name img sandbox_id env desktop z h = (Inr (raw_id, x), h') \<and>
    backend H rid = Inr (DRemote (sv_id sv), raw_id) \<and>
    remove_container H rid = op_remove_container H (DRemote (sv_id sv)) raw_id \<and>
    pause H rid = op_pause H (DRemote (sv_id sv)) raw_id \<and> is_running H rid = op_is_running H (DRemote (sv_id sv)) raw_id"
proof -
  obtain raw_id x where raw: "op_run_container H (DRemote (sv_id sv)) name img sandbox_id env desktop z h = (Inr (raw_id, x), h')"
    and rid: "rid = remote_runtime_id (sv_id sv) raw_id"
    using assms(1) by (auto simp: run_container_def split: prod.splits sum.splits)
  have b: "backend H rid = Inr (DRemote (sv_id sv), raw_id)"
    using remote_parse_id [OF assms(2) assms(3) [OF raw]]
    by (simp add: backend_def is_remote_def truthy_def starts_with_def rid) (simp add: remote_runtime_id_def)
  moreover have "\<not> is_vm (Some rid)"
    by (simp add: is_vm_def macos_is_vm_def windows_is_vm_def starts_with_def rid remote_runtime_id_def MACOS_PREFIX_def WINDOWS_PREFIX_def)
  ultimately show ?thesis
    using raw by (auto simp: remove_container_def pause_def is_running_def on_backend_def with_res_def)
qed

lemma vm_parse_macos: "CHR '':'' \<notin> set server_id \<Longrightarrow> vm_parse MACOS_PREFIX (macos_runtime_id server_id i) = Inr (server_id, vm_name i)"
  by (simp add: vm_parse_def macos_runtime_id_def partition_at_append MACOS_PREFIX_def)

lemma vm_parse_windows: "CHR '':'' \<notin> set server_id \<Longrightarrow> vm_parse WINDOWS_PREFIX (windows_runtime_id server_id i) = Inr (server_id, vm_name i)"
  by (simp add: vm_parse_def windows_runtime_id_def partition_at_append WINDOWS_PREFIX_def)

text \<open>Hosts on which everything works, and every container is \<open>c1\<close>.\<close>

definition demo_hosts :: "unit hosts" where
  "demo_hosts = \<lparr>rt_NAME = ''docker'', rt_images = \<lparr>image_desktop = ''zoo'', image_browser = ''zoo-browser'', image_code = ''zoo-code''\<rparr>,
     rt_BROWSER_HOME = ''https://duckduckgo.com'', rt_MAX_SNAPSHOTS = 10, rt_UNSIZED_DISK_GB = 20, rt_max_vms = \<lambda>k. 2,
     rt_available = \<lambda>h i. True, rt_guest_env = \<lambda>i r. Inr [(''ZOO_SANDBOX_ID'', i)], rt_ciphers = demo_ciphers, rt_env = demo_env, rt_macos_user = ''admin'',
     op_run_container = \<lambda>d n i s e k z h. (Inr (''c1'', None), h), op_remove_container = \<lambda>d i h. (Inr (), h),
     op_remove_named = \<lambda>d i h. (Inr (), h), op_stop = \<lambda>d i h. (Inr (), h), op_pause = \<lambda>d i h. (Inr (), h),
     op_resume = \<lambda>d i h. (Inr (), h), op_is_running = \<lambda>d i h. (Inr True, h), op_write_secrets = \<lambda>d i v h. (Inr (), h),
     op_import_dir = \<lambda>d i p x h. (Inr (), h), op_apply_network = \<lambda>d i a b r h. (Inr (), h), op_apply_apps = \<lambda>d i e h. (Inr (), h),
     op_remove_volume = \<lambda>d i h. (Inr (), h), op_remove_home = \<lambda>c h. (Inr (), h), op_snapshot = \<lambda>d i n s h. (Inr 7, h),
     op_restore_snapshot = \<lambda>d i n s h. (Inr (), h), op_remove_snapshot = \<lambda>d n s h. (Inr (), h),
     op_vm_start = \<lambda>d i s e a h. (Inr (macos_runtime_id s i), h), op_vm_delete = \<lambda>d i s h. (Inr (), h),
     op_vm_move = \<lambda>d i a b h. (Inr (), h), op_vm_base_of = \<lambda>d i. None, op_move_volume = \<lambda>i t h. (Inr (), h),
     op_refill_volumes = \<lambda>h. (Inr (), h), op_connect = \<lambda>d s h. (Inr (), h), op_pressured_nodes = \<lambda>h. (Inr [], h),
     op_wait_for_desktop = \<lambda>i t h. (Inr True, h), op_wait_for_guest = \<lambda>i t h. (Inr True, h), op_bind = \<lambda>r i h. (Inr (), h),
     op_heartbeat = \<lambda>i h. (Inr True, h), op_responsive = \<lambda>i h. (Inr True, h), op_start_browser = \<lambda>i u h. (Inr (), h),
     op_vm_revision = \<lambda>i r c h. (Inr 0, h), op_vm_pause = \<lambda>i r c n h. (Inr (), h), op_vm_resume = \<lambda>i r c n h. (Inr (), h),
     op_vm_binding = \<lambda>i r c h. (Inr JNull, h), op_object_get = \<lambda>k h. (Inr [], h)\<rparr>"

theorem remote_container_stays_remote_witness:
  "\<exists>rid host. run_container demo_hosts ''zoo-sandbox-s1'' ''zoo'' ''s1'' [] (Some (demo_mac ''m1'')) True DEFAULT_SIZE () = (Inr (rid, host), ()) \<and>
     backend demo_hosts rid = Inr (DRemote ''m1'', ''c1'')"
proof -
  have r: "run_container demo_hosts ''zoo-sandbox-s1'' ''zoo'' ''s1'' [] (Some (demo_mac ''m1'')) True DEFAULT_SIZE () =
      (Inr (remote_runtime_id ''m1'' ''c1'', Some ''mac''), ())"
    by (simp add: run_container_def demo_hosts_def demo_mac_def)
  have "is_identifier (sv_id (demo_mac ''m1''))" "is_identifier ''c1''"
    by (simp_all add: is_identifier_def identifier_start_def demo_mac_def)
  with remote_container_stays_remote [OF r] r show ?thesis by (auto simp: demo_hosts_def demo_mac_def)
qed

end
