(* ===== verification/Programs.thy ===== *)
theory Programs
  imports Runtime
begin

section \<open>Programs over the database and the hosts\<close>

text \<open>
  How the handlers run: a program goes from the whole state to a result or a fault and the state it
  leaves. A database session is one atomic step: it commits, or raises and changes nothing
  (\<open>session\<close>). A call to a host changes the host's state whatever it gives (\<open>on_host\<close>). A fault ends the
  program where it is raised and undoes no earlier step; \<open>attempt\<close> is \<open>try\<close>/\<open>except Exception\<close>.
\<close>

type_synonym ('a, 'h) prog = "'h zoo \<Rightarrow> (fault + 'a) \<times> 'h zoo"

definition ret :: "'a \<Rightarrow> ('a, 'h) prog" where
  "ret x z = (Inr x, z)"

definition throw :: "exc \<Rightarrow> ('a, 'h) prog" where
  "throw e z = (Inl (FExc (exc_text e)), z)"

definition bindp :: "('a, 'h) prog \<Rightarrow> ('a \<Rightarrow> ('b, 'h) prog) \<Rightarrow> ('b, 'h) prog" where
  "bindp m f z = (case m z of (Inl e, z') \<Rightarrow> (Inl e, z') | (Inr x, z') \<Rightarrow> f x z')"

definition session :: "('h zoo \<Rightarrow> ('a \<times> 'h zoo) res) \<Rightarrow> ('a, 'h) prog" where
  "session f z = (case f z of Inl e \<Rightarrow> (Inl (FExc (exc_text e)), z) | Inr (x, z') \<Rightarrow> (Inr x, z'))"

definition reading :: "('h zoo \<Rightarrow> 'a) \<Rightarrow> ('a, 'h) prog" where
  "reading f z = (Inr (f z), z)"

definition changing :: "('h zoo \<Rightarrow> 'h zoo) \<Rightarrow> (unit, 'h) prog" where
  "changing g z = (Inr (), g z)"

text \<open>A session that cannot raise.\<close>

definition step :: "('h zoo \<Rightarrow> 'a \<times> 'h zoo) \<Rightarrow> ('a, 'h) prog" where
  "step f z = (Inr (fst (f z)), snd (f z))"

definition on_host :: "('a, 'h) act \<Rightarrow> ('a, 'h) prog" where
  "on_host a z = (case a (w_host (q_world z)) of (r, h) \<Rightarrow> (r, set_host h z))"

definition attempt :: "('a, 'h) prog \<Rightarrow> (fault \<Rightarrow> ('a, 'h) prog) \<Rightarrow> ('a, 'h) prog" where
  "attempt m handle z = (case m z of (Inl e, z') \<Rightarrow> handle e z' | (Inr x, z') \<Rightarrow> (Inr x, z'))"

fun foreach :: "('a \<Rightarrow> (unit, 'h) prog) \<Rightarrow> 'a list \<Rightarrow> (unit, 'h) prog" where
  "foreach f [] = ret ()"
| "foreach f (x # xs) = bindp (f x) (\<lambda>_. foreach f xs)"

text \<open>\<open>asyncio.gather\<close>: every program runs, and the first fault is raised once they are done.\<close>

fun gather :: "(unit, 'h) prog list \<Rightarrow> (unit, 'h) prog" where
  "gather [] = ret ()"
| "gather (m # ms) = (\<lambda>z. case m z of (Inr _, z') \<Rightarrow> gather ms z' | (Inl e, z') \<Rightarrow> (Inl e, snd (gather ms z')))"

definition whenp :: "bool \<Rightarrow> (unit, 'h) prog \<Rightarrow> (unit, 'h) prog" where
  "whenp b m = (if b then m else ret ())"

text \<open>A session that works on the tables.\<close>

definition lift_world :: "('h world \<Rightarrow> ('a \<times> 'h world) res) \<Rightarrow> 'h zoo \<Rightarrow> ('a \<times> 'h zoo) res" where
  "lift_world f z = bindr (f (q_world z)) (\<lambda>(x, w). Inr (x, z\<lparr>q_world := w\<rparr>))"

subsection \<open>Rules\<close>

named_theorems prog_simps "how programs compute"

lemma prog_basics [prog_simps]:
  "ret x z1 = (Inr x, z1)" "reading f z = (Inr (f z), z)" "changing g z = (Inr (), g z)"
  "throw e y = (Inl (FExc (exc_text e)), y)" "whenp True m = m" "whenp False m = ret ()"
  by (simp_all add: ret_def reading_def changing_def throw_def whenp_def)

text \<open>
  What a program keeps: if every step keeps a property of the state, so does the program, however
  it ends. Every rule is for one way of building a program.
\<close>

definition keeps :: "('h zoo \<Rightarrow> bool) \<Rightarrow> ('a, 'h) prog \<Rightarrow> bool" where
  "keeps I m \<longleftrightarrow> (\<forall>z. I z \<longrightarrow> I (snd (m z)))"

named_theorems keeps_intros "what keeps a property of the state"

lemma keepsD: "keeps I m \<Longrightarrow> I z \<Longrightarrow> m z = (r, z') \<Longrightarrow> I z'"
  by (auto simp: keeps_def dest!: spec [of _ z])

lemma keeps_basics [keeps_intros]: "keeps I (ret x)" "keeps I (reading f)" "keeps I (throw e)"
  by (simp_all add: keeps_def prog_basics)

lemma keeps_changing [keeps_intros]: "(\<And>z. I z \<Longrightarrow> I (f z)) \<Longrightarrow> keeps I (changing f)"
  by (simp add: keeps_def prog_basics)

lemma keeps_bindp [keeps_intros]: "keeps I m \<Longrightarrow> (\<And>x. keeps I (f x)) \<Longrightarrow> keeps I (bindp m f)"
  by (auto simp: keeps_def bindp_def split: prod.splits sum.splits)

lemma keeps_session [keeps_intros]: "(\<And>z x z'. I z \<Longrightarrow> f z = Inr (x, z') \<Longrightarrow> I z') \<Longrightarrow> keeps I (session f)"
  by (auto simp: keeps_def session_def split: sum.splits)

lemma keeps_on_host [keeps_intros]: "(\<And>h z. I z \<Longrightarrow> I (set_host h z)) \<Longrightarrow> keeps I (on_host a)"
  by (auto simp: keeps_def on_host_def split: prod.splits)

lemma keeps_step [keeps_intros]: "(\<And>z. I z \<Longrightarrow> I (snd (f z))) \<Longrightarrow> keeps I (step f)"
  by (simp add: keeps_def step_def)

lemma keeps_gather [keeps_intros]: "(\<And>m. m \<in> set ms \<Longrightarrow> keeps I m) \<Longrightarrow> keeps I (gather ms)"
proof (induction ms)
  case (Cons m ms)
  then have "keeps I m" "keeps I (gather ms)" by simp_all
  then show ?case by (auto simp: keeps_def split: prod.splits sum.splits)
qed (auto intro: keeps_basics)

lemma keeps_attempt [keeps_intros]: "keeps I m \<Longrightarrow> (\<And>e. keeps I (g e)) \<Longrightarrow> keeps I (attempt m g)"
  by (auto simp: keeps_def attempt_def split: prod.splits sum.splits)

lemma keeps_foreach [keeps_intros]: "(\<And>x. keeps I (f x)) \<Longrightarrow> keeps I (foreach f xs)"
  by (induction xs) (auto intro: keeps_intros)

lemma keeps_whenp [keeps_intros]: "keeps I m \<Longrightarrow> keeps I (whenp b m)"
  by (cases b) (auto simp: prog_basics intro: keeps_basics)

lemma keeps_if [keeps_intros]: "(b \<Longrightarrow> keeps I m) \<Longrightarrow> (\<not> b \<Longrightarrow> keeps I n) \<Longrightarrow> keeps I (if b then m else n)"
  by simp

lemma keeps_option [keeps_intros]:
  "keeps I m \<Longrightarrow> (\<And>x. keeps I (f x)) \<Longrightarrow> keeps I (case r of None \<Rightarrow> m | Some x \<Rightarrow> f x)"
  by (cases r) auto

lemma keeps_prod [keeps_intros]: "(\<And>x y. keeps I (f x y)) \<Longrightarrow> keeps I (case r of (x, y) \<Rightarrow> f x y)"
  by (cases r) auto

end
