(* ===== verification/Pools.thy ===== *)
theory Pools
  imports Programs
begin

section \<open>The warm pool\<close>

text \<open>
  \<open>apps/server/pool.py\<close>: Linux sandboxes booted ahead of a create. The table \<open>pool_sandboxes\<close>, the
  claim a create makes, and the filler: what it discards, keeps and starts, and how a pooled
  sandbox boots. The filler's lock and threads are left to the caller: \<open>fill\<close> and \<open>boot_pooled\<close> are
  the two bodies that run.
\<close>

definition POOL_KINDS :: "kind list" where "POOL_KINDS = [Desktop, Browser, Code]"
definition MAX_SIZE :: int where "MAX_SIZE = 10"
definition FAILED_TTL :: int where "FAILED_TTL = 300"
definition READY_TIMEOUT :: int where "READY_TIMEOUT = 90"
definition REFILL_SECONDS :: int where "REFILL_SECONDS = 10"

definition pool_id :: "kind \<Rightarrow> string option \<Rightarrow> string" where
  "pool_id k server_id = kind_text k @ '':'' @ (if truthy server_id then the server_id else ''local'')"

subsection \<open>Queries\<close>

definition list_pool_sandboxes :: "pool_sandbox tbl \<Rightarrow> pool_sandbox list" where
  "list_pool_sandboxes t = sort_key (\<lambda>r. (p_created_at r, p_seq r)) t"

definition list_pool_settings :: "pool_setting tbl \<Rightarrow> pool_setting list" where
  "list_pool_settings t = sort_key (\<lambda>r. (kind_text (po_kind r), case po_server_id r of None \<Rightarrow> (1 :: nat, []) | Some s \<Rightarrow> (0, s))) t"

definition get_pool_sandbox :: "pool_sandbox tbl \<Rightarrow> string \<Rightarrow> pool_sandbox option" where
  "get_pool_sandbox t i = find_row (\<lambda>r. p_id r = i) t"

text \<open>The oldest idle row of the kind, server and image; \<open>FOR UPDATE SKIP LOCKED\<close> lets racing claims take different rows.\<close>

definition claimable :: "kind \<Rightarrow> string \<Rightarrow> string \<Rightarrow> pool_sandbox \<Rightarrow> bool" where
  "claimable k server_id img r \<longleftrightarrow> p_status r = PoolIdle \<and> p_kind r = k \<and>
     (case p_server_id r of None \<Rightarrow> [] | Some s \<Rightarrow> s) = server_id \<and> p_image r = img"

definition claim_pool_sandbox :: "kind \<Rightarrow> string \<Rightarrow> string \<Rightarrow> pool_sandbox tbl \<Rightarrow> pool_sandbox option \<times> pool_sandbox tbl" where
  "claim_pool_sandbox k server_id img t =
     (case sort_key (\<lambda>r. (p_created_at r, p_seq r)) (filter (claimable k server_id img) t) of
        [] \<Rightarrow> (None, t)
      | r # _ \<Rightarrow> (Some r, delete_where (\<lambda>x. p_id x = p_id r) t))"

definition delete_pool_sandbox :: "string \<Rightarrow> pool_sandbox tbl \<Rightarrow> pool_sandbox option \<times> pool_sandbox tbl" where
  "delete_pool_sandbox i t = (get_pool_sandbox t i, delete_where (\<lambda>x. p_id x = i) t)"

definition create_pool_sandbox :: "time \<Rightarrow> int \<Rightarrow> string \<Rightarrow> kind \<Rightarrow> string option \<Rightarrow> string \<Rightarrow> (string, json) dict \<Rightarrow>
    pool_sandbox tbl \<Rightarrow> pool_sandbox \<times> pool_sandbox tbl" where
  "create_pool_sandbox now seq i k server_id img config t =
     (let r = \<lparr>p_id = i, p_kind = k, p_server_id = server_id, p_image = img, p_config = config, p_status = PoolBooting,
               p_runtime_id = None, p_runtime_host = None, p_error_message = None, p_created_at = now, p_updated_at = now, p_seq = seq\<rparr>
      in (r, t @ [r]))"

definition set_pool_sandbox_runtime :: "time \<Rightarrow> string \<Rightarrow> string option \<Rightarrow> string \<Rightarrow> pool_sandbox tbl \<Rightarrow> pool_sandbox tbl" where
  "set_pool_sandbox_runtime now rid host i =
     update_where (\<lambda>r. p_id r = i) (\<lambda>r. r\<lparr>p_runtime_id := Some rid, p_runtime_host := host, p_updated_at := now\<rparr>)"

definition set_pool_sandbox_idle :: "time \<Rightarrow> string \<Rightarrow> pool_sandbox tbl \<Rightarrow> pool_sandbox tbl" where
  "set_pool_sandbox_idle now i =
     update_where (\<lambda>r. p_id r = i \<and> p_status r = PoolBooting) (\<lambda>r. r\<lparr>p_status := PoolIdle, p_updated_at := now\<rparr>)"

definition set_pool_sandbox_failed :: "time \<Rightarrow> string \<Rightarrow> string \<Rightarrow> pool_sandbox tbl \<Rightarrow> pool_sandbox tbl" where
  "set_pool_sandbox_failed now err i =
     update_where (\<lambda>r. p_id r = i) (\<lambda>r. r\<lparr>p_status := PoolFailed, p_error_message := Some err, p_updated_at := now\<rparr>)"

definition set_pool_size :: "time \<Rightarrow> string \<Rightarrow> kind \<Rightarrow> string option \<Rightarrow> int \<Rightarrow> pool_setting tbl \<Rightarrow> pool_setting tbl" where
  "set_pool_size now i k server_id n t =
     (if \<exists>r \<in> set t. po_id r = i then update_where (\<lambda>r. po_id r = i) (\<lambda>r. r\<lparr>po_size := n, po_updated_at := now\<rparr>) t
      else t @ [\<lparr>po_id = i, po_kind = k, po_server_id = server_id, po_size = n, po_updated_at = now\<rparr>])"

text \<open>Creates of the last hour, counted per kind and interval.\<close>

definition list_recent_creates :: "time \<Rightarrow> int \<Rightarrow> sandbox tbl \<Rightarrow> (kind \<times> int \<times> int) list" where
  "list_recent_creates now interval t =
     (let keys = map (\<lambda>s. (s_kind s, s_created_at s div seconds interval)) (filter (\<lambda>s. s_created_at s > now - seconds 3600) t)
      in map (\<lambda>(k, b). (k, b, int (count_list keys (k, b)))) (remdups keys))"

subsection \<open>How large the pool is\<close>

text \<open>
  The 99th percentile of the creates in an interval over the last hour: \<open>intervals\<close> counts, those
  without a create 0, in order, at index \<open>min(intervals, ceil(0.99 * intervals)) - 1\<close>.
\<close>

definition intervals :: nat where "intervals = nat (3600 div REFILL_SECONDS)"

definition rank :: nat where "rank = min intervals ((99 * intervals + 99) div 100) - 1"

definition percentile :: "int list \<Rightarrow> int" where
  "percentile found = sort (replicate (intervals - length found) 0 @ found) ! rank"

definition demand :: "time \<Rightarrow> sandbox tbl \<Rightarrow> (kind, int) dict" where
  "demand now t =
     (let rows = filter (\<lambda>(k, b, n). k \<in> set POOL_KINDS) (list_recent_creates now REFILL_SECONDS t);
          counts = (\<lambda>k. map (\<lambda>(k', b, n). n) (filter (\<lambda>(k', b, n). k' = k) rows))
      in map (\<lambda>k. (k, min MAX_SIZE (percentile (counts k)))) (rev (remdups (rev (map fst rows)))))"

subsection \<open>Claiming\<close>

definition pool_claim :: "images \<Rightarrow> kind \<Rightarrow> string option \<Rightarrow> 'h world \<Rightarrow> pool_sandbox option \<times> 'h world" where
  "pool_claim im k server_id w =
     (if k \<notin> set POOL_KINDS then (None, w)
      else case claim_pool_sandbox k (case server_id of None \<Rightarrow> [] | Some s \<Rightarrow> s) (default_image im k) (w_pool w) of
          (None, t) \<Rightarrow> (None, w\<lparr>w_pool := t\<rparr>)
        | (Some r, t) \<Rightarrow> (Some r, w\<lparr>w_pool := t, w_pool_claimed := dict_set (pool_id k server_id)
            ((case dict_get (w_pool_claimed w) (pool_id k server_id) of None \<Rightarrow> 0 | Some n \<Rightarrow> n) + 1) (w_pool_claimed w)\<rparr>))"

subsection \<open>Filling\<close>

text \<open>Removing a pooled sandbox's container and volume: what fails is logged and left.\<close>

definition pool_remove :: "'h hosts \<Rightarrow> pool_sandbox \<Rightarrow> server option \<Rightarrow> (unit, 'h) prog" where
  "pool_remove H row server =
     bindp (attempt (on_host (if truthy (p_runtime_id row) then remove_container H (the (p_runtime_id row))
         else case server of
             Some sv \<Rightarrow> op_remove_named H (DRemote (sv_id sv)) (''zoo-sandbox-'' @ p_id row)
           | None \<Rightarrow> remove_named_container H (''zoo-sandbox-'' @ p_id row))) (\<lambda>e. ret ()))
       (\<lambda>_. attempt (on_host (remove_volume_id H (p_id row) (p_config row))) (\<lambda>e. ret ()))"

definition pool_discard :: "'h hosts \<Rightarrow> pool_sandbox \<Rightarrow> server option \<Rightarrow> (unit, 'h) prog" where
  "pool_discard H row server =
     bindp (session (\<lambda>z. case delete_pool_sandbox (p_id row) (w_pool (q_world z)) of (deleted, t) \<Rightarrow>
         Inr (deleted, on_world (\<lambda>w. w\<lparr>w_pool := t\<rparr>) z)))
       (\<lambda>deleted. case deleted of None \<Rightarrow> ret () | Some r \<Rightarrow> pool_remove H r server)"

definition pool_alive :: "'h hosts \<Rightarrow> pool_sandbox \<Rightarrow> (bool, 'h) prog" where
  "pool_alive H row =
     attempt (if truthy (p_runtime_id row) then on_host (is_running H (the (p_runtime_id row))) else ret False) (\<lambda>e. ret True)"

definition age :: "time \<Rightarrow> pool_sandbox \<Rightarrow> time" where
  "age now row = now - p_updated_at row"

definition server_named :: "server tbl \<Rightarrow> string option \<Rightarrow> server option" where
  "server_named servers i = (if truthy i then find_row (\<lambda>s. sv_id s = the i) servers else None)"

definition join_pool :: "pool_sandbox \<Rightarrow> (string, pool_sandbox list) dict \<Rightarrow> (string, pool_sandbox list) dict" where
  "join_pool row pools = (let k = pool_id (p_kind row) (p_server_id row)
     in dict_set k ((case dict_get pools k of None \<Rightarrow> [] | Some rs \<Rightarrow> rs) @ [row]) pools)"

fun triage :: "'h hosts \<Rightarrow> time \<Rightarrow> server tbl \<Rightarrow> pool_sandbox list \<Rightarrow> (string, pool_sandbox list) dict \<Rightarrow>
    ((string, pool_sandbox list) dict, 'h) prog" where
  "triage H now servers [] pools = ret pools"
| "triage H now servers (row # rows) pools =
     (let server = server_named servers (p_server_id row);
          keep = triage H now servers rows (join_pool row pools);
          drop_it = bindp (pool_discard H row server) (\<lambda>_. triage H now servers rows pools)
      in bindp (reading (\<lambda>z. p_id row \<in> set (w_pool_booting (q_world z)))) (\<lambda>booting.
         if booting then keep
         else if p_status row = PoolBooting then drop_it
         else if p_status row = PoolFailed then (if age now row > seconds FAILED_TTL then drop_it else keep)
         else if p_image row \<noteq> default_image (rt_images H) (p_kind row) then drop_it
         else bindp (pool_alive H row) (\<lambda>alive. if \<not> alive then drop_it else keep)))"

definition kind_of_text :: "string \<Rightarrow> kind option" where
  "kind_of_text t = find (\<lambda>k. kind_text k = t) [Desktop, Browser, Code, Macos, Windows]"

text \<open>\<open>start\<close>: the new row, under a fresh id; its boot is \<open>boot_pooled\<close>.\<close>

definition pool_start :: "'h hosts \<Rightarrow> time \<Rightarrow> entropy \<Rightarrow> kind \<Rightarrow> server option \<Rightarrow> (pool_sandbox, 'h) prog" where
  "pool_start H now en k server =
     (let sandbox_id = en_id en;
          config = [(''home_claim'', JStr (''zoo-home-'' @ sandbox_id))] @
            (case server of None \<Rightarrow> [] | Some sv \<Rightarrow> [(''remote_server_id'', JStr (sv_id sv))])
      in session (\<lambda>z.
           bindr (if k \<noteq> Code
                  then bindr (encrypt (rt_ciphers H) (rt_env H) en now (en_password en) SYSTEM (q_world z)) (\<lambda>(token, w).
                    Inr (dict_set VNC_PASSWORD (JStr token) config, w))
                  else Inr (config, q_world z)) (\<lambda>(config', w).
           let (row, t) = create_pool_sandbox now (w_pool_seq w) sandbox_id k (map_option sv_id server)
                 (default_image (rt_images H) k) config' (w_pool w)
           in Inr (row, z\<lparr>q_world := w\<lparr>w_pool := t, w_pool_seq := w_pool_seq w + 1,
                w_pool_booting := p_id row # w_pool_booting w\<rparr>\<rparr>))))"

fun start_many :: "'h hosts \<Rightarrow> time \<Rightarrow> (nat \<Rightarrow> entropy) \<Rightarrow> nat \<Rightarrow> nat \<Rightarrow> kind \<Rightarrow> server option \<Rightarrow> (unit, 'h) prog" where
  "start_many H now ens i 0 k server = ret ()"
| "start_many H now ens i (Suc n) k server =
     bindp (pool_start H now (ens i) k server) (\<lambda>_. start_many H now ens (Suc i) n k server)"

text \<open>One pool brought to its size; the random values of the sandboxes it starts are numbered by their place.\<close>

definition guest_ready :: "'h hosts \<Rightarrow> server option \<Rightarrow> (bool, 'h) prog" where
  "guest_ready H server = session (\<lambda>z. bindr (rt_guest_env H [] (server \<noteq> None)) (\<lambda>e. Inr (e \<noteq> [], z)))"

definition resize :: "'h hosts \<Rightarrow> time \<Rightarrow> (nat \<Rightarrow> entropy) \<Rightarrow> server tbl \<Rightarrow> string \<Rightarrow> int \<Rightarrow> pool_sandbox list \<Rightarrow> (unit, 'h) prog" where
  "resize H now ens servers key n members =
     (let (kt, _, server_id) = partition_at (CHR '':'') key;
          server = (if server_id = ''local'' then None else find_row (\<lambda>s. sv_id s = server_id) servers);
          idles = filter (\<lambda>r. p_status r = PoolIdle) members;
          missing = n - int (length members)
      in if (\<exists>r \<in> set members. p_status r = PoolFailed) \<or> server_id \<noteq> ''local'' \<and> server = None then ret ()
         else bindp (foreach (\<lambda>row. pool_discard H row server) (drop (nat n) idles)) (\<lambda>_.
           case kind_of_text kt of
             None \<Rightarrow> ret ()
           | Some k \<Rightarrow> if missing > 0
               then bindp (guest_ready H server) (\<lambda>ready. whenp ready (start_many H now ens 0 (nat missing) k server)) else ret ()))"

fun resize_all :: "'h hosts \<Rightarrow> time \<Rightarrow> (string \<Rightarrow> nat \<Rightarrow> entropy) \<Rightarrow> server tbl \<Rightarrow> (string, int) dict \<Rightarrow>
    (string, pool_sandbox list) dict \<Rightarrow> ((string, pool_sandbox list) dict, 'h) prog" where
  "resize_all H now ens servers [] pools = ret pools"
| "resize_all H now ens servers ((key, n) # sizes) pools =
     bindp (resize H now (ens key) servers key n (case dict_get pools key of None \<Rightarrow> [] | Some rs \<Rightarrow> rs)) (\<lambda>_.
       resize_all H now ens servers sizes (dict_pop key pools))"

definition pool_sizes :: "time \<Rightarrow> 'h world \<Rightarrow> (string, int) dict" where
  "pool_sizes now w =
     fold (\<lambda>(k, wanted) sizes. dict_set (pool_id k None)
         (max (case dict_get sizes (pool_id k None) of None \<Rightarrow> 0 | Some n \<Rightarrow> n) wanted) sizes)
       (demand now (w_sandboxes w)) (dict_merge [] (map (\<lambda>r. (po_id r, po_size r)) (list_pool_settings (w_pool_settings w))))"

definition fill :: "'h hosts \<Rightarrow> time \<Rightarrow> (string \<Rightarrow> nat \<Rightarrow> entropy) \<Rightarrow> (unit, 'h) prog" where
  "fill H now ens =
     bindp (on_host (refill_volumes H)) (\<lambda>_.
     bindp (reading (\<lambda>z. (pool_sizes now (q_world z), list_pool_sandboxes (w_pool (q_world z)), w_servers (q_world z)))) (\<lambda>(sizes, rows, servers).
     bindp (triage H now servers rows []) (\<lambda>pools.
     bindp (resize_all H now ens servers sizes pools) (\<lambda>rest.
       foreach (\<lambda>row. bindp (reading (\<lambda>z. p_id row \<in> set (w_pool_booting (q_world z)))) (\<lambda>booting.
           if booting then ret () else pool_discard H row (server_named servers (p_server_id row))))
         (concat (map snd rest))))))"

definition pool_drain :: "'h hosts \<Rightarrow> server \<Rightarrow> (unit, 'h) prog" where
  "pool_drain H server =
     bindp (reading (\<lambda>z. filter (\<lambda>r. p_server_id r = Some (sv_id server)) (list_pool_sandboxes (w_pool (q_world z)))))
       (foreach (\<lambda>row. pool_discard H row (Some server)))"

subsection \<open>Booting a pooled sandbox\<close>

definition json_text :: "json option \<Rightarrow> string" where
  "json_text j = (case j of Some (JStr s) \<Rightarrow> s | _ \<Rightarrow> [])"

text \<open>The environment of the container, in the order it is put together.\<close>

definition pool_env :: "'h hosts \<Rightarrow> pool_sandbox \<Rightarrow> server option \<Rightarrow> (env, 'h) prog" where
  "pool_env H row server =
     session (\<lambda>z.
       bindr (rt_guest_env H (p_id row) (server \<noteq> None)) (\<lambda>e.
       let e1 = (if p_kind row = Browser
                 then dict_set ''ZOO_BROWSER_WAIT'' ''1'' (dict_set ''ZOO_BROWSER_HOME'' (rt_BROWSER_HOME H) e) else e)
       in if p_kind row \<noteq> Code
          then lift_world (\<lambda>w. bindr (decrypt (rt_ciphers H) (rt_env H) (json_text (dict_get (p_config row) VNC_PASSWORD)) w)
                 (\<lambda>(v, w'). Inr (dict_set ''ZOO_VNC_PASSWORD'' v e1, w'))) z
          else Inr (e1, z)))"

definition boot_pooled_steps :: "'h hosts \<Rightarrow> time \<Rightarrow> pool_sandbox \<Rightarrow> server option \<Rightarrow> (unit, 'h) prog" where
  "boot_pooled_steps H now row server =
     (let desktop = (p_kind row \<noteq> Code) in
      bindp (pool_env H row server) (\<lambda>e.
      bindp (on_host (run_container H (''zoo-sandbox-'' @ p_id row) (p_image row) (p_id row) e server desktop DEFAULT_SIZE)) (\<lambda>(rid, host).
      bindp (on_host (op_bind H rid (p_id row))) (\<lambda>_.
      bindp (changing (on_world (\<lambda>w. w\<lparr>w_pool := set_pool_sandbox_runtime now rid host (p_id row) (w_pool w)\<rparr>))) (\<lambda>_.
      bindp (on_host (apply_network H rid ''deny'' False [])) (\<lambda>_.
      bindp (on_host (if desktop then op_wait_for_desktop H (p_id row) READY_TIMEOUT else op_wait_for_guest H (p_id row) READY_TIMEOUT)) (\<lambda>ready.
      if \<not> ready then throw (RuntimeError ''did not come up in time'')
      else bindp (whenp (is_kube H \<and> server = None) (on_host (pause H rid))) (\<lambda>_.
        changing (on_world (\<lambda>w. w\<lparr>w_pool := set_pool_sandbox_idle now (p_id row) (w_pool w)\<rparr>))))))))))"

definition fault_text :: "fault \<Rightarrow> string" where
  "fault_text f = (case f of FWait r w \<Rightarrow> r | FExc e \<Rightarrow> e)"

definition boot_pooled :: "'h hosts \<Rightarrow> time \<Rightarrow> pool_sandbox \<Rightarrow> server option \<Rightarrow> (unit, 'h) prog" where
  "boot_pooled H now row server =
     bindp (attempt (boot_pooled_steps H now row server) (\<lambda>e.
       bindp (changing (on_world (\<lambda>w. w\<lparr>w_pool := set_pool_sandbox_failed now (fault_text e) (p_id row) (w_pool w)\<rparr>))) (\<lambda>_.
       bindp (reading (\<lambda>z. find_row (\<lambda>r. p_id r = p_id row) (list_pool_sandboxes (w_pool (q_world z))))) (\<lambda>failed.
         case failed of None \<Rightarrow> ret () | Some r \<Rightarrow> pool_remove H r server))))
       (\<lambda>_. changing (on_world (\<lambda>w. w\<lparr>w_pool_booting := removeAll (p_id row) (w_pool_booting w)\<rparr>)))"

subsection \<open>Status\<close>

record pool_status_row =
  pt_kind :: kind
  pt_server_id :: "string option"
  pt_size :: int
  pt_idle :: nat
  pt_booting :: nat
  pt_claimed :: int
  pt_error :: "string option"

definition pool_status_of :: "'h world \<Rightarrow> kind \<times> string option \<Rightarrow> pool_status_row" where
  "pool_status_of w ks =
     (let (k, server_id) = ks; key = pool_id k server_id;
          members = filter (\<lambda>r. pool_id (p_kind r) (p_server_id r) = key) (list_pool_sandboxes (w_pool w));
          failed = find (\<lambda>r. p_status r = PoolFailed) members
      in \<lparr>pt_kind = k, pt_server_id = server_id,
          pt_size = (case dict_get (dict_merge [] (map (\<lambda>r. (po_id r, po_size r)) (list_pool_settings (w_pool_settings w)))) key of
            None \<Rightarrow> 0 | Some n \<Rightarrow> n),
          pt_idle = length (filter (\<lambda>r. p_status r = PoolIdle) members),
          pt_booting = length (filter (\<lambda>r. p_status r = PoolBooting) members),
          pt_claimed = (case dict_get (w_pool_claimed w) key of None \<Rightarrow> 0 | Some n \<Rightarrow> n),
          pt_error = (case failed of None \<Rightarrow> None | Some r \<Rightarrow> p_error_message r)\<rparr>)"

subsection \<open>Lemmas\<close>

interpretation pool_rows: keyed_table p_id get_pool_sandbox
  by unfold_locales (simp add: get_pool_sandbox_def)

lemma sort_key_hd_least: "sort_key f xs = y # ys \<Longrightarrow> x \<in> set xs \<Longrightarrow> f y \<le> f x"
  using sorted_sort_key [of f xs] by (metis list.simps(9) order_refl set_ConsD set_sort sorted_simps(2) image_eqI set_map)

lemma claim_pool_sandboxD:
  assumes "claim_pool_sandbox k srv img t = (Some r, t')"
  shows "r \<in> set t \<and> claimable k srv img r \<and> t' = delete_where (\<lambda>x. p_id x = p_id r) t \<and>
    (\<forall>x \<in> set t. claimable k srv img x \<longrightarrow> (p_created_at r, p_seq r) \<le> (p_created_at x, p_seq x))"
proof -
  obtain ys where ys: "sort_key (\<lambda>r. (p_created_at r, p_seq r)) (filter (claimable k srv img) t) = r # ys"
    "t' = delete_where (\<lambda>x. p_id x = p_id r) t"
    using assms by (auto simp: claim_pool_sandbox_def split: list.splits)
  have "r \<in> set (filter (claimable k srv img) t)" using sort_key_ConsD [OF ys(1)] .
  moreover have "(p_created_at r, p_seq r) \<le> (p_created_at x, p_seq x)" if "x \<in> set t" "claimable k srv img x" for x
    using sort_key_hd_least [OF ys(1), of x] that by simp
  ultimately show ?thesis using ys(2) by simp
qed

lemma sorted_above:
  assumes "sorted xs" and "r < length xs"
  shows "length (filter (\<lambda>x. xs ! r < x) xs) \<le> length xs - Suc r"
proof -
  have "filter (\<lambda>x. xs ! r < x) (take (Suc r) xs) = []"
    using assms sorted_nth_mono [OF assms(1) _ assms(2)] by (auto simp: filter_empty_conv in_set_conv_nth not_less less_Suc_eq_le)
  then have "filter (\<lambda>x. xs ! r < x) xs = filter (\<lambda>x. xs ! r < x) (drop (Suc r) xs)"
    by (metis append_Nil append_take_drop_id filter_append)
  then show ?thesis by (metis length_drop length_filter_le)
qed

lemma intervals_360: "intervals = 360" and rank_356: "rank = 356"
  by (simp_all add: rank_def intervals_def REFILL_SECONDS_def)

lemma percentile_above:
  "length (filter (\<lambda>n. percentile found < n) found) \<le> max intervals (length found) - 357"
proof -
  let ?xs = "sort (replicate (intervals - length found) 0 @ found)"
  have len: "length ?xs = max intervals (length found)" by simp
  have "length (filter (\<lambda>n. percentile found < n) found) \<le> length (filter (\<lambda>x. ?xs ! rank < x) ?xs)"
    by (simp add: percentile_def filter_sort)
  also have "\<dots> \<le> length ?xs - Suc rank"
    by (rule sorted_above) (simp_all add: intervals_360 rank_356)
  finally show ?thesis by (simp add: len rank_356)
qed

lemma percentile_above_3: "length found \<le> intervals \<Longrightarrow> length (filter (\<lambda>n. percentile found < n) found) \<le> 3"
  using percentile_above [of found] by (simp add: intervals_360 max_def split: if_splits)

lemma percentile_mem: "percentile found \<in> insert 0 (set found)"
proof -
  let ?xs = "sort (replicate (intervals - length found) 0 @ found)"
  have "?xs ! rank \<in> set ?xs" by (rule nth_mem) (simp add: intervals_360 rank_356)
  then show ?thesis by (auto simp: percentile_def)
qed

subsection \<open>Properties\<close>


text \<open>
  The pool follows demand: the size asked for a kind is between 0 and \<open>MAX_SIZE\<close>, and unless it is
  \<open>MAX_SIZE\<close> at most three of the 360 intervals of the last hour had more creates of that kind.
\<close>

theorem demand_covers:
  assumes "(k, n) \<in> set (demand now t)" and "n < MAX_SIZE"
    and "length (filter (\<lambda>(k', b, m). k' = k) (list_recent_creates now REFILL_SECONDS t)) \<le> intervals"
  shows "0 \<le> n \<and> k \<in> set POOL_KINDS \<and>
    length (filter (\<lambda>(k', b, m). k' = k \<and> n < m) (list_recent_creates now REFILL_SECONDS t)) \<le> 3"
proof -
  let ?rows = "list_recent_creates now REFILL_SECONDS t"
  let ?found = "map (\<lambda>(k', b, m). m) (filter (\<lambda>(k', b, m). k' = k) (filter (\<lambda>(k, b, n). k \<in> set POOL_KINDS) ?rows))"
  have k: "k \<in> set POOL_KINDS" and "n = min MAX_SIZE (percentile ?found)"
    using assms(1) by (auto simp: demand_def Let_def)
  then have n: "n = percentile ?found" using assms(2) by simp
  have "\<forall>m \<in> set ?found. 0 \<le> m" by (auto simp: list_recent_creates_def Let_def)
  then have "0 \<le> n" using percentile_mem [of ?found] n by auto
  have f: "?found = map (\<lambda>(k', b, m). m) (filter (\<lambda>(k', b, m). k' = k) ?rows)"
    using k by (auto simp: case_prod_unfold intro!: arg_cong [of _ _ "map _"] filter_cong)
  have "length ?found \<le> intervals" using assms(3) unfolding f by simp
  then have "length (filter (\<lambda>m. n < m) ?found) \<le> 3"
    unfolding n by (rule percentile_above_3)
  moreover have "length (filter (\<lambda>m. n < m) ?found) = length (filter (\<lambda>(k', b, m). k' = k \<and> n < m) ?rows)"
    unfolding f by (simp add: filter_map o_def case_prod_unfold conj_commute)
  ultimately show ?thesis using k \<open>0 \<le> n\<close> by simp
qed

definition demo_pooled :: pool_sandbox where
  "demo_pooled = (fst (create_pool_sandbox 0 1 ''s9'' Code None ''zoo-code'' [] []))\<lparr>p_status := PoolIdle, p_runtime_id := Some ''c9''\<rparr>"


definition demo_creates :: "sandbox tbl" where
  "demo_creates = [demo_sandbox\<lparr>s_created_at := seconds 5000\<rparr>, demo_sandbox\<lparr>s_created_at := seconds 5001\<rparr>]"

theorem demand_covers_witness:
  "(Desktop, 0) \<in> set (demand (seconds 6000) demo_creates) \<and>
   length (filter (\<lambda>(k', b, m). k' = Desktop \<and> 0 < m) (list_recent_creates (seconds 6000) REFILL_SECONDS demo_creates)) \<le> 3"
proof -
  have rows: "list_recent_creates (seconds 6000) REFILL_SECONDS demo_creates = [(Desktop, 500, 2)]"
    by (simp add: list_recent_creates_def demo_creates_def demo_sandbox_def create_sandbox_def Let_def REFILL_SECONDS_def seconds_def)
  have p: "percentile [2] = 0"
  proof -
    have "sorted (replicate 359 (0 :: int) @ [2])" by (simp add: sorted_append)
    then have "sort (replicate 359 (0 :: int) @ [2]) = replicate 359 0 @ [2]" by (rule sorted_sort_id)
    then show ?thesis by (simp add: percentile_def intervals_360 rank_356 nth_append)
  qed
  have d: "(Desktop, 0) \<in> set (demand (seconds 6000) demo_creates)"
    by (simp add: demand_def rows POOL_KINDS_def Let_def p MAX_SIZE_def)
  with demand_covers [OF d] show ?thesis by (simp add: rows MAX_SIZE_def intervals_360)
qed

end
