(* ===== verification/Lifecycle.thy ===== *)
theory Lifecycle
  imports Pools
begin

section \<open>The sandbox routes\<close>

text \<open>
  The routes of \<open>apps/server/sandbox_api.py\<close> that change a sandbox, and \<open>create\<close>. Each is one
  database session: it takes the state and gives the response with the new state, or the
  exception, after which nothing has changed. The ids of new rows are \<open>ids 0\<close>, \<open>ids 1\<close> and so on; \<open>hs\<close> are the
  registered job handlers, of which a route uses the number of attempts.
\<close>

type_synonym 'h session_of = "'h zoo \<Rightarrow> (sandbox_view \<times> 'h zoo) res"

subsection \<open>Queries\<close>

definition get_profile :: "profile tbl \<Rightarrow> string \<Rightarrow> profile option" where
  "get_profile t i = find_row (\<lambda>p. pf_id p = i) t"

definition get_vault_secret :: "vault_secret tbl \<Rightarrow> string \<Rightarrow> vault_secret option" where
  "get_vault_secret t i = find_row (\<lambda>v. vs_id v = i) t"

definition attach_vault_secret :: "time \<Rightarrow> string \<Rightarrow> string \<Rightarrow> vault_grant tbl \<Rightarrow> vault_grant tbl" where
  "attach_vault_secret now sandbox_id secret_id t =
     (if \<exists>g \<in> set t. vg_sandbox_id g = sandbox_id \<and> vg_secret_id g = secret_id then t
      else t @ [\<lparr>vg_sandbox_id = sandbox_id, vg_secret_id = secret_id, vg_created_at = now, vg_last_used_at = None\<rparr>])"

definition list_sandbox_images :: "sandbox_image tbl \<Rightarrow> string \<Rightarrow> sandbox_image list" where
  "list_sandbox_images t ws = sort_key (\<lambda>i. - im_created_at i) (filter (\<lambda>i. im_workspace_id i = ws) t)"

definition get_sandbox_image :: "sandbox_image tbl \<Rightarrow> string \<Rightarrow> sandbox_image option" where
  "get_sandbox_image t i = find_row (\<lambda>r. im_id r = i) t"

definition get_sandbox_image_version :: "image_version tbl \<Rightarrow> string \<Rightarrow> image_version option" where
  "get_sandbox_image_version t i = find_row (\<lambda>r. iv_id r = i) t"

definition get_sandbox_image_version_by_tag :: "image_version tbl \<Rightarrow> string \<Rightarrow> string \<Rightarrow> image_version option" where
  "get_sandbox_image_version_by_tag t image_id version = find_row (\<lambda>r. iv_image_id r = image_id \<and> iv_version r = version) t"

definition create_sandbox_image :: "time \<Rightarrow> string \<Rightarrow> string \<Rightarrow> string \<Rightarrow> string \<Rightarrow> string \<Rightarrow> sandbox_image tbl \<Rightarrow> sandbox_image \<times> sandbox_image tbl" where
  "create_sandbox_image now i ws name slug created_by t =
     (let r = \<lparr>im_id = i, im_workspace_id = ws, im_name = name, im_slug = slug, im_description = None, im_is_public = False,
               im_created_by = created_by, im_created_at = now, im_updated_at = now\<rparr> in (r, t @ [r]))"

definition create_sandbox_image_version :: "time \<Rightarrow> string \<Rightarrow> string \<Rightarrow> string \<Rightarrow> string \<Rightarrow> string \<Rightarrow> image_version tbl \<Rightarrow>
    image_version \<times> image_version tbl" where
  "create_sandbox_image_version now i image_id version image_uri created_by t =
     (let r = \<lparr>iv_id = i, iv_image_id = image_id, iv_version = version, iv_image_uri = image_uri, iv_image_digest = None,
               iv_build_config = ''{}'', iv_default_resources = ''{}'', iv_created_by = created_by, iv_created_at = now\<rparr>
      in (r, t @ [r]))"

subsection \<open>Creating a sandbox\<close>

record create_request =
  cr_name :: "string option"
  cr_kind :: kind
  cr_server_id :: "string option"
  cr_profile_ids :: "string list"
  cr_secret_ids :: "string list"
  cr_admin :: bool
  cr_queue :: bool
  cr_cpus :: rat
  cr_memory_mb :: int
  cr_disk_gb :: "int option"
  cr_idle_timeout_minutes :: "int option"
  cr_max_lifetime_minutes :: "int option"
  cr_labels :: labels

definition cr_size :: "create_request \<Rightarrow> sizing" where
  "cr_size p = \<lparr>z_cpus = cr_cpus p, z_memory_mb = cr_memory_mb p, z_disk_gb = cr_disk_gb p\<rparr>"

definition IMAGE_SLUG :: string where "IMAGE_SLUG = ''zoo-sandbox''"
definition IMAGE_VERSION :: string where "IMAGE_VERSION = ''latest''"

definition default_image_version :: "images \<Rightarrow> time \<Rightarrow> (nat \<Rightarrow> string) \<Rightarrow> member \<Rightarrow> 'h world \<Rightarrow> image_version \<times> 'h world" where
  "default_image_version im now ids u w =
     (let (img, w1) = (case find (\<lambda>i. im_slug i = IMAGE_SLUG) (list_sandbox_images (w_images w) (mb_workspace_id u)) of
            Some i \<Rightarrow> (i, w)
          | None \<Rightarrow> let (r, t) = create_sandbox_image now (ids 0) (mb_workspace_id u) ''Zoo desktop'' IMAGE_SLUG (mb_id u) (w_images w)
                    in (r, w\<lparr>w_images := t\<rparr>))
      in case get_sandbox_image_version_by_tag (w_versions w1) (im_id img) IMAGE_VERSION of
           Some v \<Rightarrow> (v, w1)
         | None \<Rightarrow> let (r, t) = create_sandbox_image_version now (ids 1) (im_id img) IMAGE_VERSION (image_desktop im) (mb_id u) (w_versions w1)
                   in (r, w1\<lparr>w_versions := t\<rparr>))"

fun check_profiles :: "member \<Rightarrow> kind \<Rightarrow> profile tbl \<Rightarrow> string list \<Rightarrow> unit res" where
  "check_profiles u k t [] = Inr ()"
| "check_profiles u k t (i # is) =
     (case get_profile t i of
        None \<Rightarrow> Inl (HTTPException 404 ''profile not found'')
      | Some p \<Rightarrow>
          if pf_workspace_id p \<noteq> mb_workspace_id u then Inl (HTTPException 404 ''profile not found'')
          else if pf_platform p \<noteq> platform_of k
          then Inl (HTTPException 400 (''profile '' @ pf_name p @ '' is from a '' @ pf_platform p @ '' sandbox''))
          else check_profiles u k t is)"

fun check_secrets :: "member \<Rightarrow> vault_secret tbl \<Rightarrow> string list \<Rightarrow> unit res" where
  "check_secrets u t [] = Inr ()"
| "check_secrets u t (i # is) =
     (case get_vault_secret t i of
        None \<Rightarrow> Inl (HTTPException 404 ''secret not found'')
      | Some v \<Rightarrow> if vs_workspace_id v \<noteq> mb_workspace_id u then Inl (HTTPException 404 ''secret not found'')
                  else check_secrets u t is)"

text \<open>The checks of \<open>create\<close> in their order: what they give is the server the sandbox goes to and its labels.\<close>

definition admit :: "'h hosts \<Rightarrow> create_request \<Rightarrow> member \<Rightarrow> 'h zoo \<Rightarrow> (string option \<times> labels) res" where
  "admit H p u z =
     (if cr_admin p \<and> cr_kind p \<noteq> Macos then Inl (HTTPException 400 ''admin sandboxes are for macOS'')
      else if in_VMS (cr_kind p) \<and> cr_size p \<noteq> DEFAULT_SIZE
      then Inl (HTTPException 400 ''sizing is supported on Linux sandboxes only'')
      else bindr (scoped (cr_labels p) (mb_key_labels u)) (\<lambda>ls.
           bindr (check_quota (rt_UNSIZED_DISK_GB H) (q_world z) (mb_workspace_id u) (cr_size p) True ls) (\<lambda>_.
           bindr (place (rt_available H (w_host (q_world z))) (rt_max_vms H) (cr_server_id p) u (cr_kind p) (cr_queue p) z) (\<lambda>server_id.
           bindr (check_profiles u (cr_kind p) (w_profiles (q_world z)) (cr_profile_ids p)) (\<lambda>_.
           bindr (check_secrets u (w_secrets (q_world z)) (cr_secret_ids p)) (\<lambda>_. Inr (server_id, ls)))))))"

text \<open>The configuration of the new sandbox; a warm one brings its own, under the request's.\<close>

definition new_config :: "create_request \<Rightarrow> string option \<Rightarrow> pool_sandbox option \<Rightarrow> string \<Rightarrow> (string, json) dict" where
  "new_config p server_id pooled i =
     (let c0 = [(''profiles'', JList (map JStr (cr_profile_ids p)))];
          c1 = (if truthy server_id \<and> \<not> in_VMS (cr_kind p) then dict_set ''remote_server_id'' (JStr (the server_id)) c0 else c0);
          c2 = (if \<not> in_VMS (cr_kind p) \<and> pooled = None then dict_set ''home_claim'' (JStr (''zoo-home-'' @ i)) c1 else c1);
          c3 = (if cr_admin p then dict_set ''admin'' (JBool True) c2 else c2)
      in case pooled of
           None \<Rightarrow> c3
         | Some r \<Rightarrow> dict_set ''pooled'' (JBool True) (dict_set ''image'' (JStr (p_image r)) (dict_merge (p_config r) c3)))"

text \<open>The secrets of the request attached, each once, with its audit row.\<close>

fun attach_secrets :: "time \<Rightarrow> (nat \<Rightarrow> string) \<Rightarrow> nat \<Rightarrow> member \<Rightarrow> sandbox \<Rightarrow> string list \<Rightarrow> 'h world \<Rightarrow> 'h world" where
  "attach_secrets now ids n u s [] w = w"
| "attach_secrets now ids n u s (i # is) w =
     (let name = (case get_vault_secret (w_secrets w) i of None \<Rightarrow> [] | Some v \<Rightarrow> vs_name v)
      in attach_secrets now ids (Suc n) u s is
           (audit now (ids n) u ''secret.attach'' ''secret'' (Some i) (Some (s_id s)) [(''name'', JStr name), (''sandbox'', JStr (s_name s))]
             (w\<lparr>w_grants := attach_vault_secret now (s_id s) i (w_grants w)\<rparr>)))"

definition sandbox_rows :: "'h hosts \<Rightarrow> time \<Rightarrow> create_request \<Rightarrow> member \<Rightarrow> image_version \<Rightarrow> string option \<Rightarrow> pool_sandbox option \<Rightarrow> string \<Rightarrow>
    sandbox tbl \<Rightarrow> sandbox \<times> sandbox tbl" where
  "sandbox_rows H now p u v server_id pooled i t =
     (let name = (case cr_name p of Some (c # cs) \<Rightarrow> c # cs | _ \<Rightarrow> ''sandbox-'' @ take 8 i);
          (s, t0) = create_sandbox now i (mb_workspace_id u) (iv_id v) (mb_id u) name
            (if in_VMS (cr_kind p) then kind_text (cr_kind p) else rt_NAME H) ''{}'' (new_config p server_id pooled i) t;
          t1 = (case pooled of None \<Rightarrow> t0 | Some r \<Rightarrow> update_sandbox_runtime now (p_runtime_id r) (p_runtime_host r) i t0);
          t2 = set_sandbox_placement now server_id (cr_kind p) i t1;
          t3 = set_sandbox_size (cr_cpus p) (cr_memory_mb p) (cr_disk_gb p) i t2
      in (s, set_sandbox_lifecycle (cr_idle_timeout_minutes p) (cr_max_lifetime_minutes p) i t3))"

definition create_rows :: "'h hosts \<Rightarrow> time \<Rightarrow> (nat \<Rightarrow> string) \<Rightarrow> create_request \<Rightarrow> member \<Rightarrow> image_version \<Rightarrow> string option \<Rightarrow> labels \<Rightarrow>
    pool_sandbox option \<Rightarrow> 'h world \<Rightarrow> string \<times> 'h world" where
  "create_rows H now ids p u v server_id ls pooled w =
     (let i = (case pooled of Some r \<Rightarrow> p_id r | None \<Rightarrow> ids 2);
          (s, t) = sandbox_rows H now p u v server_id pooled i (w_sandboxes w);
          (ls1, us1) = put i ls (w_labels w, w_usage_labels w);
          w1 = attach_secrets now ids 4 u s (rev (remdups (rev (cr_secret_ids p))))
            (w\<lparr>w_sandboxes := t, w_labels := ls1, w_usage_labels := us1\<rparr>)
      in (i, w1\<lparr>w_sandboxes := update_sandbox_status now Provisioning i (w_sandboxes w1)\<rparr>))"

definition create :: "'h hosts \<Rightarrow> 'h world handlers \<Rightarrow> time \<Rightarrow> (nat \<Rightarrow> string) \<Rightarrow> create_request \<Rightarrow> member \<Rightarrow> 'h zoo \<Rightarrow> (sandbox \<times> 'h zoo) res" where
  "create H hs now ids p u z =
     bindr (require u Member) (\<lambda>_.
     if mb_key_sandbox_id u \<noteq> None then Inl (HTTPException 403 ''this API key only reaches its own sandbox'')
     else let (v, w0) = default_image_version (rt_images H) now ids u (q_world z);
              z0 = z\<lparr>q_world := w0\<rparr>
          in bindr (admit H p u z0) (\<lambda>(server_id, ls).
             let (pooled, w1) = (if cr_size p = DEFAULT_SIZE then pool_claim (rt_images H) (cr_kind p) server_id w0 else (None, w0));
                 (i, w2) = create_rows H now ids p u v server_id ls pooled w1;
                 z2 = z\<lparr>q_world := w2\<rparr>
             in case get_sandbox (sbs z2) i of
                  None \<Rightarrow> Inl (HTTPException 500 ''failed to create sandbox'')
                | Some s \<Rightarrow> Inr (s, if pooled = None
                    then snd (enqueue hs now (ids 3) (s_id s) KBoot (Some (boot_deadline (s_kind s))) [] z2) else z2)))"

definition created :: "'h hosts \<Rightarrow> 'h world handlers \<Rightarrow> time \<Rightarrow> (nat \<Rightarrow> string) \<Rightarrow> create_request \<Rightarrow> member \<Rightarrow>
    'h zoo \<Rightarrow> ((sandbox \<times> sandbox_view) \<times> 'h zoo) res" where
  "created H hs now ids p u z = bindr (create H hs now ids p u z) (\<lambda>(s, z'). Inr ((s, to_response (rt_images H) s z'), z'))"

subsection \<open>Changing a sandbox\<close>

definition active_statuses :: "status list" where "active_statuses = [Pending, Provisioning, Up]"

definition update_route :: "'h hosts \<Rightarrow> time \<Rightarrow> string \<Rightarrow> string option \<Rightarrow> labels option \<Rightarrow> member \<Rightarrow> 'h session_of" where
  "update_route H now i name ls u z =
     bindr (owned i u z) (\<lambda>s0.
     let z1 = (case name of None \<Rightarrow> z | Some n \<Rightarrow> on_sandboxes (rename_sandbox now n (s_id s0)) z);
         s = (case get_sandbox (sbs z1) (s_id s0) of None \<Rightarrow> s0 | Some s' \<Rightarrow> s')
     in case ls of
          None \<Rightarrow> Inr (to_response (rt_images H) s z1, z1)
        | Some given \<Rightarrow>
            bindr (scoped given (mb_key_labels u)) (\<lambda>wanted.
            let current = labels_of (w_labels (q_world z1)) (s_id s);
                added = filter (\<lambda>(k, v). dict_get current k \<noteq> Some v) wanted
            in bindr (if s_status s \<in> set active_statuses
                      then check_quota (rt_UNSIZED_DISK_GB H) (q_world z1) (s_workspace_id s) (size_of s) False added else Inr ()) (\<lambda>_.
               let (t, t') = put (s_id s) wanted (w_labels (q_world z1), w_usage_labels (q_world z1));
                   z2 = on_world (\<lambda>w. w\<lparr>w_labels := t, w_usage_labels := t'\<rparr>) z1
               in Inr (to_response (rt_images H) s z2, z2))))"

definition start_route :: "'h hosts \<Rightarrow> 'h world handlers \<Rightarrow> time \<Rightarrow> string \<Rightarrow> string \<Rightarrow> member \<Rightarrow> 'h session_of" where
  "start_route H hs now uid i u z =
     bindr (idle i u z) (\<lambda>s.
     if s_status s = Up \<or> s_status s = Provisioning then Inl (wrong_status s)
     else bindr (check_quota (rt_UNSIZED_DISK_GB H) (q_world z) (s_workspace_id s) (size_of s) False
                  (labels_of (w_labels (q_world z)) (s_id s))) (\<lambda>_.
          let z1 = on_sandboxes (update_sandbox_status now Provisioning (s_id s)) z;
              s1 = (case get_sandbox (sbs z1) (s_id s) of None \<Rightarrow> s | Some s' \<Rightarrow> s');
              z2 = snd (enqueue hs now uid (s_id s) KBoot (Some (boot_deadline (s_kind s))) [] z1)
          in Inr (to_response (rt_images H) s1 z2, z2)))"

definition stop_route :: "'h hosts \<Rightarrow> 'h world handlers \<Rightarrow> time \<Rightarrow> string \<Rightarrow> string \<Rightarrow> member \<Rightarrow> 'h session_of" where
  "stop_route H hs now uid i u z =
     bindr (owned i u z) (\<lambda>s.
     bindr (case get_active_job (q_jobs z) (s_id s) of
              None \<Rightarrow> Inr () | Some a \<Rightarrow> if j_kind a = KStop \<or> j_kind a = KDelete then Inl (busy a) else Inr ()) (\<lambda>_.
     let z2 = snd (enqueue hs now uid (s_id s) KStop None [] (on_jobs (cancel_sandbox_jobs now (s_id s)) z))
     in Inr (to_response (rt_images H) s z2, z2)))"

definition lifecycle_route :: "'h hosts \<Rightarrow> string \<Rightarrow> int option \<Rightarrow> int option \<Rightarrow> member \<Rightarrow> 'h session_of" where
  "lifecycle_route H i idle_minutes life_minutes u z =
     bindr (owned i u z) (\<lambda>s.
     let z1 = on_sandboxes (set_sandbox_lifecycle idle_minutes life_minutes (s_id s)) z
     in bindr (owned i u z1) (\<lambda>s1. Inr (to_response (rt_images H) s1 z1, z1)))"

definition upgrade_route :: "'h hosts \<Rightarrow> 'h world handlers \<Rightarrow> time \<Rightarrow> string \<Rightarrow> string \<Rightarrow> member \<Rightarrow> 'h session_of" where
  "upgrade_route H hs now uid i u z =
     bindr (idle i u z) (\<lambda>s.
     if pinned_image s = None then Inl (HTTPException 400 (''this sandbox doesn'' @ [char_of (39 :: nat)] @ ''t run the default image''))
     else if s_status s \<noteq> Up \<and> s_status s \<noteq> Stopped \<and> s_status s \<noteq> Broken then Inl (wrong_status s)
     else let config = dict_set ''image'' (JStr (default_image (rt_images H) (s_kind s))) (s_config s);
              z1 = on_sandboxes (update_sandbox now (s_name s) (s_resources s) config (s_id s)) z;
              z2 = (if s_status s = Up then snd (enqueue hs now uid (s_id s) KStop None [(''restart'', JBool True)] z1)
                    else snd (enqueue hs now uid (s_id s) KBoot (Some (boot_deadline (s_kind s))) [(''upgrade'', JBool True)]
                           (on_sandboxes (update_sandbox_status now Provisioning (s_id s)) z1)))
          in bindr (owned (s_id s) u z2) (\<lambda>s2. Inr (to_response (rt_images H) s2 z2, z2)))"

definition delete_route :: "'h world handlers \<Rightarrow> time \<Rightarrow> string \<Rightarrow> string \<Rightarrow> member \<Rightarrow> 'h zoo \<Rightarrow> (string \<times> 'h zoo) res" where
  "delete_route hs now uid i u z =
     bindr (owned i u z) (\<lambda>s.
     let active = get_active_job (q_jobs z) (s_id s)
     in Inr (s_id s,
          if (case active of None \<Rightarrow> True | Some a \<Rightarrow> j_kind a \<noteq> KDelete)
          then snd (enqueue hs now uid (s_id s) KDelete None []
                 (on_sandboxes (update_sandbox_status now Deleting (s_id s)) (on_jobs (cancel_sandbox_jobs now (s_id s)) z)))
          else z))"

definition move_route :: "'h hosts \<Rightarrow> 'h world handlers \<Rightarrow> time \<Rightarrow> string \<Rightarrow> string \<Rightarrow> string option \<Rightarrow> string option \<Rightarrow> member \<Rightarrow> 'h session_of" where
  "move_route H hs now uid i server_id node_name u z =
     bindr (idle i u z) (\<lambda>s.
     if s_status s = Up \<or> s_status s = Provisioning then Inl (HTTPException 409 ''stop the sandbox before moving it'')
     else bindr (
       if \<not> in_VMS (s_kind s)
       then if truthy (s_server_id s) \<or> \<not> is_kube H
            then Inl (ZooError ''not_supported'' ''Docker sandboxes run on one host and cannot be moved.'' None)
            else if server_id \<noteq> None \<or> node_name = None
            then Inl (ZooError ''bad_request'' ''Kubernetes moves require node_name, not a registered server.'' None)
            else Inr (snd (enqueue hs now uid (s_id s) KMove None [(''target'', JStr (the node_name))] z))
       else if node_name \<noteq> None then Inl (ZooError ''bad_request'' ''VM moves require server_id.'' None)
       else if list_snapshots_by_sandbox (w_snapshots (q_world z)) (s_id s) \<noteq> []
       then Inl (HTTPException 409 (''delete this sandbox'' @ [char_of (39 :: nat)] @ ''s snapshots before moving it: they stay on its current server''))
       else bindr (place (rt_available H (w_host (q_world z))) (rt_max_vms H) server_id u (s_kind s) False z) (\<lambda>target.
            Inr (if target \<noteq> s_server_id s
                 then snd (enqueue hs now uid (s_id s) KMove None [(''target'', case target of None \<Rightarrow> JNull | Some t \<Rightarrow> JStr t)] z) else z)))
       (\<lambda>z1. Inr (to_response (rt_images H) s z1, z1)))"

subsection \<open>Snapshots\<close>

definition snapshot_of :: "sandbox \<Rightarrow> string \<Rightarrow> 'h zoo \<Rightarrow> snapshot res" where
  "snapshot_of s snapshot_id z =
     (case get_snapshot (w_snapshots (q_world z)) snapshot_id of
        None \<Rightarrow> Inl (HTTPException 404 ''snapshot not found'')
      | Some n \<Rightarrow> if n_sandbox_id n \<noteq> s_id s then Inl (HTTPException 404 ''snapshot not found'') else Inr n)"

definition create_snapshot_route :: "'h hosts \<Rightarrow> 'h world handlers \<Rightarrow> time \<Rightarrow> (nat \<Rightarrow> string) \<Rightarrow> string \<Rightarrow> string \<Rightarrow> member \<Rightarrow>
    'h zoo \<Rightarrow> (snapshot \<times> 'h zoo) res" where
  "create_snapshot_route H hs now ids i name u z =
     bindr (idle i u z) (\<lambda>s.
     if in_VMS (s_kind s) \<and> s_status s \<noteq> Stopped then Inl (HTTPException 409 ''stop the sandbox before snapshotting its disk'')
     else if s_status s \<noteq> Up \<and> s_status s \<noteq> Stopped then Inl (wrong_status s)
     else let existing = list_snapshots_by_sandbox (w_snapshots (q_world z)) (s_id s)
          in if length existing \<ge> rt_MAX_SNAPSHOTS H
             then Inl (HTTPException 409 (''a sandbox keeps at most '' @ py_str (int (rt_MAX_SNAPSHOTS H)) @ '' snapshots; delete one first''))
             else let title = (if strip name \<noteq> [] then strip name else ''Snapshot '' @ py_str (int (length existing) + 1));
                      (row, t) = create_snapshot_row now (w_snapshot_seq (q_world z)) (ids 0) (s_id s) (s_server_id s) title (mb_id u) (w_snapshots (q_world z));
                      z1 = on_world (\<lambda>w. w\<lparr>w_snapshots := t, w_snapshot_seq := w_snapshot_seq w + 1\<rparr>) z
                  in Inr (row, snd (enqueue hs now (ids 1) (s_id s) KSnapshot None [(''snapshot_id'', JStr (n_id row))] z1)))"

definition restore_route :: "'h hosts \<Rightarrow> 'h world handlers \<Rightarrow> time \<Rightarrow> string \<Rightarrow> string \<Rightarrow> string \<Rightarrow> member \<Rightarrow> 'h session_of" where
  "restore_route H hs now uid i snapshot_id u z =
     bindr (idle i u z) (\<lambda>s.
     bindr (snapshot_of s snapshot_id z) (\<lambda>n.
     if n_state n \<noteq> Ready then Inl (HTTPException 409 (''the snapshot is '' @ snapshot_state_text (n_state n)))
     else if s_status s \<noteq> Stopped then Inl (HTTPException 409 ''stop the sandbox before restoring a snapshot'')
     else let z1 = snd (enqueue hs now uid (s_id s) KRestore None [(''snapshot_id'', JStr (n_id n))] z)
          in Inr (to_response (rt_images H) s z1, z1)))"

text \<open>\<open>delete_snapshot\<close> has two sessions, with the host's call between them; what that raises is a 502.\<close>

definition delete_snapshot_route :: "'h hosts \<Rightarrow> string \<Rightarrow> string \<Rightarrow> member \<Rightarrow> 'h zoo \<Rightarrow> unit res \<times> 'h zoo" where
  "delete_snapshot_route H i snapshot_id u z =
     (case bindr (owned i u z) (\<lambda>s.
           bindr (snapshot_of s snapshot_id z) (\<lambda>n.
           case get_active_job (q_jobs z) (s_id s) of
             None \<Rightarrow> Inr (s, n, server_of s z)
           | Some a \<Rightarrow> if j_kind a = KSnapshot \<or> j_kind a = KRestore then Inl (busy a) else Inr (s, n, server_of s z))) of
        Inl e \<Rightarrow> (Inl e, z)
      | Inr (s, n, server) \<Rightarrow>
          (case on_host (remove_snapshot H s (n_id n) server) z of
             (Inl f, z1) \<Rightarrow> (Inl (HTTPException 502 (take 500 (''couldn'' @ [char_of (39 :: nat)] @ ''t remove the snapshot from its host: '' @ fault_text f))), z1)
           | (Inr _, z1) \<Rightarrow> (Inr (), on_snapshots (delete_snapshot_row (n_id n)) z1)))"

subsection \<open>Listing\<close>

definition snapshots_route :: "string \<Rightarrow> member \<Rightarrow> 'h zoo \<Rightarrow> snapshot list res" where
  "snapshots_route i u z = bindr (owned i u z) (\<lambda>s. Inr (list_snapshots_by_sandbox (w_snapshots (q_world z)) (s_id s)))"

subsection \<open>Lemmas\<close>

lemma enqueue_world [simp]:
  "q_world (snd (enqueue hs now uid sb k dl args z)) = q_world z"
  "q_live (snd (enqueue hs now uid sb k dl args z)) = q_live z"
  by (simp_all add: enqueue_def create_job_def Let_def split: prod.split)

definition queued_job :: "'w handlers \<Rightarrow> time \<Rightarrow> string \<Rightarrow> string \<Rightarrow> job_kind \<Rightarrow> int option \<Rightarrow> (string, json) dict \<Rightarrow> 'w sys \<Rightarrow> job" where
  "queued_job hs now uid sb k dl args z = fst (enqueue hs now uid sb k dl args z)"

lemma enqueue_jobs: "q_jobs (snd (enqueue hs now uid sb k dl args z)) = q_jobs z @ [queued_job hs now uid sb k dl args z]"
  by (simp add: queued_job_def enqueue_def create_job_def Let_def split: prod.split)

lemma queued_job_simps [simp]:
  "j_id (queued_job hs now uid sb k dl args z) = uid" "j_sandbox_id (queued_job hs now uid sb k dl args z) = sb"
  "j_kind (queued_job hs now uid sb k dl args z) = k" "j_state (queued_job hs now uid sb k dl args z) = Queued"
  "j_args (queued_job hs now uid sb k dl args z) = args"
  by (simp_all add: queued_job_def enqueue_def create_job_def Let_def)

lemma get_active_job_only:
  assumes "get_active_job t sb = None" and "j_sandbox_id j = sb" and "is_active (j_state j)"
  shows "get_active_job (t @ [j]) sb = Some j"
proof -
  have "filter (\<lambda>j. j_sandbox_id j = sb \<and> is_active (j_state j)) t = []"
    using assms(1) by (auto simp: get_active_job_None filter_empty_conv)
  then show ?thesis using assms(2,3) by (simp add: get_active_job_def)
qed

lemma get_active_job_newest:
  assumes "\<And>x. x \<in> set t \<Longrightarrow> j_created_at x < j_created_at j" and "j_sandbox_id j = sb" and "is_active (j_state j)"
  shows "get_active_job (t @ [j]) sb = Some j"
proof -
  let ?xs = "filter (\<lambda>j. j_sandbox_id j = sb \<and> is_active (j_state j)) (t @ [j])"
  obtain x rest where S: "sort_key (\<lambda>j. - j_created_at j) ?xs = x # rest"
    using assms(2,3) by (cases "sort_key (\<lambda>j. - j_created_at j) ?xs") (auto dest: arg_cong [of _ _ set])
  then have "x \<in> set (t @ [j])" using sort_key_ConsD [OF S] by (auto split: if_splits)
  moreover have "- j_created_at x \<le> - j_created_at j"
  proof -
    have "j \<in> set (sort_key (\<lambda>j. - j_created_at j) ?xs)" using assms(2,3) by simp
    then have "j \<in> set (x # rest)" by (simp only: S)
    then show ?thesis using sorted_sort_key [of "\<lambda>j. - j_created_at j" ?xs] unfolding S by auto
  qed
  ultimately have "x = j" using assms(1) by force
  with S show ?thesis by (simp only: get_active_job_def list.case)
qed

lemma has_label_at: "labels_wf (w_labels w) \<Longrightarrow> has_label w i k v \<longleftrightarrow> label_at (w_labels w) i k = Some v"
proof -
  assume wf: "labels_wf (w_labels w)"
  have "label_at t i k = Some v \<longleftrightarrow> (\<exists>l \<in> set t. l_sandbox_id l = i \<and> l_key l = k \<and> l_value l = v)"
    if "labels_wf t" for t :: "label_row tbl"
    using that
  proof (induction t)
    case (Cons l t)
    then have "labels_wf t" "(l_sandbox_id l, l_key l) \<notin> (\<lambda>l. (l_sandbox_id l, l_key l)) ` set t"
      by (auto simp: labels_wf_def)
    with Cons.IH show ?case by force
  qed simp
  with wf show ?thesis by (simp add: has_label_def)
qed

lemma labels_of_mem: "labels_wf t \<Longrightarrow> (k, v) \<in> set (labels_of t i) \<Longrightarrow> label_at t i k = Some v"
proof -
  assume wf: "labels_wf t" and m: "(k, v) \<in> set (labels_of t i)"
  have "wf_dict (labels_of t i)" unfolding labels_of_def by (rule wf_dict_merge) simp
  with m have "dict_get (labels_of t i) k = Some v" by (simp add: dict_get_mem)
  with wf show ?thesis by (simp add: labels_of_eq)
qed

lemma set_row_new:
  assumes "i \<notin> s_id ` set t" and "s_id s = i"
  shows "set_row i f (t @ [s]) = t @ [f s]"
proof -
  have "update_where (\<lambda>s. s_id s = i) f t = t" using assms(1) by (intro update_where_none) auto
  then show ?thesis by (simp add: set_row_def assms(2))
qed

lemma set_row_fields [simp]:
  assumes "\<And>s. s_id (f s) = s_id s"
  shows "s_id ` set (set_row i f t) = s_id ` set t"
  using arg_cong [OF ids_set_row [of f i t, OF assms], of set] by simp

text \<open>What the routes' queries leave of a row.\<close>

lemma get_status_row:
  "get_sandbox (update_sandbox_status now st i t) i = map_option (\<lambda>s. s\<lparr>s_status := st, s_updated_at := now\<rparr>) (get_sandbox t i)"
  by (simp add: update_sandbox_status_def get_set_row_same)

lemma to_response_simps [simp]:
  "v_status (to_response im s z) = s_status s" "v_id (to_response im s z) = s_id s"
  by (simp_all add: to_response_def view_def)

lemma start_routeD:
  assumes "idle i u z = Inr s" and "s_status s \<noteq> Up" "s_status s \<noteq> Provisioning"
    and "start_route H hs now uid i u z = Inr (v, z')"
  shows "check_quota (rt_UNSIZED_DISK_GB H) (q_world z) (s_workspace_id s) (size_of s) False (labels_of (w_labels (q_world z)) i) = Inr ()"
    and "q_world z' = (q_world z)\<lparr>w_sandboxes := set_row i (\<lambda>s. s\<lparr>s_status := Provisioning, s_updated_at := now\<rparr>) (sbs z)\<rparr>"
    and "v_status v = Provisioning"
    and "\<exists>j. q_jobs z' = q_jobs z @ [j] \<and> j_sandbox_id j = i \<and> j_kind j = KBoot \<and> j_state j = Queued"
proof -
  let ?z1 = "on_sandboxes (update_sandbox_status now Provisioning i) z"
  have i: "s_id s = i" "get_sandbox (sbs z) i = Some s" using assms(1) owned_Inr by (auto simp: idle_Inr)
  then have g: "get_sandbox (sbs ?z1) i = Some (s\<lparr>s_status := Provisioning, s_updated_at := now\<rparr>)" by (simp add: get_status_row)
  have *: "check_quota (rt_UNSIZED_DISK_GB H) (q_world z) (s_workspace_id s) (size_of s) False (labels_of (w_labels (q_world z)) i) = Inr () \<and>
      z' = snd (enqueue hs now uid i KBoot (Some (boot_deadline (s_kind s))) [] ?z1) \<and>
      v = to_response (rt_images H) (s\<lparr>s_status := Provisioning, s_updated_at := now\<rparr>) z'"
    using assms(4) by (auto simp: start_route_def assms(1-3) Let_def g i(1) simp del: on_sandboxes_simps)
  then show "check_quota (rt_UNSIZED_DISK_GB H) (q_world z) (s_workspace_id s) (size_of s) False (labels_of (w_labels (q_world z)) i) = Inr ()"
    "q_world z' = (q_world z)\<lparr>w_sandboxes := set_row i (\<lambda>s. s\<lparr>s_status := Provisioning, s_updated_at := now\<rparr>) (sbs z)\<rparr>"
    "v_status v = Provisioning"
    "\<exists>j. q_jobs z' = q_jobs z @ [j] \<and> j_sandbox_id j = i \<and> j_kind j = KBoot \<and> j_state j = Queued"
    by (auto simp: on_sandboxes_def update_sandbox_status_def enqueue_jobs)
qed

text \<open>What \<open>create\<close> leaves of the tables that quotas count.\<close>

definition same_counts :: "'h world \<Rightarrow> 'h world \<Rightarrow> bool" where
  "same_counts w w' \<longleftrightarrow> w_sandboxes w' = w_sandboxes w \<and> w_snapshots w' = w_snapshots w \<and> w_quotas w' = w_quotas w \<and>
     w_label_quotas w' = w_label_quotas w \<and> w_profiles w' = w_profiles w \<and> w_profile_versions w' = w_profile_versions w \<and>
     w_labels w' = w_labels w"

lemma same_counts_refl [simp]: "same_counts w w"
  by (simp add: same_counts_def)

lemma same_counts_trans: "same_counts w w1 \<Longrightarrow> same_counts w1 w2 \<Longrightarrow> same_counts w w2"
  by (simp add: same_counts_def)

lemma same_counts_attach: "same_counts w (attach_secrets now ids n u s is w)"
proof (induction "is" arbitrary: w n)
  case (Cons i "is")
  show ?case
    by (simp add: Let_def) (rule same_counts_trans [OF _ Cons], simp add: same_counts_def audit_def)
qed simp

lemma same_counts_image_version: "same_counts w (snd (default_image_version im now ids u w))"
  by (auto simp: same_counts_def default_image_version_def create_sandbox_image_def create_sandbox_image_version_def Let_def
      split: option.splits prod.splits)

lemma same_counts_claim: "same_counts w (snd (pool_claim im k srv w))"
  by (auto simp: same_counts_def pool_claim_def split: option.splits prod.splits)

lemma pool_claim_mem: "pool_claim im k srv w = (Some r, w') \<Longrightarrow> r \<in> set (w_pool w)"
  by (auto simp: pool_claim_def split: if_splits option.splits prod.splits dest!: claim_pool_sandboxD)

lemma pool_image_version [simp]: "w_pool (snd (default_image_version im now ids u w)) = w_pool w"
  by (simp add: default_image_version_def create_sandbox_image_def create_sandbox_image_version_def Let_def split: option.split)

text \<open>The rows a create adds: one sandbox, on, with the request's size, and its labels.\<close>

lemma sandbox_rowsD:
  assumes "i \<notin> s_id ` set t"
  shows "\<exists>s. snd (sandbox_rows H now p u v server_id pooled i t) = t @ [s] \<and> s_id s = i \<and> s_workspace_id s = mb_workspace_id u \<and>
    size_of s = cr_size p \<and> s_kind s = cr_kind p \<and> s_server_id s = server_id"
  using assms
  by (cases pooled) (simp_all add: sandbox_rows_def create_sandbox_def query_defs set_row_new size_of_def cr_size_def Let_def)

lemma create_rowsD:
  assumes "create_rows H now ids p u v server_id ls pooled w = (i, w')" and fresh: "i \<notin> s_id ` set (w_sandboxes w)"
  shows "\<exists>s. w_sandboxes w' = w_sandboxes w @ [s] \<and> s_id s = i \<and> s_workspace_id s = mb_workspace_id u \<and> s_status s = Provisioning \<and>
    size_of s = cr_size p \<and> same_counts (w\<lparr>w_sandboxes := w_sandboxes w @ [s], w_labels := put_rows i ls (w_labels w)\<rparr>) w'"
proof -
  obtain s0 t where st: "sandbox_rows H now p u v server_id pooled i (w_sandboxes w) = (s0, t)" by fastforce
  define w0 where "w0 = w\<lparr>w_sandboxes := t, w_labels := put_rows i ls (w_labels w), w_usage_labels := put_rows i ls (w_usage_labels w)\<rparr>"
  define w1 where "w1 = attach_secrets now ids 4 u s0 (rev (remdups (rev (cr_secret_ids p)))) w0"
  have i: "i = (case pooled of Some r \<Rightarrow> p_id r | None \<Rightarrow> ids 2)"
    using assms(1) by (simp add: create_rows_def put_def Let_def split: prod.splits)
  have w': "w' = w1\<lparr>w_sandboxes := update_sandbox_status now Provisioning i (w_sandboxes w1)\<rparr>"
    using assms(1) st unfolding create_rows_def Let_def i [symmetric] put_def fst_conv snd_conv by (simp add: w0_def w1_def)
  have sc: "same_counts w0 w1" unfolding w1_def by (rule same_counts_attach)
  obtain s where s: "t = w_sandboxes w @ [s]" "s_id s = i" "s_workspace_id s = mb_workspace_id u" "size_of s = cr_size p"
    using sandbox_rowsD [OF fresh, of H now p u v server_id pooled] st by auto
  let ?s = "s\<lparr>s_status := Provisioning, s_updated_at := now\<rparr>"
  have "w_sandboxes w' = w_sandboxes w @ [?s]"
    using sc s fresh by (simp add: w' w0_def same_counts_def update_sandbox_status_def set_row_new)
  moreover have "same_counts (w\<lparr>w_sandboxes := w_sandboxes w', w_labels := put_rows i ls (w_labels w)\<rparr>) w'"
    using sc by (simp add: w' same_counts_def w0_def)
  ultimately show ?thesis using s by (intro exI [of _ ?s]) (simp add: size_of_def)
qed

lemma create_unfold:
  assumes "create H hs now ids p u z = Inr (s, z')" and "default_image_version (rt_images H) now ids u (q_world z) = (v, w0)"
    and "admit H p u (z\<lparr>q_world := w0\<rparr>) = Inr (server_id, ls)"
    and "(if cr_size p = DEFAULT_SIZE then pool_claim (rt_images H) (cr_kind p) server_id w0 else (None, w0)) = (pooled, w1)"
    and "create_rows H now ids p u v server_id ls pooled w1 = (i, w2)"
  shows "get_sandbox (w_sandboxes w2) i = Some s" and "q_world z' = w2"
  using assms(1) unfolding create_def assms(2) Let_def prod.case assms(3) bindr_simps assms(4) assms(5)
  by (auto split: if_splits option.splits simp: assms(2-5))

lemma create_admits:
  assumes "create H hs now ids p u z = Inr (s, z')" and "default_image_version (rt_images H) now ids u (q_world z) = (v, w0)"
  shows "\<exists>server_id ls. admit H p u (z\<lparr>q_world := w0\<rparr>) = Inr (server_id, ls)"
  using assms(1) unfolding create_def assms(2) Let_def prod.case
  by (cases "admit H p u (z\<lparr>q_world := w0\<rparr>)") (auto split: if_splits)

lemma admitD:
  assumes "admit H p u z = Inr (server_id, ls)"
  shows "scoped (cr_labels p) (mb_key_labels u) = Inr ls"
    and "check_quota (rt_UNSIZED_DISK_GB H) (q_world z) (mb_workspace_id u) (cr_size p) True ls = Inr ()"
  using assms by (auto simp: admit_def split: if_splits)

lemma adds_sandboxI:
  assumes "same_counts w w0" and "same_counts (w\<lparr>w_sandboxes := w_sandboxes w @ [s], w_labels := put_rows (s_id s) ls (w_labels w)\<rparr>) w'"
    and "labels_wf (w_labels w)" and "wf_dict ls" and "s_id s \<notin> s_id ` set (w_sandboxes w)" and "s_id s \<notin> n_sandbox_id ` set (w_snapshots w)"
    and "s_status s = Provisioning"
  shows "adds_sandbox w0 s ls w'"
proof -
  have lw: "w_labels w' = put_rows (s_id s) ls (w_labels w)" and l0: "w_labels w0 = w_labels w" using assms(1,2) by (simp_all add: same_counts_def)
  have "labels_wf (w_labels w')" "\<And>j k. label_at (w_labels w') j k = (if j = s_id s then dict_get ls k else label_at (w_labels w) j k)"
    using assms(3,4) by (simp_all add: lw labels_wf_put label_at_put)
  then show ?thesis
    using assms l0 by (auto simp: adds_sandbox_def same_counts_def has_label_at dict_get_mem)
qed

lemma scoped_matches:
  assumes "scoped given sel = Inr ls" and "\<And>x. sel = Some x \<Longrightarrow> wf_dict x" and "dict_get have' = dict_get ls"
  shows "matches have' sel"
proof (cases sel)
  case (Some x)
  have "dict_get ls k = Some y" if "(k, y) \<in> set x" for k y
    using scoped_Inr(1) [OF assms(1) [unfolded Some] assms(2) [OF Some]] assms(2) [OF Some] that by (simp add: dict_get_mem)
  then show ?thesis using Some assms(3) by (auto simp: matches_def list_all_iff)
qed (simp add: matches_def)

text \<open>What a create does to the tables the quotas count, in one step from the state it was called in.\<close>

lemma createD:
  assumes c: "create H hs now ids p u z = Inr (s, z')"
    and fresh: "\<And>i. i = ids 2 \<or> i \<in> p_id ` set (w_pool (q_world z)) \<Longrightarrow> i \<notin> s_id ` set (sbs z)"
  obtains w0 server_id ls where "same_counts (q_world z) w0" and "admit H p u (z\<lparr>q_world := w0\<rparr>) = Inr (server_id, ls)"
    and "s_id s = ids 2 \<or> s_id s \<in> p_id ` set (w_pool (q_world z))"
    and "s_status s = Provisioning" and "s_workspace_id s = mb_workspace_id u" and "size_of s = cr_size p"
    and "same_counts ((q_world z)\<lparr>w_sandboxes := sbs z @ [s], w_labels := put_rows (s_id s) ls (w_labels (q_world z))\<rparr>) (q_world z')"
proof -
  obtain v w0 where d: "default_image_version (rt_images H) now ids u (q_world z) = (v, w0)" by fastforce
  obtain server_id ls where ad: "admit H p u (z\<lparr>q_world := w0\<rparr>) = Inr (server_id, ls)" using create_admits [OF c d] by blast
  obtain pooled w1 where pool: "(if cr_size p = DEFAULT_SIZE then pool_claim (rt_images H) (cr_kind p) server_id w0 else (None, w0)) = (pooled, w1)"
    by fastforce
  obtain i w2 where rows: "create_rows H now ids p u v server_id ls pooled w1 = (i, w2)" by fastforce
  note U = create_unfold [OF c d ad pool rows]
  have sc0: "same_counts (q_world z) w0" using same_counts_image_version [of "q_world z"] d by (metis snd_conv)
  have sc1: "same_counts w0 w1" using pool same_counts_claim [of w0] same_counts_refl by (metis snd_conv)
  have "w_pool w0 = w_pool (q_world z)" using pool_image_version d by (metis snd_conv)
  then have pl: "pooled = Some r \<Longrightarrow> r \<in> set (w_pool (q_world z))" for r
    using pool pool_claim_mem by (metis option.distinct(1) prod.inject)
  have i: "i = (case pooled of Some r \<Rightarrow> p_id r | None \<Rightarrow> ids 2)"
    using rows by (auto simp: create_rows_def Let_def split: prod.splits)
  then have iw: "i = ids 2 \<or> i \<in> p_id ` set (w_pool (q_world z))" using pl by (auto split: option.splits)
  have t1: "w_sandboxes w1 = sbs z" "w_labels w1 = w_labels (q_world z)" using sc0 sc1 by (simp_all add: same_counts_def)
  obtain s' where s': "w_sandboxes w2 = sbs z @ [s']" "s_id s' = i" "s_workspace_id s' = mb_workspace_id u" "s_status s' = Provisioning"
      "size_of s' = cr_size p" "same_counts (w1\<lparr>w_sandboxes := w_sandboxes w1 @ [s'], w_labels := put_rows i ls (w_labels w1)\<rparr>) w2"
    using create_rowsD [OF rows] fresh [OF iw] t1 by auto
  have "get_sandbox (sbs z) i = None" using fresh [OF iw] by (simp add: sandboxes.lookup_None)
  then have "s = s'" using U(1) s' by (simp add: sandboxes.lookup_append)
  with that [OF sc0 ad] s' iw sc0 sc1 U(2) show ?thesis by (simp add: same_counts_def)
qed

lemma not_islE: "\<not> isl r \<Longrightarrow> \<exists>x y. r = Inr (x, y)"
  by (cases r) auto

text \<open>An example: an administrator, and what they ask for.\<close>

definition demo_admin :: member where
  "demo_admin = \<lparr>mb_id = ''u1'', mb_email = ''u1@example.com'', mb_workspace_id = ''w1'', mb_role = Admin, mb_key_id = None, mb_key_sandbox_id = None, mb_key_labels = None\<rparr>"

definition demo_world_handlers :: "unit world handlers" where
  "demo_world_handlers k = \<lparr>h_run = \<lambda>now job s. (Raised ''boom'', s), h_attempts = 3, h_backoff = [5, 15, 30], h_failed = None\<rparr>"

text \<open>Two sandboxes of one workspace: \<open>s1\<close> runs and \<open>s2\<close> has stopped; at most \<open>n\<close> may run.\<close>

definition demo_pair :: "int \<Rightarrow> unit zoo" where
  "demo_pair n = demo_zoo\<lparr>q_world := demo_world\<lparr>
     w_sandboxes := [demo_sandbox, demo_sandbox\<lparr>s_id := ''s2'', s_status := Stopped, s_config := [(''image'', JStr ''zoo'')]\<rparr>],
     w_labels := [\<lparr>l_sandbox_id = ''s2'', l_key = ''team'', l_value = ''a''\<rparr>],
     w_quotas := [(''w1'', no_limits\<lparr>max_running_sandboxes := Some n\<rparr>)]\<rparr>\<rparr>"

definition demo_request :: create_request where
  "demo_request = \<lparr>cr_name = None, cr_kind = Code, cr_server_id = None, cr_profile_ids = [], cr_secret_ids = [], cr_admin = False,
     cr_queue = False, cr_cpus = 1, cr_memory_mb = 512, cr_disk_gb = Some 5, cr_idle_timeout_minutes = None, cr_max_lifetime_minutes = None,
     cr_labels = [(''team'', ''a'')]\<rparr>"

subsection \<open>Properties: admission\<close>

text \<open>
  C10. Starting a sandbox keeps to the quotas: when \<open>POST /sandboxes/{id}/start\<close> succeeds on a stopped or
  failed sandbox, the workspace is within its quota with the sandbox on, and so is every label the
  sandbox carries; the sandbox is provisioning and a boot job is its one job in progress.
\<close>

theorem start_within_quota:
  assumes "distinct (map s_id (sbs z))" and "labels_wf (w_labels (q_world z))"
    and "get_sandbox (sbs z) i = Some s" and "s_status s = Stopped \<or> s_status s = Broken"
    and r: "start_route H hs now uid i u z = Inr (v, z')"
  shows "workspace_within (rt_UNSIZED_DISK_GB H) (q_world z') (mb_workspace_id u) \<and>
    (\<forall>kv \<in> set (labels_of (w_labels (q_world z)) i). label_within (rt_UNSIZED_DISK_GB H) (q_world z') (mb_workspace_id u) kv) \<and>
    v_status v = Provisioning \<and> (\<exists>j. get_active_job (q_jobs z') i = Some j \<and> j_kind j = KBoot)"
proof -
  obtain x where x: "idle i u z = Inr x" using r by (auto simp: start_route_def)
  have "x = s" using x assms(3) owned_Inr [of i u z x] by (simp add: idle_Inr)
  with x have id: "idle i u z = Inr s" by simp
  then have O: "s_id s = i" "s \<in> set (sbs z)" "s_workspace_id s = mb_workspace_id u" "get_active_job (q_jobs z) i = None"
    using owned_Inr [of i u z s] by (auto simp: idle_Inr)
  have st: "s_status s \<noteq> Up" "s_status s \<noteq> Provisioning" "\<not> counts_running (s_status s)" "s_status s \<notin> {Deleting, Deleted}"
    using assms(4) by (auto simp: counts_running_def)
  note D = start_routeD [OF id st(1,2) r]
  have lab: "has_label (q_world z) (s_id s) key val" if "(key, val) \<in> set (labels_of (w_labels (q_world z)) i)" for key val
    using labels_of_mem [OF assms(2) that] has_label_at [OF assms(2)] O(1) by blast
  note F = start_fits [OF assms(1) O(2) st(3,4) _ D(1) lab, of "\<lambda>s. s\<lparr>s_status := Provisioning, s_updated_at := now\<rparr>"]
  have "get_active_job (q_jobs z @ [j]) i = Some j" if "j_sandbox_id j = i" "j_state j = Queued" for j
    using that O(4) by (intro get_active_job_only) auto
  with D(2-4) F O show ?thesis by (auto simp: turns_on_def)
qed

theorem start_within_quota_witness:
  "\<exists>v z'. start_route demo_hosts demo_world_handlers 5 ''j1'' ''s2'' demo_admin (demo_pair 2) = Inr (v, z') \<and>
     workspace_within 20 (q_world z') ''w1''"
proof -
  let ?z = "demo_pair 2"
  have h: "distinct (map s_id (sbs ?z))" "labels_wf (w_labels (q_world ?z))" by code_simp+
  have g: "get_sandbox (sbs ?z) ''s2'' = Some (sbs ?z ! 1)" "s_status (sbs ?z ! 1) = Stopped \<or> s_status (sbs ?z ! 1) = Broken" by code_simp+
  have "\<not> isl (start_route demo_hosts demo_world_handlers 5 ''j1'' ''s2'' demo_admin ?z)" by code_simp
  then obtain v z' where r: "start_route demo_hosts demo_world_handlers 5 ''j1'' ''s2'' demo_admin ?z = Inr (v, z')" using not_islE by blast
  from start_within_quota [OF h g r] r show ?thesis by (auto simp: demo_admin_def demo_hosts_def)
qed

text \<open>
  C19. Creating a sandbox keeps to the quotas: when \<open>create\<close> succeeds, warm or cold, the workspace is within
  its quota with the new sandbox and its disk, and so is every label the sandbox carries. The
  sandbox is in the caller's workspace, provisioning, and one the caller's key reaches. New ids are
  not in use yet.
\<close>

theorem create_within_quota:
  assumes "labels_wf (w_labels (q_world z))" and "wf_dict (cr_labels p)"
    and sel: "\<And>sel. mb_key_labels u = Some sel \<Longrightarrow> wf_dict sel" and "0 \<le> rt_UNSIZED_DISK_GB H"
    and fresh: "\<And>i. i = ids 2 \<or> i \<in> p_id ` set (w_pool (q_world z)) \<Longrightarrow>
      i \<notin> s_id ` set (sbs z) \<and> i \<notin> n_sandbox_id ` set (w_snapshots (q_world z))"
    and c: "create H hs now ids p u z = Inr (s, z')"
  shows "sbs z' = sbs z @ [s] \<and> s_status s = Provisioning \<and> s_workspace_id s = mb_workspace_id u \<and>
    workspace_within (rt_UNSIZED_DISK_GB H) (q_world z') (mb_workspace_id u) \<and>
    (\<forall>kv \<in> set (labels_of (w_labels (q_world z')) (s_id s)). label_within (rt_UNSIZED_DISK_GB H) (q_world z') (mb_workspace_id u) kv) \<and>
    matches (labels_of (w_labels (q_world z')) (s_id s)) (mb_key_labels u)"
proof -
  let ?un = "rt_UNSIZED_DISK_GB H" and ?i = "s_id s"
  obtain w0 server_id ls where sc0: "same_counts (q_world z) w0" and ad: "admit H p u (z\<lparr>q_world := w0\<rparr>) = Inr (server_id, ls)"
    and iw: "?i = ids 2 \<or> ?i \<in> p_id ` set (w_pool (q_world z))"
    and S: "s_status s = Provisioning" "s_workspace_id s = mb_workspace_id u" "size_of s = cr_size p"
    and sc: "same_counts ((q_world z)\<lparr>w_sandboxes := sbs z @ [s], w_labels := put_rows ?i ls (w_labels (q_world z))\<rparr>) (q_world z')"
    by (rule createD [OF c]) (use fresh in auto)
  have wl: "wf_dict ls" using admitD(1) [OF ad] assms(2) sel by (auto simp: scoped_def wf_dict_merge split: option.splits if_splits)
  have la: "labels_wf (w_labels (q_world z'))"
      "\<And>j k. label_at (w_labels (q_world z')) j k = (if j = ?i then dict_get ls k else label_at (w_labels (q_world z)) j k)"
    using sc assms(1) wl by (simp_all add: same_counts_def labels_wf_put label_at_put)
  have add: "adds_sandbox w0 s ls (q_world z')"
    by (rule adds_sandboxI [OF sc0 sc assms(1) wl]) (use fresh [OF iw] S in auto)
  have fits: "workspace_within ?un (q_world z') (mb_workspace_id u)" "\<And>kv. kv \<in> set ls \<Longrightarrow> label_within ?un (q_world z') (mb_workspace_id u) kv"
    using create_fits [OF add assms(4)] admitD(2) [OF ad] S by auto
  have mem: "(k, x) \<in> set ls" if "(k, x) \<in> set (labels_of (w_labels (q_world z')) ?i)" for k x
    using labels_of_mem [OF la(1) that] wl by (simp add: la(2) dict_get_mem)
  have "matches (labels_of (w_labels (q_world z')) ?i) (mb_key_labels u)"
    using scoped_matches [OF admitD(1) [OF ad] sel] la by (simp add: labels_of_eq fun_eq_iff)
  moreover have "sbs z' = sbs z @ [s]" using sc by (simp add: same_counts_def)
  ultimately show ?thesis using fits mem S by auto
qed

theorem create_within_quota_witness:
  "\<exists>s z'. create demo_hosts demo_world_handlers 5 (\<lambda>n. ''new'' @ replicate n CHR ''0'') demo_request demo_admin (demo_pair 2) = Inr (s, z') \<and>
     sbs z' = sbs (demo_pair 2) @ [s] \<and> workspace_within 20 (q_world z') ''w1''"
proof -
  let ?z = "demo_pair 2" and ?ids = "\<lambda>n. ''new'' @ replicate n CHR ''0''"
  have h: "labels_wf (w_labels (q_world ?z))" "wf_dict (cr_labels demo_request)" by code_simp+
  have f: "i \<notin> s_id ` set (sbs ?z) \<and> i \<notin> n_sandbox_id ` set (w_snapshots (q_world ?z))" if "i = ?ids 2 \<or> i \<in> p_id ` set (w_pool (q_world ?z))" for i
    using that by (simp add: demo_pair_def demo_zoo_defs numeral_2_eq_2)
  have "\<not> isl (create demo_hosts demo_world_handlers 5 ?ids demo_request demo_admin ?z)" by code_simp
  then obtain s z' where r: "create demo_hosts demo_world_handlers 5 ?ids demo_request demo_admin ?z = Inr (s, z')" using not_islE by blast
  have "0 \<le> rt_UNSIZED_DISK_GB demo_hosts" by (simp add: demo_hosts_def)
  from create_within_quota [OF h _ this f r] r show ?thesis by (auto simp: demo_admin_def demo_hosts_def)
qed

text \<open>
  C35. Upgrading keeps to no quota: \<open>POST /sandboxes/{id}/upgrade\<close> turns a stopped or failed sandbox on
  whatever the quotas are, also where starting it is refused.
\<close>

theorem upgrade_skips_quota:
  assumes "idle i u z = Inr s" and "pinned_image s \<noteq> None" and "s_status s = Stopped \<or> s_status s = Broken"
  shows "\<exists>v z'. upgrade_route H hs now uid i u (on_world (\<lambda>w. w\<lparr>w_quotas := qs, w_label_quotas := lqs\<rparr>) z) = Inr (v, z') \<and>
    v_status v = Provisioning \<and> (\<exists>s'. get_sandbox (sbs z') i = Some s' \<and> s_status s' = Provisioning)"
proof -
  let ?z = "on_world (\<lambda>w. w\<lparr>w_quotas := qs, w_label_quotas := lqs\<rparr>) z"
  have "idle i u ?z = idle i u z" by (simp add: idle_def owned_def split: option.split)
  with assms(1) have id: "idle i u ?z = Inr s" by simp
  then have o: "owned i u ?z = Inr s" by (simp add: idle_Inr)
  note O = owned_Inr [OF o]
  have st: "s_status s \<noteq> Up" using assms(3) by auto
  define t1 where "t1 = update_sandbox now (s_name s) (s_resources s) (dict_set ''image'' (JStr (default_image (rt_images H) (s_kind s))) (s_config s)) i (sbs ?z)"
  define s1 where "s1 = s\<lparr>s_config := dict_set ''image'' (JStr (default_image (rt_images H) (s_kind s))) (s_config s), s_updated_at := now\<rparr>"
  define z1 where "z1 = on_sandboxes (\<lambda>_. update_sandbox_status now Provisioning i t1) ?z"
  define z2 where "z2 = snd (enqueue hs now uid i KBoot (Some (boot_deadline (s_kind s))) [(''upgrade'', JBool True)] z1)"
  have g1: "get_sandbox t1 i = Some s1" using O by (simp add: t1_def s1_def update_sandbox_def get_set_row_same)
  have g2: "get_sandbox (sbs z2) i = Some (s1\<lparr>s_status := Provisioning\<rparr>)"
    by (simp add: z2_def z1_def get_status_row g1 s1_def)
  have o2: "owned i u z2 = Inr (s1\<lparr>s_status := Provisioning\<rparr>)"
    using o O by (simp add: owned_def g2 s1_def) (simp add: z2_def z1_def on_sandboxes_def)
  have "upgrade_route H hs now uid i u ?z = Inr (to_response (rt_images H) (s1\<lparr>s_status := Provisioning\<rparr>) z2, z2)"
    using O assms(2,3) st o2 unfolding upgrade_route_def id
    by (simp add: Let_def z2_def z1_def t1_def on_sandboxes_def)
  then show ?thesis using g2 by auto
qed

text \<open>Where a start is refused, an upgrade goes through, and the workspace is over its quota.\<close>

theorem upgrade_skips_quota_witness:
  "start_route demo_hosts demo_world_handlers 5 ''j1'' ''s2'' demo_admin (demo_pair 1) =
     Inl (HTTPException 409 (''the workspace'' @ [char_of (39 :: nat)] @ ''s quota is 1 running sandboxes; it uses 1 already'')) \<and>
   (\<exists>v z'. upgrade_route demo_hosts demo_world_handlers 5 ''j1'' ''s2'' demo_admin (demo_pair 1) = Inr (v, z') \<and> v_status v = Provisioning)"
proof
  show "start_route demo_hosts demo_world_handlers 5 ''j1'' ''s2'' demo_admin (demo_pair 1) =
     Inl (HTTPException 409 (''the workspace'' @ [char_of (39 :: nat)] @ ''s quota is 1 running sandboxes; it uses 1 already''))"
    by code_simp
  let ?z = "demo_pair 1"
  have id: "idle ''s2'' demo_admin ?z = Inr (sbs ?z ! 1)" by code_simp
  have p: "pinned_image (sbs ?z ! 1) \<noteq> None" "s_status (sbs ?z ! 1) = Stopped \<or> s_status (sbs ?z ! 1) = Broken" by code_simp+
  have e: "?z\<lparr>q_world := (q_world ?z)\<lparr>w_quotas := w_quotas (q_world ?z), w_label_quotas := w_label_quotas (q_world ?z)\<rparr>\<rparr> = ?z" by simp
  show "\<exists>v z'. upgrade_route demo_hosts demo_world_handlers 5 ''j1'' ''s2'' demo_admin ?z = Inr (v, z') \<and> v_status v = Provisioning"
    using upgrade_skips_quota [OF id p, where qs = "w_quotas (q_world ?z)" and lqs = "w_label_quotas (q_world ?z)" and H = demo_hosts
        and hs = demo_world_handlers and now = 5 and uid = "''j1''"] unfolding e by blast
qed

text \<open>
  C36. Changing the labels of a sandbox that is on counts it a second time: in a workspace that runs as
  many sandboxes as its quota lets it, \<open>PATCH /sandboxes/{id}\<close> with any labels, the ones the sandbox has
  included, is refused with 409.
\<close>

theorem relabel_counts_twice:
  assumes "owned i u z = Inr s" and "s_status s = Pending \<or> s_status s = Provisioning \<or> s_status s = Up"
    and "get_workspace_quota (q_world z) (s_workspace_id s) = Some q"
    and "max_running_sandboxes q = Some (u_running (workspace_usage (rt_UNSIZED_DISK_GB H) (q_world z) (s_workspace_id s)))"
    and "mb_key_labels u = None"
  shows "\<exists>msg. update_route H now i None (Some (labels_of (w_labels (q_world z)) i)) u z = Inl (HTTPException 409 msg)"
  using assms owned_Inr [OF assms(1)]
  by (auto simp: update_route_def scoped_def active_statuses_def check_quota_def compare_def Let_def)

theorem relabel_counts_twice_witness:
  "\<exists>msg. update_route demo_hosts 5 ''s1'' None (Some []) demo_admin (demo_pair 1) = Inl (HTTPException 409 msg)"
proof -
  let ?z = "demo_pair 1"
  have o: "owned ''s1'' demo_admin ?z = Inr (sbs ?z ! 0)" by code_simp
  have p: "s_status (sbs ?z ! 0) = Pending \<or> s_status (sbs ?z ! 0) = Provisioning \<or> s_status (sbs ?z ! 0) = Up" by code_simp
  have q: "get_workspace_quota (q_world ?z) (s_workspace_id (sbs ?z ! 0)) = Some (no_limits\<lparr>max_running_sandboxes := Some 1\<rparr>)" by code_simp
  have m: "max_running_sandboxes (no_limits\<lparr>max_running_sandboxes := Some 1\<rparr>) =
      Some (u_running (workspace_usage (rt_UNSIZED_DISK_GB demo_hosts) (q_world ?z) (s_workspace_id (sbs ?z ! 0))))" by code_simp
  have k: "mb_key_labels demo_admin = None" by code_simp
  have l: "labels_of (w_labels (q_world ?z)) ''s1'' = []" by code_simp
  from relabel_counts_twice [OF o p q m k] show ?thesis by (simp add: l)
qed

text \<open>
  Deleting a sandbox twice is deleting it once: right after \<open>DELETE /sandboxes/{id}\<close> the sandbox is
  being deleted, no job of it but the delete is queued, and a second request answers the same and changes nothing.
\<close>

theorem delete_twice_is_once:
  assumes "delete_route hs now uid i u z = Inr (a, z1)" and "\<And>j. j \<in> set (q_jobs z) \<Longrightarrow> j_created_at j < now"
  shows "delete_route hs now' uid' i u z1 = Inr (a, z1) \<and> (\<exists>j. get_active_job (q_jobs z1) i = Some j \<and> j_kind j = KDelete)"
proof -
  obtain s where o: "owned i u z = Inr s" and a: "a = s_id s" using assms(1) by (auto simp: delete_route_def Let_def)
  note O = owned_Inr [OF o]
  show ?thesis
  proof (cases "\<exists>j. get_active_job (q_jobs z) i = Some j \<and> j_kind j = KDelete")
    case True
    then have "z1 = z" using assms(1) O by (auto simp: delete_route_def o Let_def)
    then show ?thesis using True O by (auto simp: delete_route_def o Let_def a)
  next
    case False
    define z0 where "z0 = on_sandboxes (update_sandbox_status now Deleting i) (on_jobs (cancel_sandbox_jobs now i) z)"
    have z1: "z1 = snd (enqueue hs now uid i KDelete None [] z0)"
      using assms(1) O False by (auto simp: delete_route_def o Let_def z0_def split: option.splits)
    have "j_created_at x < now" if "x \<in> set (q_jobs z0)" for x
      using that assms(2) by (auto simp: z0_def cancel_sandbox_jobs_def update_where_def split: if_splits)
    then have j: "get_active_job (q_jobs z1) i = Some (queued_job hs now uid i KDelete None [] z0)"
      unfolding z1 enqueue_jobs by (intro get_active_job_newest) (auto simp: queued_job_def enqueue_def create_job_def Let_def)
    have "owned i u z1 = Inr (s\<lparr>s_status := Deleting, s_updated_at := now\<rparr>)"
      using o O by (simp add: owned_def z1 z0_def get_status_row) 
    then show ?thesis using j O by (auto simp: delete_route_def Let_def a)
  qed
qed

theorem delete_twice_is_once_witness:
  "\<exists>z1. delete_route demo_world_handlers 5 ''j1'' ''s2'' demo_admin (demo_pair 1) = Inr (''s2'', z1) \<and>
     delete_route demo_world_handlers 9 ''j2'' ''s2'' demo_admin z1 = Inr (''s2'', z1)"
proof -
  let ?r = "delete_route demo_world_handlers 5 ''j1'' ''s2'' demo_admin (demo_pair 1)"
  have "\<not> isl ?r" by code_simp
  then obtain a z1 where r: "?r = Inr (a, z1)" using not_islE by blast
  have "map_sum id fst ?r = Inr ''s2''" by code_simp
  then have "a = ''s2''" by (simp add: r)
  moreover have "j_created_at j < 5" if "j \<in> set (q_jobs (demo_pair 1))" for j
    using that by (simp add: demo_pair_def demo_zoo_def)
  ultimately show ?thesis using delete_twice_is_once [OF r, of 9 "''j2''"] r by auto
qed

end
