(* ===== verification/Handlers.thy ===== *)
theory Handlers
  imports Lifecycle
begin

section \<open>The job handlers\<close>

text \<open>
  The handlers of the sandbox jobs in \<open>apps/server/sandbox_api.py\<close> (\<open>boot\<close>, \<open>stop\<close>, \<open>delete\<close>, \<open>take_snapshot\<close>,
  \<open>restore_job\<close>, \<open>move\<close> and what runs when they fail), the hand-over of a warm sandbox, and
  \<open>zoo_handlers\<close>, their registration with the queue. A handler is a program: each database session and
  each call to a host is a step of it. Random values are the argument \<open>en\<close>, the id of a job a handler
  enqueues is \<open>uid\<close>.
\<close>

subsection \<open>Queries\<close>

definition get_latest_profile_version :: "profile_version tbl \<Rightarrow> string \<Rightarrow> profile_version option" where
  "get_latest_profile_version t profile_id =
     (case sort_key (\<lambda>v. - pv_version v) (filter (\<lambda>v. pv_profile_id v = profile_id) t) of [] \<Rightarrow> None | v # _ \<Rightarrow> Some v)"

definition get_sandbox_network_policy :: "network_policy tbl \<Rightarrow> string \<Rightarrow> network_policy option" where
  "get_sandbox_network_policy t sandbox_id = find_row (\<lambda>p. np_sandbox_id p = sandbox_id) t"

definition list_sandbox_network_rules :: "network_rule tbl \<Rightarrow> string \<Rightarrow> network_rule list" where
  "list_sandbox_network_rules t policy_id = sort_key nr_created_at (filter (\<lambda>r. nr_policy_id r = policy_id) t)"

text \<open>The join with \<open>apps\<close>: each permission with its app.\<close>

definition list_sandbox_app_permissions :: "'h world \<Rightarrow> string \<Rightarrow> (app_permission \<times> app) list" where
  "list_sandbox_app_permissions w sandbox_id =
     sort_key (\<lambda>(p, a). ap_name a)
       [(p, a). p \<leftarrow> filter (\<lambda>p. pm_sandbox_id p = sandbox_id) (w_app_permissions w), a \<leftarrow> w_apps w, ap_id a = pm_app_id p]"

subsection \<open>Policies and profiles\<close>

definition app_effects :: "'h world \<Rightarrow> string \<Rightarrow> env" where
  "app_effects w sandbox_id =
     dict_merge [] (map (\<lambda>(p, a). (ap_slug a, pm_effect p)) (filter (\<lambda>(p, a). pm_action p = APP_ACTION) (list_sandbox_app_permissions w sandbox_id)))"

definition network_of :: "'h world \<Rightarrow> string \<Rightarrow> (string \<times> bool \<times> (string \<times> string \<times> string) list) option" where
  "network_of w sandbox_id =
     map_option (\<lambda>p. (np_default_action p, np_allow_dns p,
         map (\<lambda>r. (nr_rule_type r, nr_value r, nr_effect r)) (list_sandbox_network_rules (w_rules w) (np_id p))))
       (get_sandbox_network_policy (w_policies w) sandbox_id)"

definition enforce :: "'h hosts \<Rightarrow> sandbox \<Rightarrow> (unit, 'h) prog" where
  "enforce H s =
     (if s_status s \<noteq> Up \<or> \<not> truthy (s_runtime_id s) then ret ()
      else bindp (reading (\<lambda>z. (network_of (q_world z) (s_id s), app_effects (q_world z) (s_id s)))) (\<lambda>(policy, effects).
           bindp (case policy of None \<Rightarrow> ret () | Some (default_action, allow_dns, rules) \<Rightarrow>
                    on_host (apply_network H (the (s_runtime_id s)) default_action allow_dns rules)) (\<lambda>_.
             on_host (apply_apps H (the (s_runtime_id s)) effects))))"

definition profile_key :: "string \<Rightarrow> string" where
  "profile_key version_id = ''profiles/'' @ version_id @ ''.tar''"

definition PROFILE_APPS :: "(string, (string, string) dict) dict" where
  "PROFILE_APPS =
     [(''linux'', [(''firefox'', ''.mozilla''), (''chromium'', ''.config/chromium''), (''chrome'', ''.config/google-chrome''),
        (''vscode'', ''.config/Code'')]),
      (''macos'', [(''safari'', ''Library/Containers/com.apple.Safari''), (''chrome'', ''Library/Application Support/Google/Chrome''),
        (''edge'', ''Library/Application Support/Microsoft Edge''), (''firefox'', ''Library/Application Support/Firefox''),
        (''vscode'', ''Library/Application Support/Code'')]),
      (''windows'', [(''chrome'', ''AppData/Local/Google/Chrome/User Data''), (''edge'', ''AppData/Local/Microsoft/Edge/User Data''),
        (''firefox'', ''AppData/Roaming/Mozilla/Firefox''), (''vscode'', ''AppData/Roaming/Code'')])]"

definition PROFILE_HOMES :: "string \<Rightarrow> (string, string) dict" where
  "PROFILE_HOMES macos_user = [(''linux'', ''/home/zoo''), (''macos'', ''/Users/'' @ macos_user), (''windows'', ''C:'' @ [char_of (92 :: nat)] @ ''Users'' @ [char_of (92 :: nat)] @ ''zoo'')]"

definition item :: "(string, 'v) dict \<Rightarrow> string \<Rightarrow> 'v res" where
  "item d k = (case dict_get d k of None \<Rightarrow> Inl (KeyError k) | Some v \<Rightarrow> Inr v)"

definition profile_path :: "string \<Rightarrow> string \<Rightarrow> string \<Rightarrow> string res" where
  "profile_path macos_user platform app =
     bindr (item (PROFILE_HOMES macos_user) platform) (\<lambda>home.
     bindr (item PROFILE_APPS platform) (\<lambda>apps.
     bindr (item apps app) (\<lambda>dir. Inr (home @ ''/'' @ dir))))"

text \<open>\<open>os.path.dirname\<close>: up to the last slash, without the slashes that end it unless it is nothing else.\<close>

definition dirname :: "string \<Rightarrow> string" where
  "dirname p =
     (let head = rev (dropWhile (\<lambda>c. c \<noteq> CHR ''/'') (rev p))
      in if (\<forall>c \<in> set head. c = CHR ''/'') then head else rev (dropWhile (\<lambda>c. c = CHR ''/'') (rev head)))"

definition apply_profile :: "'h hosts \<Rightarrow> string \<Rightarrow> profile \<Rightarrow> profile_version option \<Rightarrow> (unit, 'h) prog" where
  "apply_profile H container_id profile version =
     bindp (session (\<lambda>z. case version of
         Some v \<Rightarrow> Inr (v, z)
       | None \<Rightarrow> (case get_latest_profile_version (w_profile_versions (q_world z)) (pf_id profile) of
             None \<Rightarrow> Inl (RuntimeError (''profile '' @ pf_name profile @ '' has no saved version''))
           | Some v \<Rightarrow> Inr (v, z)))) (\<lambda>v.
     bindp (session (\<lambda>z. bindr (profile_path (rt_macos_user H) (pf_platform profile) (pf_app profile)) (\<lambda>p. Inr (dirname p, z)))) (\<lambda>parent.
     bindp (on_host (op_object_get H (profile_key (pv_id v)))) (\<lambda>data.
     bindp (if pv_encrypted v then session (lift_world (decrypt (rt_ciphers H) (rt_env H) data)) else ret data) (\<lambda>plain.
       on_host (import_dir H container_id parent plain)))))"

definition apply_profiles :: "'h hosts \<Rightarrow> string \<Rightarrow> profile option list \<Rightarrow> (unit, 'h) prog" where
  "apply_profiles H rid ps = foreach (\<lambda>p. case p of None \<Rightarrow> ret () | Some x \<Rightarrow> apply_profile H rid x None) ps"

subsection \<open>Pausing\<close>

definition on_vm_control :: "'h hosts \<Rightarrow> sandbox \<Rightarrow> bool" where
  "on_vm_control H s \<longleftrightarrow> is_kube H \<and> \<not> truthy (s_server_id s)"

definition freeze :: "'h hosts \<Rightarrow> sandbox \<Rightarrow> (unit, 'h) prog" where
  "freeze H s =
     (case s_runtime_id s of
        None \<Rightarrow> throw AssertionError
      | Some rid \<Rightarrow>
          if on_vm_control H s
          then bindp (on_host (op_vm_revision H (s_id s) rid (s_config s))) (\<lambda>revision. on_host (op_vm_pause H (s_id s) rid (s_config s) revision))
          else on_host (pause H rid))"

definition thaw :: "'h hosts \<Rightarrow> sandbox \<Rightarrow> (unit, 'h) prog" where
  "thaw H s =
     (case s_runtime_id s of
        None \<Rightarrow> throw AssertionError
      | Some rid \<Rightarrow>
          if on_vm_control H s
          then bindp (on_host (op_vm_revision H (s_id s) rid (s_config s))) (\<lambda>revision. on_host (op_vm_resume H (s_id s) rid (s_config s) revision))
          else on_host (resume H rid))"

definition remove_runtime :: "'h hosts \<Rightarrow> sandbox \<Rightarrow> (unit, 'h) prog" where
  "remove_runtime H s = (if truthy (s_runtime_id s) then on_host (remove_container H (the (s_runtime_id s))) else ret ())"

definition to_volume :: "'h hosts \<Rightarrow> time \<Rightarrow> sandbox \<Rightarrow> (unit, 'h) prog" where
  "to_volume H now s =
     bindp (remove_runtime H s) (\<lambda>_.
     bindp (changing (on_world (forget_secrets (s_id s)))) (\<lambda>_.
       changing (on_sandboxes (clear_sandbox_runtime now (s_id s)))))"

definition vm_runtime :: "sandbox \<Rightarrow> string option" where
  "vm_runtime s = (case dict_get (s_config s) ''vm_control'' of
     Some (JObj d) \<Rightarrow> (case dict_get d ''runtime_id'' of Some (JStr r) \<Rightarrow> Some r | _ \<Rightarrow> None) | _ \<Rightarrow> None)"

definition bind :: "'h hosts \<Rightarrow> time \<Rightarrow> string \<Rightarrow> (unit, 'h) prog" where
  "bind H now sandbox_id =
     bindp (reading (\<lambda>z. get_sandbox (sbs z) sandbox_id)) (\<lambda>found.
     case found of
       None \<Rightarrow> ret ()
     | Some s \<Rightarrow>
         if \<not> truthy (s_runtime_id s) \<or> truthy (s_server_id s) \<or> in_VMS (s_kind s) then ret ()
         else if vm_runtime s = s_runtime_id s then ret ()
         else let config = dict_pop ''vm_control'' (s_config s)
              in bindp (on_host (op_vm_binding H (s_id s) (the (s_runtime_id s)) config)) (\<lambda>b.
                 changing (on_sandboxes (update_sandbox now (s_name s) (s_resources s) (dict_set ''vm_control'' b config) (s_id s)))))"

subsection \<open>Booting\<close>

definition still_booting :: "job \<Rightarrow> 'h zoo \<Rightarrow> sandbox option" where
  "still_booting job z =
     (case get_sandbox (sbs z) (j_sandbox_id job) of
        None \<Rightarrow> None
      | Some s \<Rightarrow> if s_status s \<noteq> Provisioning \<or> \<not> owns z job then None else Some s)"

definition record_runtime :: "'h hosts \<Rightarrow> time \<Rightarrow> job \<Rightarrow> string \<Rightarrow> string option \<Rightarrow> (bool, 'h) prog" where
  "record_runtime H now job rid host =
     bindp (step (\<lambda>z. case still_booting job z of
         None \<Rightarrow> (False, z)
       | Some s \<Rightarrow> (True, on_sandboxes (update_sandbox_runtime now (Some rid) host (s_id s)) z))) (\<lambda>ok.
     if ok then ret True else bindp (on_host (remove_container H rid)) (\<lambda>_. ret False))"

text \<open>What \<open>mark_started\<close> gives is the row of the started sandbox, or none when the boot lost it.\<close>

definition mark_started :: "'h hosts \<Rightarrow> time \<Rightarrow> job \<Rightarrow> (sandbox option, 'h) prog" where
  "mark_started H now job =
     bindp (step (\<lambda>z. case still_booting job z of
         None \<Rightarrow> (None, z)
       | Some booting \<Rightarrow>
           let z1 = on_sandboxes (set_sandbox_started now (j_sandbox_id job)) z
           in case get_sandbox (sbs z1) (j_sandbox_id job) of
                None \<Rightarrow> (None, z1)
              | Some s \<Rightarrow> (Some s, on_sandboxes (set_sandbox_reachable (s_id s)) z1))) (\<lambda>started.
     case started of
       None \<Rightarrow> ret None
     | Some s \<Rightarrow>
         bindp (attempt (enforce H s) (\<lambda>_. ret ())) (\<lambda>_.
         bindp (if is_kube H \<and> \<not> in_VMS (s_kind s) \<and> \<not> truthy (s_server_id s) then attempt (bind H now (s_id s)) (\<lambda>_. ret ()) else ret ()) (\<lambda>_.
           ret (Some s))))"

definition pin_image :: "'h hosts \<Rightarrow> time \<Rightarrow> string \<Rightarrow> 'h zoo \<Rightarrow> (string \<times> 'h zoo) res" where
  "pin_image H now sandbox_id z =
     (case get_sandbox (sbs z) sandbox_id of
        None \<Rightarrow> Inl (RuntimeError (''sandbox '' @ sandbox_id @ '' is gone''))
      | Some s \<Rightarrow> (case dict_get (s_config s) ''image'' of
            Some i \<Rightarrow> Inr (json_text (Some i), z)
          | None \<Rightarrow> let img = default_image (rt_images H) (s_kind s)
              in Inr (img, on_sandboxes (update_sandbox now (s_name s) (s_resources s) (dict_set ''image'' (JStr img) (s_config s)) (s_id s)) z)))"

definition config_profiles :: "sandbox \<Rightarrow> string list" where
  "config_profiles s = (case dict_get (s_config s) ''profiles'' of Some (JList xs) \<Rightarrow> map (\<lambda>x. json_text (Some x)) xs | _ \<Rightarrow> [])"

definition json_true :: "json option \<Rightarrow> bool" where
  "json_true j \<longleftrightarrow> j = Some (JBool True)"

text \<open>What the boot session decides: the environment, the server, the image, the profiles and the secrets.\<close>

record plan =
  bp_secrets :: env
  bp_env :: env
  bp_server :: "server option"
  bp_image :: string
  bp_profiles :: "profile option list"

definition is_default_image :: "image_version \<Rightarrow> 'h world \<Rightarrow> bool res" where
  "is_default_image v w =
     (if iv_version v \<noteq> IMAGE_VERSION then Inr False
      else case get_sandbox_image (w_images w) (iv_image_id v) of
          None \<Rightarrow> Inl (RuntimeError (py_repr ''NoneType'' @ '' object has no attribute '' @ py_repr ''slug''))
        | Some i \<Rightarrow> Inr (im_slug i = IMAGE_SLUG))"

text \<open>The environment of a container: the screen's password, the guest's variables and the browser's.\<close>

definition container_env :: "'h hosts \<Rightarrow> time \<Rightarrow> entropy \<Rightarrow> sandbox \<Rightarrow> server option \<Rightarrow> 'h zoo \<Rightarrow> (env \<times> 'h zoo) res" where
  "container_env H now en s server z =
     bindr (if s_kind s \<noteq> Code
            then bindr (lift_world (ensure_vnc_password (rt_ciphers H) (rt_env H) en now s) z) (\<lambda>(p, z1). Inr ([(''ZOO_VNC_PASSWORD'', p)], z1))
            else Inr ([], z)) (\<lambda>(e0, z1).
     bindr (rt_guest_env H (s_id s) (server \<noteq> None)) (\<lambda>g.
     let e1 = dict_merge e0 g
     in Inr (if s_kind s = Browser then dict_set ''ZOO_BROWSER_WAIT'' ''1'' (dict_set ''ZOO_BROWSER_HOME'' (rt_BROWSER_HOME H) e1) else e1, z1)))"

definition remember_boot :: "'h hosts \<Rightarrow> sandbox \<Rightarrow> env \<Rightarrow> 'h world \<Rightarrow> (unit \<times> 'h world) res" where
  "remember_boot H s known w =
     bindr (case stored_password s of
         None \<Rightarrow> Inr ([], w)
       | Some token \<Rightarrow> bindr (decrypt (rt_ciphers H) (rt_env H) token w) (\<lambda>(p, w1). Inr ([p], w1))) (\<lambda>(more, w1).
     Inr ((), remember_secrets (s_id s) (map snd known @ more) w1))"

definition boot_plan :: "'h hosts \<Rightarrow> time \<Rightarrow> entropy \<Rightarrow> sandbox \<Rightarrow> 'h zoo \<Rightarrow> (plan \<times> 'h zoo) res" where
  "boot_plan H now en s z =
     (case get_sandbox_image_version (w_versions (q_world z)) (s_image_version_id s) of
        None \<Rightarrow> Inl (RuntimeError (''the sandbox'' @ [char_of (39 :: nat)] @ ''s image version is missing''))
      | Some v \<Rightarrow>
          bindr (is_default_image v (q_world z)) (\<lambda>default.
          bindr (lift_world (secret_env (rt_ciphers H) (rt_env H) now (s_id s)) z) (\<lambda>(secrets, z1).
          let server = server_of s z1
          in bindr (if in_VMS (s_kind s) then Inr (secrets, z1) else container_env H now en s server z1) (\<lambda>(e, z2).
             bindr (if in_VMS (s_kind s) then Inr ([], z2)
                    else if default \<or> s_kind s = Code then pin_image H now (s_id s) z2 else Inr (iv_image_uri v, z2)) (\<lambda>(img, z3).
             bindr (lift_world (remember_boot H s (dict_merge secrets e)) z3) (\<lambda>(_, z4).
               Inr (\<lparr>bp_secrets = secrets, bp_env = e, bp_server = server, bp_image = img,
                      bp_profiles = map (get_profile (w_profiles (q_world z4))) (config_profiles s)\<rparr>, z4)))))))"

definition boot_vm :: "'h hosts \<Rightarrow> time \<Rightarrow> rat \<Rightarrow> job \<Rightarrow> kind \<Rightarrow> server option \<Rightarrow> env \<Rightarrow> profile option list \<Rightarrow> bool \<Rightarrow> (unit, 'h) prog" where
  "boot_vm H now secs job k server e profiles admin =
     (case server of
        None \<Rightarrow> throw (RuntimeError (platform_title k @ '' sandboxes need a '' @ platform_title k @ '' server''))
      | Some sv \<Rightarrow>
          bindp (on_host (op_vm_start H (vm_driver k) (j_sandbox_id job) (sv_id sv) e (admin \<and> k = Macos))) (\<lambda>rid.
          bindp (record_runtime H now job rid (Some (sv_bind_address sv))) (\<lambda>ok.
          if \<not> ok then ret ()
          else bindp (changing (on_sandboxes (set_sandbox_boot now (op_vm_base_of H (vm_driver k) rid) secs (j_sandbox_id job)))) (\<lambda>_.
               bindp (apply_profiles H rid profiles) (\<lambda>_.
               bindp (mark_started H now job) (\<lambda>_. ret ()))))))"

definition DESKTOP_TIMEOUT :: int where "DESKTOP_TIMEOUT = 30"

definition boot_container :: "'h hosts \<Rightarrow> time \<Rightarrow> job \<Rightarrow> sandbox \<Rightarrow> plan \<Rightarrow> (unit, 'h) prog" where
  "boot_container H now job s p =
     bindp (on_host (run_container H (''zoo-sandbox-'' @ s_id s) (bp_image p) (s_id s) (bp_env p) (bp_server p) (s_kind s \<noteq> Code) (size_of s))) (\<lambda>(rid, host).
     bindp (on_host (op_bind H rid (s_id s))) (\<lambda>_.
     bindp (record_runtime H now job rid host) (\<lambda>ok.
     if \<not> ok then ret ()
     else bindp (whenp (bp_secrets p \<noteq> []) (on_host (write_secrets H rid (bp_secrets p)))) (\<lambda>_.
          bindp (apply_profiles H rid (bp_profiles p)) (\<lambda>_.
          bindp (if s_kind s \<noteq> Code then on_host (op_wait_for_desktop H (s_id s) DESKTOP_TIMEOUT) else ret True) (\<lambda>up.
          if \<not> up then throw (RuntimeError ''desktop did not come up in time'')
          else bindp (mark_started H now job) (\<lambda>started.
            case started of
              None \<Rightarrow> ret ()
            | Some s' \<Rightarrow> if s_kind s' = Browser then attempt (on_host (op_start_browser H rid (rt_BROWSER_HOME H))) (\<lambda>_. ret ()) else ret ())))))))"

definition boot_cold :: "'h hosts \<Rightarrow> time \<Rightarrow> entropy \<Rightarrow> rat \<Rightarrow> job \<Rightarrow> sandbox \<Rightarrow> (unit, 'h) prog" where
  "boot_cold H now en secs job s =
     bindp (session (boot_plan H now en s)) (\<lambda>p.
     if in_VMS (s_kind s)
     then boot_vm H now secs job (s_kind s) (bp_server p) (bp_env p) (bp_profiles p) (json_true (dict_get (s_config s) ''admin''))
     else boot_container H now job s p)"

definition boot_paused :: "'h hosts \<Rightarrow> time \<Rightarrow> job \<Rightarrow> sandbox \<Rightarrow> (unit, 'h) prog" where
  "boot_paused H now job s =
     bindp (thaw H s) (\<lambda>_.
     bindp (session (\<lambda>z. bindr (lift_world (secret_env (rt_ciphers H) (rt_env H) now (s_id s)) z) (\<lambda>(secrets, z1).
         Inr (secrets, on_sandboxes (clear_sandbox_paused now (s_id s)) z1)))) (\<lambda>secrets.
     bindp (on_host (write_secrets H (the (s_runtime_id s)) secrets)) (\<lambda>_.
     bindp (changing (on_world (\<lambda>w. remember_secrets (s_id s)
         ((case dict_get (w_booted w) (s_id s) of None \<Rightarrow> [] | Some vs \<Rightarrow> vs) @ map snd secrets) w))) (\<lambda>_.
     bindp (mark_started H now job) (\<lambda>_. ret ())))))"

definition boot :: "'h hosts \<Rightarrow> time \<Rightarrow> entropy \<Rightarrow> rat \<Rightarrow> job \<Rightarrow> (unit, 'h) prog" where
  "boot H now en secs job =
     bindp (reading (\<lambda>z. get_sandbox (sbs z) (j_sandbox_id job))) (\<lambda>found.
     case found of
       None \<Rightarrow> ret ()
     | Some s0 \<Rightarrow>
         if s_status s0 \<noteq> Provisioning then ret ()
         else bindp (if s_paused_at s0 \<noteq> None \<and> truthy (s_runtime_id s0) \<and> json_true (dict_get (j_args job) ''upgrade'')
                     then bindp (to_volume H now s0) (\<lambda>_. ret (s0\<lparr>s_runtime_id := None, s_paused_at := None\<rparr>))
                     else ret s0) (\<lambda>s.
              if s_paused_at s \<noteq> None \<and> truthy (s_runtime_id s) then boot_paused H now job s else boot_cold H now en secs job s))"

definition boot_failed :: "'h hosts \<Rightarrow> time \<Rightarrow> job \<Rightarrow> string \<Rightarrow> 'h world \<Rightarrow> 'h world" where
  "boot_failed H now job err w =
     (case get_sandbox (w_sandboxes w) (j_sandbox_id job) of
        None \<Rightarrow> w
      | Some s \<Rightarrow>
          if s_status s \<noteq> Provisioning then w
          else let w1 = (if truthy (s_runtime_id s) then w\<lparr>w_host := snd (remove_container H (the (s_runtime_id s)) (w_host w))\<rparr> else w)
               in w1\<lparr>w_sandboxes := set_sandbox_failed now err (s_id s) (clear_sandbox_runtime now (s_id s) (w_sandboxes w1))\<rparr>)"

definition lifecycle_failed :: "string \<Rightarrow> time \<Rightarrow> job \<Rightarrow> string \<Rightarrow> 'h world \<Rightarrow> 'h world" where
  "lifecycle_failed kind now job err w =
     (case get_sandbox (w_sandboxes w) (j_sandbox_id job) of
        None \<Rightarrow> w
      | Some s \<Rightarrow> if s_status s = Deleted then w
                  else w\<lparr>w_sandboxes := set_sandbox_failed now (kind @ '' failed: '' @ err) (s_id s) (w_sandboxes w)\<rparr>)"

subsection \<open>Stopping and deleting\<close>

text \<open>How often and after which waits the queue tries a job again; \<open>zoo_handlers\<close> registers the same numbers.\<close>

fun ATTEMPTS :: "job_kind \<Rightarrow> int" where
  "ATTEMPTS KBoot = 3" | "ATTEMPTS KStop = 3" | "ATTEMPTS KDelete = 5" | "ATTEMPTS KMove = 2" | "ATTEMPTS KSnapshot = 1" | "ATTEMPTS KRestore = 2"

fun BACKOFF :: "job_kind \<Rightarrow> int list" where
  "BACKOFF KBoot = [5, 15]" | "BACKOFF KStop = [5, 15]" | "BACKOFF KDelete = [10, 30, 60, 120]" | "BACKOFF KMove = [30]"
| "BACKOFF KSnapshot = [5, 15, 30]" | "BACKOFF KRestore = [15]"

definition registered :: "'w handlers" where
  "registered k = \<lparr>h_run = \<lambda>now job s. (Done, s), h_attempts = ATTEMPTS k, h_backoff = BACKOFF k, h_failed = None\<rparr>"

definition enqueue_job :: "time \<Rightarrow> string \<Rightarrow> string \<Rightarrow> job_kind \<Rightarrow> int option \<Rightarrow> (string, json) dict \<Rightarrow> 'w sys \<Rightarrow> 'w sys" where
  "enqueue_job now uid sandbox_id k deadline args z = snd (enqueue registered now uid sandbox_id k deadline args z)"

definition arg :: "job \<Rightarrow> string \<Rightarrow> json res" where
  "arg job k = item (j_args job) k"

definition stop_frozen :: "'h hosts \<Rightarrow> time \<Rightarrow> sandbox \<Rightarrow> (unit, 'h) prog" where
  "stop_frozen H now s =
     bindp (freeze H s) (\<lambda>_.
       changing (on_sandboxes (\<lambda>t. set_sandbox_paused now (s_id s) (set_sandbox_reachable (s_id s) t))))"

definition stop :: "'h hosts \<Rightarrow> time \<Rightarrow> string \<Rightarrow> job \<Rightarrow> (unit, 'h) prog" where
  "stop H now uid job =
     bindp (reading (\<lambda>z. get_sandbox (sbs z) (j_sandbox_id job))) (\<lambda>found.
     case found of
       None \<Rightarrow> ret ()
     | Some s \<Rightarrow>
         let restart = json_true (dict_get (j_args job) ''restart'')
         in if s_status s = Deleted then ret ()
            else if truthy (s_runtime_id s) \<and> s_status s = Up \<and> \<not> in_VMS (s_kind s) \<and> \<not> restart then stop_frozen H now s
            else bindp (remove_runtime H s) (\<lambda>_.
                 bindp (changing (on_world (forget_secrets (s_id s)))) (\<lambda>_.
                   changing (\<lambda>z.
                     let z1 = on_sandboxes (\<lambda>t. set_sandbox_stopped now (s_id s) (set_sandbox_reachable (s_id s) (clear_sandbox_runtime now (s_id s) t))) z
                     in if restart
                        then enqueue_job now uid (s_id s) KBoot (Some (boot_deadline (s_kind s))) []
                               (on_sandboxes (update_sandbox_status now Provisioning (s_id s)) z1)
                        else z1))))"

definition delete_steps :: "'h hosts \<Rightarrow> time \<Rightarrow> sandbox \<Rightarrow> server option \<Rightarrow> (unit, 'h) prog" where
  "delete_steps H now s server =
     bindp (remove_runtime H s) (\<lambda>_.
     bindp (reading (\<lambda>z. list_snapshots_by_sandbox (w_snapshots (q_world z)) (s_id s))) (\<lambda>snapshots.
     bindp (foreach (\<lambda>n. bindp (on_host (remove_snapshot H s (n_id n) server)) (\<lambda>_.
              changing (on_snapshots (delete_snapshot_row (n_id n))))) snapshots) (\<lambda>_.
     bindp (on_host (remove_volume H s server)) (\<lambda>_.
     bindp (changing (on_world (forget_secrets (s_id s)))) (\<lambda>_.
       changing (on_sandboxes (soft_delete_sandbox now (s_id s))))))))"

definition delete :: "'h hosts \<Rightarrow> time \<Rightarrow> job \<Rightarrow> (unit, 'h) prog" where
  "delete H now job =
     bindp (reading (\<lambda>z. map_option (\<lambda>s. (s, server_of s z)) (get_sandbox (sbs z) (j_sandbox_id job)))) (\<lambda>found.
     case found of
       None \<Rightarrow> ret ()
     | Some (s, server) \<Rightarrow> if s_status s = Deleted then ret () else delete_steps H now s server)"

subsection \<open>Snapshots and moves\<close>

definition take_snapshot :: "'h hosts \<Rightarrow> job \<Rightarrow> (unit, 'h) prog" where
  "take_snapshot H job =
     bindp (session (\<lambda>z. bindr (arg job ''snapshot_id'') (\<lambda>a. Inr (json_text (Some a), z)))) (\<lambda>snapshot_id.
     bindp (reading (\<lambda>z. case get_sandbox (sbs z) (j_sandbox_id job) of
         None \<Rightarrow> None
       | Some s \<Rightarrow> if s_status s = Deleted \<or> get_snapshot (w_snapshots (q_world z)) snapshot_id = None then None else Some (s, server_of s z))) (\<lambda>found.
     case found of
       None \<Rightarrow> ret ()
     | Some (s, server) \<Rightarrow>
         bindp (on_host (snapshot_disk H s snapshot_id server)) (\<lambda>bytes.
           changing (on_snapshots (set_snapshot_ready bytes snapshot_id)))))"

definition snapshot_failed :: "job \<Rightarrow> string \<Rightarrow> 'h world \<Rightarrow> 'h world" where
  "snapshot_failed job err w =
     (case arg job ''snapshot_id'' of
        Inl _ \<Rightarrow> w
      | Inr a \<Rightarrow> w\<lparr>w_snapshots := set_snapshot_failed (take 500 err) (json_text (Some a)) (w_snapshots w)\<rparr>)"

definition restore_job :: "'h hosts \<Rightarrow> time \<Rightarrow> job \<Rightarrow> (unit, 'h) prog" where
  "restore_job H now job =
     bindp (session (\<lambda>z. bindr (arg job ''snapshot_id'') (\<lambda>a. Inr (json_text (Some a), z)))) (\<lambda>snapshot_id.
     bindp (reading (\<lambda>z. case get_sandbox (sbs z) (j_sandbox_id job) of
         None \<Rightarrow> None
       | Some s \<Rightarrow> if s_status s \<noteq> Stopped \<or> get_snapshot (w_snapshots (q_world z)) snapshot_id = None then None else Some (s, server_of s z))) (\<lambda>found.
     case found of
       None \<Rightarrow> ret ()
     | Some (s, server) \<Rightarrow>
         bindp (if s_paused_at s \<noteq> None then to_volume H now s else ret ()) (\<lambda>_.
           on_host (restore_snapshot H s snapshot_id server))))"

definition move :: "'h hosts \<Rightarrow> time \<Rightarrow> job \<Rightarrow> (unit, 'h) prog" where
  "move H now job =
     bindp (session (\<lambda>z. bindr (arg job ''target'') (\<lambda>a. Inr ((case a of JStr t \<Rightarrow> Some t | _ \<Rightarrow> None), z)))) (\<lambda>target.
     bindp (reading (\<lambda>z. map_option (\<lambda>s. (s, server_of s z, if truthy target then get_server (w_servers (q_world z)) (the target) else None))
         (get_sandbox (sbs z) (j_sandbox_id job)))) (\<lambda>found.
     case found of
       None \<Rightarrow> ret ()
     | Some (s, source, dest) \<Rightarrow>
         if s_status s \<in> {Up, Provisioning, Deleting, Deleted} then ret ()
         else if \<not> in_VMS (s_kind s)
         then bindp (if s_paused_at s \<noteq> None then to_volume H now s else ret ()) (\<lambda>_.
                on_host (move_volume H (s_id s) (case target of Some t \<Rightarrow> t | None \<Rightarrow> [])))
         else bindp (on_host (move_vm H s source dest)) (\<lambda>_.
                changing (on_sandboxes (set_sandbox_placement now target (s_kind s) (s_id s))))))"

subsection \<open>The registered handlers\<close>

definition outcome_of :: "(fault + 'a) \<times> 's \<Rightarrow> outcome \<times> 's" where
  "outcome_of r = (case r of (Inr _, z) \<Rightarrow> (Done, z) | (Inl (FWait reason secs), z) \<Rightarrow> (WaitFor reason secs, z) | (Inl (FExc e), z) \<Rightarrow> (Raised e, z))"

text \<open>\<open>rnd\<close> gives the random values, the new ids and the boot times of each run.\<close>

record draw =
  dr_entropy :: entropy
  dr_uid :: string
  dr_seconds :: rat

definition run_job :: "'h hosts \<Rightarrow> draw \<Rightarrow> time \<Rightarrow> job \<Rightarrow> (unit, 'h) prog" where
  "run_job H d now job =
     (case j_kind job of
        KBoot \<Rightarrow> boot H now (dr_entropy d) (dr_seconds d) job
      | KStop \<Rightarrow> stop H now (dr_uid d) job
      | KDelete \<Rightarrow> delete H now job
      | KMove \<Rightarrow> move H now job
      | KSnapshot \<Rightarrow> take_snapshot H job
      | KRestore \<Rightarrow> restore_job H now job)"

definition job_failed :: "'h hosts \<Rightarrow> time \<Rightarrow> job \<Rightarrow> string \<Rightarrow> 'h world \<Rightarrow> 'h world" where
  "job_failed H now job err =
     (case j_kind job of
        KBoot \<Rightarrow> boot_failed H now job err
      | KStop \<Rightarrow> lifecycle_failed ''stop'' now job err
      | KDelete \<Rightarrow> lifecycle_failed ''delete'' now job err
      | KMove \<Rightarrow> lifecycle_failed ''move'' now job err
      | KSnapshot \<Rightarrow> snapshot_failed job err
      | KRestore \<Rightarrow> lifecycle_failed ''restore'' now job err)"

definition zoo_handlers :: "'h hosts \<Rightarrow> (time \<Rightarrow> job \<Rightarrow> draw) \<Rightarrow> 'h world handlers" where
  "zoo_handlers H rnd k =
     (registered k)\<lparr>h_run := \<lambda>now job z. outcome_of (run_job H (rnd now job) now job z), h_failed := Some (job_failed H)\<rparr>"

end
