(* ===== verification/HandlerFacts.thy ===== *)
theory HandlerFacts
  imports Handlers
begin

section \<open>What the job handlers keep and reach\<close>

text \<open>
  The proofs about the job handlers: what each of their steps leaves alone (the locale \<open>row_keeper\<close> and its
  interpretations), that a job changes nothing of another sandbox, and what a boot, a stop and a
  delete reach.
\<close>

subsection \<open>Programs and what they give\<close>

text \<open>What a program gives back, whatever state it starts in.\<close>

definition gives :: "('a \<Rightarrow> bool) \<Rightarrow> ('a, 'h) prog \<Rightarrow> bool" where
  "gives P m \<longleftrightarrow> (\<forall>z x z'. m z = (Inr x, z') \<longrightarrow> P x)"

lemma keeps_bindp_gives: "keeps I m \<Longrightarrow> gives P m \<Longrightarrow> (\<And>x. P x \<Longrightarrow> keeps I (f x)) \<Longrightarrow> keeps I (bindp m f)"
  by (auto simp: keeps_def gives_def bindp_def split: prod.splits sum.splits) (metis snd_conv)

lemma gives_reading: "(\<And>z. P (f z)) \<Longrightarrow> gives P (reading f)"
  by (simp add: gives_def reading_def)

lemma gives_session: "(\<And>z x z'. f z = Inr (x, z') \<Longrightarrow> P x) \<Longrightarrow> gives P (session f)"
  by (auto simp: gives_def session_def split: sum.splits)

lemma keeps_found:
  assumes "keeps I (f None)" and "\<And>s. s_id s = i \<Longrightarrow> keeps I (f (Some s))"
  shows "keeps I (bindp (reading (\<lambda>z. get_sandbox (sbs z) i)) f)"
proof (rule keeps_bindp_gives [where P = "\<lambda>r. \<forall>s. r = Some s \<longrightarrow> s_id s = i"])
  show "keeps I (reading (\<lambda>z. get_sandbox (sbs z) i))" by (rule keeps_intros)
  show "gives (\<lambda>r. \<forall>s. r = Some s \<longrightarrow> s_id s = i) (reading (\<lambda>z. get_sandbox (sbs z) i))"
    by (auto intro!: gives_reading dest: sandboxes.lookup_key)
  show "keeps I (f x)" if "\<forall>s. x = Some s \<longrightarrow> s_id s = i" for x
    using assms that by (cases x) auto
qed

text \<open>Reading and storing secrets changes the keys, the marks of use and the cache of keys alone.\<close>

definition quiet :: "'h world \<Rightarrow> 'h world \<Rightarrow> bool" where
  "quiet w w' \<longleftrightarrow> (\<exists>a b c d. w' = w\<lparr>w_secrets := a, w_grants := b, w_secret_keys := c, w_data_keys := d\<rparr>)"

lemma quietI: "quiet w (w\<lparr>w_secrets := a, w_grants := b, w_secret_keys := c, w_data_keys := d\<rparr>)"
  unfolding quiet_def by blast

lemma quiet_parts [simp]:
  "quiet w w" "quiet w (w\<lparr>w_secret_keys := c\<rparr>)" "quiet w (w\<lparr>w_data_keys := d\<rparr>)" "quiet w (w\<lparr>w_secrets := a, w_grants := b\<rparr>)"
  using quietI [where w = w and a = "w_secrets w" and b = "w_grants w" and c = "w_secret_keys w" and d = "w_data_keys w"]
    quietI [where w = w and a = "w_secrets w" and b = "w_grants w" and c = c and d = "w_data_keys w"]
    quietI [where w = w and a = "w_secrets w" and b = "w_grants w" and c = "w_secret_keys w" and d = d]
    quietI [where w = w and a = a and b = b and c = "w_secret_keys w" and d = "w_data_keys w"] by simp_all

lemma quiet_trans:
  assumes "quiet w w1" and "quiet w1 w2"
  shows "quiet w w2"
proof -
  obtain a b c d where 1: "w1 = w\<lparr>w_secrets := a, w_grants := b, w_secret_keys := c, w_data_keys := d\<rparr>" using assms(1) unfolding quiet_def by blast
  obtain a' b' c' d' where 2: "w2 = w1\<lparr>w_secrets := a', w_grants := b', w_secret_keys := c', w_data_keys := d'\<rparr>" using assms(2) unfolding quiet_def by blast
  have "w2 = w\<lparr>w_secrets := a', w_grants := b', w_secret_keys := c', w_data_keys := d'\<rparr>" by (simp add: 1 2)
  then show ?thesis using quietI by blast
qed

lemma quiet_tables:
  assumes "quiet w w'"
  shows "w_sandboxes w' = w_sandboxes w" "w_labels w' = w_labels w" "w_members w' = w_members w" "w_keys w' = w_keys w"
    "w_profiles w' = w_profiles w" "w_servers w' = w_servers w" "w_snapshots w' = w_snapshots w" "w_booted w' = w_booted w" "w_pool w' = w_pool w" "w_host w' = w_host w"
proof -
  obtain a b c d where "w' = w\<lparr>w_secrets := a, w_grants := b, w_secret_keys := c, w_data_keys := d\<rparr>" using assms unfolding quiet_def by blast
  then show "w_sandboxes w' = w_sandboxes w" "w_labels w' = w_labels w" "w_members w' = w_members w" "w_keys w' = w_keys w"
    "w_profiles w' = w_profiles w" "w_servers w' = w_servers w" "w_snapshots w' = w_snapshots w" "w_booted w' = w_booted w" "w_pool w' = w_pool w" "w_host w' = w_host w"
    by simp_all
qed

lemma decrypt_quiet: "decrypt c env token w = Inr (x, w') \<Longrightarrow> quiet w w'"
  by (auto simp: decrypt_def data_key_by_id_def open_token_def Let_def split: prod.splits option.splits)

lemma decrypt_into_quiet: "decrypt_into c env rows acc w = Inr (x, w') \<Longrightarrow> quiet w w'"
proof (induction c env rows acc w rule: decrypt_into.induct)
  case (2 c env name token rows acc w)
  then obtain v w1 where d: "decrypt c env token w = Inr (v, w1)" and r: "decrypt_into c env rows (dict_set name v acc) w1 = Inr (x, w')" by auto
  show ?case using quiet_trans [OF decrypt_quiet [OF d]] 2(1) d r by auto
qed simp

lemma secret_env_quiet:
  assumes "secret_env c env now i w = Inr (x, w')"
  shows "quiet w w'"
  by (rule quiet_trans [OF quiet_parts(4) decrypt_into_quiet [OF assms [unfolded secret_env_def secret_values_def]]])

lemma cached_key_quiet: "cached_key c env row w = Inr (x, w') \<Longrightarrow> quiet w w'"
  by (auto simp: cached_key_def split: option.splits)

lemma encrypt_quiet:
  assumes "encrypt c env en now data scope w = Inr (x, w')"
  shows "quiet w w'"
proof -
  obtain key w1 where k: "data_key c env en now scope w = Inr (key, w')" using assms by (auto simp: encrypt_def)
  show ?thesis
  proof (cases "get_secret_key_by_scope (w_secret_keys w) scope")
    case None
    obtain row t b where "cached_key c env row (w\<lparr>w_secret_keys := t\<rparr>) = Inr (b, w')"
      using k None by (auto simp: data_key_def Let_def split: option.splits)
    from quiet_trans [OF _ cached_key_quiet [OF this]] show ?thesis by simp
  next
    case (Some row)
    then obtain b where "cached_key c env row w = Inr (b, w')" using k by (auto simp: data_key_def)
    from cached_key_quiet [OF this] show ?thesis .
  qed
qed

subsection \<open>What the steps of a boot keep\<close>

text \<open>
  A property of the state that the hosts' state, stored secrets, remembered secrets and the configuration
  of sandbox \<open>i\<close> do not matter to is kept by every step that changes nothing else.
\<close>

locale row_keeper =
  fixes I :: "'h zoo \<Rightarrow> bool" and i :: string
  assumes host: "I z \<Longrightarrow> I (set_host h z)"
    and quietly: "I z \<Longrightarrow> quiet (q_world z) w \<Longrightarrow> I (z\<lparr>q_world := w\<rparr>)"
    and config: "I z \<Longrightarrow> I (on_sandboxes (update_sandbox now name res cfg i) z)"
    and remembered: "I z \<Longrightarrow> I (on_world (remember_secrets k vs) z)"
begin

lemma config_of: "I z \<Longrightarrow> i = k \<Longrightarrow> I (on_sandboxes (update_sandbox now name res cfg k) z)"
  using config by simp

lemma on_host_keeps: "keeps I (on_host a)"
  by (rule keeps_on_host) (rule host)

lemma lifted:
  assumes "lift_world f z = Inr (x, z')" and "\<And>w x w'. f w = Inr (x, w') \<Longrightarrow> quiet w w'" and "I z"
  shows "I z'"
proof -
  obtain w where "f (q_world z) = Inr (x, w)" and "z' = z\<lparr>q_world := w\<rparr>" using assms(1) by (auto simp: lift_world_def)
  then show ?thesis using quietly [OF assms(3) assms(2)] by blast
qed

lemma lifted_keeps: "(\<And>w x w'. f w = Inr (x, w') \<Longrightarrow> quiet w w') \<Longrightarrow> keeps I (session (lift_world f))"
  by (rule keeps_session) (rule lifted)

lemma vnc_password_kept:
  assumes "lift_world (ensure_vnc_password c env en now s) z = Inr (x, z')" and "I z" and i: "s_id s = i"
  shows "I z'"
proof -
  obtain w where e: "ensure_vnc_password c env en now s (q_world z) = Inr (x, w)" and z': "z' = z\<lparr>q_world := w\<rparr>"
    using assms(1) by (auto simp: lift_world_def)
  show ?thesis
  proof (cases "dict_get (s_config s) VNC_PASSWORD")
    case None
    obtain token w1 where 1: "encrypt c env en now (en_password en) (s_workspace_id s) (q_world z) = Inr (token, w1)"
      and 2: "decrypt c env token (w1\<lparr>w_sandboxes := update_sandbox now (s_name s) (s_resources s)
              (dict_set VNC_PASSWORD (JStr token) (s_config s)) (s_id s) (w_sandboxes w1)\<rparr>) = Inr (x, w)"
      using e None by (auto simp: ensure_vnc_password_def)
    let ?z1 = "on_sandboxes (update_sandbox now (s_name s) (s_resources s) (dict_set VNC_PASSWORD (JStr token) (s_config s)) i) (z\<lparr>q_world := w1\<rparr>)"
    have "I ?z1" by (rule config) (rule quietly [OF assms(2) encrypt_quiet [OF 1]])
    moreover have "quiet (q_world ?z1) w" using decrypt_quiet [OF 2] by (simp add: on_sandboxes_def i)
    ultimately have "I (?z1\<lparr>q_world := w\<rparr>)" by (rule quietly)
    then show ?thesis by (simp add: z' on_sandboxes_def)
  next
    case (Some v)
    then obtain t where "decrypt c env t (q_world z) = Inr (x, w)" using e by (auto simp: ensure_vnc_password_def)
    then show ?thesis unfolding z' by (intro quietly [OF assms(2)] decrypt_quiet)
  qed
qed

lemma pin_image_kept: "pin_image H now i z = Inr (x, z') \<Longrightarrow> I z \<Longrightarrow> I z'"
  by (auto simp: pin_image_def Let_def split: option.splits dest!: sandboxes.lookup_key intro: config_of)

lemma container_env_kept: "container_env H now en s srv z = Inr (x, z') \<Longrightarrow> I z \<Longrightarrow> s_id s = i \<Longrightarrow> I z'"
  by (auto simp: container_env_def Let_def split: if_splits dest: vnc_password_kept)

lemma remember_boot_kept:
  assumes "lift_world (remember_boot H s known) z = Inr (x, z')" and "I z"
  shows "I z'"
proof -
  obtain w1 more where q: "(case stored_password s of None \<Rightarrow> Inr ([], q_world z)
       | Some token \<Rightarrow> bindr (decrypt (rt_ciphers H) (rt_env H) token (q_world z)) (\<lambda>(p, w1). Inr ([p], w1))) = Inr (more, w1)"
    and z': "z' = z\<lparr>q_world := remember_secrets (s_id s) (map snd known @ more) w1\<rparr>"
    using assms(1) by (auto simp: lift_world_def remember_boot_def)
  have "quiet (q_world z) w1" using q by (auto split: option.splits dest: decrypt_quiet)
  from remembered [OF quietly [OF assms(2) this], of "s_id s" "map snd known @ more"] show ?thesis by (simp add: z')
qed

lemma boot_plan_kept:
  assumes "boot_plan H now en s z = Inr (p, z')" and "I z" and i: "s_id s = i"
  shows "I z'"
proof -
  obtain v where v: "get_sandbox_image_version (w_versions (q_world z)) (s_image_version_id s) = Some v"
    using assms(1) by (auto simp: boot_plan_def split: option.splits)
  obtain default secrets z1 e z2 img z3 u z4 p' where
    1: "lift_world (secret_env (rt_ciphers H) (rt_env H) now (s_id s)) z = Inr (secrets, z1)"
    and 2: "(if in_VMS (s_kind s) then Inr (secrets, z1) else container_env H now en s (server_of s z1) z1) = Inr (e, z2)"
    and 3: "(if in_VMS (s_kind s) then Inr ([], z2) else if default \<or> s_kind s = Code then pin_image H now (s_id s) z2 else Inr (iv_image_uri v, z2)) = Inr (img, z3)"
    and 4: "lift_world (remember_boot H s (dict_merge secrets e)) z3 = Inr (u, z4)"
    and 5: "(Inr (p', z4) :: (plan \<times> 'h zoo) res) = Inr (p, z')"
    using assms(1) v unfolding boot_plan_def Let_def by (simp only: option.case bindr_eq_Inr split_paired_Ex prod.case) blast
  have "I z1" by (rule lifted [OF 1 secret_env_quiet assms(2)])
  then have "I z2" using 2 i container_env_kept by (auto split: if_splits)
  then have "I z3" using 3 i pin_image_kept by (auto split: if_splits)
  then show ?thesis using remember_boot_kept [OF 4] 5 by simp
qed

lemma remove_runtime_keeps: "keeps I (remove_runtime H s)"
  unfolding remove_runtime_def by (intro keeps_intros on_host_keeps)

lemma enforce_keeps: "keeps I (enforce H s)"
  unfolding enforce_def by (intro keeps_intros host)

lemma apply_profile_keeps: "keeps I (apply_profile H rid p v)"
  unfolding apply_profile_def
  by (intro keeps_intros lifted_keeps host) (auto split: option.splits dest: decrypt_quiet)

lemma apply_profiles_keeps: "keeps I (apply_profiles H rid ps)"
  unfolding apply_profiles_def by (intro keeps_intros apply_profile_keeps)

lemma freeze_keeps: "keeps I (freeze H s)"
  unfolding freeze_def by (intro keeps_intros host)

lemma thaw_keeps: "keeps I (thaw H s)"
  unfolding thaw_def by (intro keeps_intros host)

lemma bind_keeps: "keeps I (bind H now i)"
  unfolding bind_def Let_def by (rule keeps_found) (auto intro!: keeps_intros host config_of)

end

subsection \<open>What a handler leaves alone\<close>

definition frame :: "string \<Rightarrow> 'h zoo \<Rightarrow> 'h zoo \<Rightarrow> bool" where
  "frame i z0 z \<longleftrightarrow> (\<forall>k. k \<noteq> i \<longrightarrow> get_sandbox (sbs z) k = get_sandbox (sbs z0) k) \<and> map s_id (sbs z) = map s_id (sbs z0) \<and>
     q_live z = q_live z0 \<and> (\<exists>js. q_jobs z = q_jobs z0 @ js \<and> (\<forall>j \<in> set js. j_sandbox_id j = i \<and> j_state j = Queued)) \<and>
     w_labels (q_world z) = w_labels (q_world z0) \<and> w_members (q_world z) = w_members (q_world z0) \<and> w_keys (q_world z) = w_keys (q_world z0) \<and>
     w_pool (q_world z) = w_pool (q_world z0)"

lemma frame_refl [simp]: "frame i z z"
  by (simp add: frame_def)

lemma frame_set_row:
  assumes "frame i z0 z" and "\<And>s. s_id (f s) = s_id s"
  shows "frame i z0 (on_sandboxes (set_row i f) z)"
  using assms by (auto simp: frame_def get_set_row_other ids_set_row on_sandboxes_def)

lemma frame_query [intro]:
  assumes "frame i z0 z"
  shows "frame i z0 (on_sandboxes (update_sandbox now name res cfg i) z)" "frame i z0 (on_sandboxes (update_sandbox_status now st i) z)"
    "frame i z0 (on_sandboxes (update_sandbox_runtime now rid host i) z)" "frame i z0 (on_sandboxes (clear_sandbox_runtime now i) z)"
    "frame i z0 (on_sandboxes (clear_sandbox_paused now i) z)" "frame i z0 (on_sandboxes (set_sandbox_started now i) z)"
    "frame i z0 (on_sandboxes (set_sandbox_stopped now i) z)" "frame i z0 (on_sandboxes (set_sandbox_paused now i) z)"
    "frame i z0 (on_sandboxes (soft_delete_sandbox now i) z)" "frame i z0 (on_sandboxes (set_sandbox_placement now srv k i) z)"
    "frame i z0 (on_sandboxes (set_sandbox_boot now base secs i) z)" "frame i z0 (on_sandboxes (set_sandbox_reachable i) z)"
    "frame i z0 (on_sandboxes (set_sandbox_failed now err i) z)"
  unfolding query_defs by (rule frame_set_row [OF assms]; simp)+

lemma frame_queries:
  assumes "frame i z0 z"
  shows "frame i z0 (on_sandboxes (\<lambda>t. set_sandbox_paused now i (set_sandbox_reachable i t)) z)"
    "frame i z0 (on_sandboxes (\<lambda>t. set_sandbox_stopped now i (set_sandbox_reachable i (clear_sandbox_runtime now i t))) z)"
  using frame_query(8) [OF frame_query(12) [OF assms]] frame_query(7) [OF frame_query(12) [OF frame_query(4) [OF assms]]]
  by (simp_all add: on_sandboxes_def)

lemma frame_host [simp]: "frame i z0 (set_host h z) = frame i z0 z"
  by (simp add: frame_def set_host_def)

lemma frame_snapshots [simp]: "frame i z0 (on_snapshots f z) = frame i z0 z"
  by (simp add: frame_def on_snapshots_def)

lemma frame_secrets [simp]:
  "frame i z0 (on_world (forget_secrets k) z) = frame i z0 z" "frame i z0 (on_world (remember_secrets k vs) z) = frame i z0 z"
  "frame i z0 (on_world (\<lambda>w. remember_secrets k (g w) w) z) = frame i z0 z"
  by (simp_all add: frame_def forget_secrets_def remember_secrets_def)

lemma frame_enqueue: "frame i z0 z \<Longrightarrow> frame i z0 (enqueue_job now uid i k dl args z)"
  by (auto simp: frame_def enqueue_job_def enqueue_jobs)

lemma frame_quiet: "quiet (q_world z) w \<Longrightarrow> frame i z0 z \<Longrightarrow> frame i z0 (z\<lparr>q_world := w\<rparr>)"
  by (simp add: frame_def quiet_tables)

interpretation framed: row_keeper "frame i z0" i for i z0
  by unfold_locales (simp_all add: frame_quiet frame_query)

lemmas framed_keeps = framed.remove_runtime_keeps framed.enforce_keeps framed.apply_profiles_keeps framed.freeze_keeps framed.thaw_keeps framed.bind_keeps

lemma keeps_frame_host [keeps_intros]: "keeps (frame i z0) (on_host a)"
  by (rule framed.on_host_keeps)

lemma keeps_to_volume: "s_id s = i \<Longrightarrow> keeps (frame i z0) (to_volume H now s)"
  unfolding to_volume_def by (intro keeps_intros framed_keeps) auto

lemma still_bootingD:
  "still_booting job z = Some s \<Longrightarrow> get_sandbox (sbs z) (j_sandbox_id job) = Some s \<and> s_id s = j_sandbox_id job \<and> s_status s = Provisioning \<and> owns z job"
  by (auto simp: still_booting_def split: option.splits if_splits dest: sandboxes.lookup_key)

lemma keeps_record_runtime: "j_sandbox_id job = i \<Longrightarrow> keeps (frame i z0) (record_runtime H now job rid host)"
  unfolding record_runtime_def by (intro keeps_intros) (auto simp: still_bootingD split: option.split)

lemma keeps_mark_started:
  assumes i: "j_sandbox_id job = i"
  shows "keeps (frame i z0) (mark_started H now job)"
proof -
  let ?f = "\<lambda>z. case still_booting job z of None \<Rightarrow> (None, z) | Some booting \<Rightarrow>
     let z1 = on_sandboxes (set_sandbox_started now (j_sandbox_id job)) z
     in case get_sandbox (sbs z1) (j_sandbox_id job) of None \<Rightarrow> (None, z1) | Some s \<Rightarrow> (Some s, on_sandboxes (set_sandbox_reachable (s_id s)) z1)"
  have k: "keeps (frame i z0) (step ?f)"
    by (intro keeps_intros) (auto simp: i Let_def split: option.split dest: sandboxes.lookup_key)
  have g: "gives (\<lambda>r. \<forall>s. r = Some s \<longrightarrow> s_id s = i) (step ?f)"
    by (auto simp: gives_def step_def i Let_def split: option.splits dest: sandboxes.lookup_key)
  show ?thesis
    unfolding mark_started_def
    by (rule keeps_bindp_gives [OF k g]) (auto intro!: keeps_intros framed_keeps split: option.split)
qed

lemma keeps_boot:
  assumes i: "j_sandbox_id job = i"
  shows "keeps (frame i z0) (boot H now en secs job)"
proof -
  have c: "keeps (frame i z0) (boot_cold H now en secs job s)" if "s_id s = i" for s
    unfolding boot_cold_def boot_vm_def boot_container_def using that i
    by (auto intro!: keeps_intros keeps_record_runtime framed_keeps keeps_mark_started split: option.split dest: framed.boot_plan_kept)
  have p: "keeps (frame i z0) (boot_paused H now job s)" if "s_id s = i" for s
    unfolding boot_paused_def using that i
    by (auto intro!: keeps_intros framed_keeps keeps_mark_started dest!: framed.lifted [OF _ secret_env_quiet])
  have cp: "keeps (frame i z0) (if s_paused_at s \<noteq> None \<and> truthy (s_runtime_id s) then boot_paused H now job s else boot_cold H now en secs job s)"
    if "s_id s = i" for s using c [OF that] p [OF that] by simp
  show ?thesis
    unfolding boot_def i
  proof (rule keeps_found)
    fix s :: sandbox assume s: "s_id s = i"
    show "keeps (frame i z0) (case Some s of None \<Rightarrow> ret () | Some s0 \<Rightarrow>
         if s_status s0 \<noteq> Provisioning then ret ()
         else bindp (if s_paused_at s0 \<noteq> None \<and> truthy (s_runtime_id s0) \<and> json_true (dict_get (j_args job) ''upgrade'')
                     then bindp (to_volume H now s0) (\<lambda>_. ret (s0\<lparr>s_runtime_id := None, s_paused_at := None\<rparr>)) else ret s0) (\<lambda>s.
              if s_paused_at s \<noteq> None \<and> truthy (s_runtime_id s) then boot_paused H now job s else boot_cold H now en secs job s))"
      unfolding option.case
      by (rule keeps_if [OF keeps_basics(1) keeps_bindp_gives [where P = "\<lambda>r. s_id r = i", OF _ _ cp]])
        (auto intro!: keeps_intros keeps_to_volume simp: s gives_def bindp_def ret_def split: prod.splits sum.splits)
  qed (simp add: keeps_basics)
qed

lemma keeps_stop:
  assumes i: "j_sandbox_id job = i"
  shows "keeps (frame i z0) (stop H now uid job)"
  unfolding stop_def stop_frozen_def Let_def i
  by (rule keeps_found) (auto intro!: keeps_intros framed_keeps frame_enqueue frame_queries)

lemma keeps_delete:
  assumes i: "j_sandbox_id job = i"
  shows "keeps (frame i z0) (delete H now job)"
  unfolding delete_def delete_steps_def i
  by (rule keeps_bindp_gives [where P = "\<lambda>r. \<forall>s v. r = Some (s, v) \<longrightarrow> s_id s = i"])
    (auto intro!: keeps_intros gives_reading framed_keeps split: option.splits dest: sandboxes.lookup_key)

lemma keeps_take_snapshot: "keeps (frame i z0) (take_snapshot H job)"
  unfolding take_snapshot_def by (intro keeps_intros) auto

lemma keeps_arg: "keeps I (session (\<lambda>z. bindr (arg job k) (\<lambda>a. Inr (g a, z))))"
  by (rule keeps_session) auto

lemma keeps_restore:
  assumes i: "j_sandbox_id job = i"
  shows "keeps (frame i z0) (restore_job H now job)"
  unfolding restore_job_def i
  by (rule keeps_bindp [OF keeps_arg])
    (rule keeps_bindp_gives [where P = "\<lambda>r. \<forall>s v. r = Some (s, v) \<longrightarrow> s_id s = i"];
     auto intro!: keeps_intros gives_reading keeps_to_volume split: option.splits if_splits dest: sandboxes.lookup_key)

lemma keeps_move:
  assumes i: "j_sandbox_id job = i"
  shows "keeps (frame i z0) (move H now job)"
  unfolding move_def i
  by (rule keeps_bindp [OF keeps_arg])
    (rule keeps_bindp_gives [where P = "\<lambda>r. \<forall>s v. r = Some (s, v) \<longrightarrow> s_id s = i"];
     auto intro!: keeps_intros gives_reading keeps_to_volume split: option.splits if_splits dest: sandboxes.lookup_key)

lemma keeps_run_job: "keeps (frame (j_sandbox_id job) z0) (run_job H d now job)"
  unfolding run_job_def by (cases "j_kind job") (simp_all add: keeps_boot keeps_stop keeps_delete keeps_take_snapshot keeps_restore keeps_move)

subsection \<open>What a boot, a stop and a delete reach\<close>

text \<open>The queue and what matters of the row of one sandbox, through the steps that do not change them.\<close>

definition row_is :: "string \<Rightarrow> status \<Rightarrow> string option \<Rightarrow> time option \<Rightarrow> time option \<Rightarrow> job tbl \<Rightarrow> 'h zoo \<Rightarrow> bool" where
  "row_is i st rid paused started js z \<longleftrightarrow> q_jobs z = js \<and> (\<exists>s. get_sandbox (sbs z) i = Some s \<and> s_status s = st \<and> s_runtime_id s = rid \<and>
     s_paused_at s = paused \<and> s_started_at s = started)"

lemma row_isI: "get_sandbox (sbs z) i = Some s \<Longrightarrow> row_is i (s_status s) (s_runtime_id s) (s_paused_at s) (s_started_at s) (q_jobs z) z"
  by (simp add: row_is_def)

interpretation tracked: row_keeper "row_is i st rid pa sa js" i for i st rid pa sa js
proof
  show "row_is i st rid pa sa js (z\<lparr>q_world := w\<rparr>)" if "row_is i st rid pa sa js z" "quiet (q_world z) w" for z w
    using that by (simp add: row_is_def quiet_tables)
  show "row_is i st rid pa sa js (on_sandboxes (update_sandbox now name res cfg i) z)" if "row_is i st rid pa sa js z" for z now name res cfg
    using that by (auto simp: row_is_def update_sandbox_def get_set_row_same)
  show "row_is i st rid pa sa js (on_world (remember_secrets k vs) z)" if "row_is i st rid pa sa js z" for z k vs
    using that by (simp add: row_is_def remember_secrets_def)
qed (simp add: row_is_def)

lemma row_is_query:
  assumes "row_is i st rid pa sa js z"
  shows "row_is i Up rid pa (Some now) js (on_sandboxes (set_sandbox_started now i) z)"
    "row_is i st rid pa sa js (on_sandboxes (set_sandbox_reachable i) z)"
    "row_is i st r pa sa js (on_sandboxes (update_sandbox_runtime now r h i) z)"
    "row_is i st rid None sa js (on_sandboxes (clear_sandbox_paused now i) z)"
    "row_is i st None None sa js (on_sandboxes (clear_sandbox_runtime now i) z)"
    "row_is i Stopped rid (Some now) sa js (on_sandboxes (set_sandbox_paused now i) z)"
    "row_is i Stopped rid pa sa js (on_sandboxes (set_sandbox_stopped now i) z)"
    "row_is i Deleted rid pa sa js (on_sandboxes (soft_delete_sandbox now i) z)"
    "row_is i st' rid pa sa js (on_sandboxes (update_sandbox_status now st' i) z)"
  using assms by (auto simp: row_is_def query_defs get_set_row_same)

lemma row_is_owns: "row_is i st rid pa sa js z \<Longrightarrow> row_is i st' rid' pa' sa' js z' \<Longrightarrow> owns z' job = owns z job"
  by (simp add: row_is_def owns_def)

text \<open>A program that ends with a value, and how such programs compose.\<close>

definition runs :: "('a, 'h) prog \<Rightarrow> 'h zoo \<Rightarrow> 'a \<Rightarrow> 'h zoo \<Rightarrow> bool" where
  "runs m z x z' \<longleftrightarrow> m z = (Inr x, z')"

lemma runs_bindp: "runs m z x z1 \<Longrightarrow> runs (f x) z1 y z2 \<Longrightarrow> runs (bindp m f) z y z2"
  by (simp add: runs_def bindp_def)

lemma runs_basics: "runs (ret x) z1 x z1" "runs (reading g) z (g z) z" "runs (changing f) z2 () (f z2)"
  by (simp_all add: runs_def prog_basics)

lemma runs_host: "a (w_host (q_world z)) = (Inr x, h) \<Longrightarrow> runs (on_host a) z x (set_host h z)"
  by (simp add: runs_def on_host_def)

lemma runs_session: "f z = Inr (x, z1) \<Longrightarrow> runs (session f) z x z1"
  by (simp add: runs_def session_def)

lemma attempted:
  assumes "keeps I m" and "I z"
  shows "\<exists>z'. runs (if b then attempt m (\<lambda>_. ret ()) else ret ()) z () z' \<and> I z'"
  using assms by (cases "m z") (auto simp: runs_def attempt_def ret_def keeps_def split: sum.split dest: spec [of _ z])

lemma still_booting_row:
  assumes "row_is i Provisioning rid pa sa js z" and "owns z job" and "j_sandbox_id job = i"
  shows "\<exists>s. still_booting job z = Some s \<and> s_id s = i \<and> get_sandbox (sbs z) i = Some s"
  using assms by (auto simp: row_is_def still_booting_def dest: sandboxes.lookup_key)

lemma mark_started_reaches:
  assumes row: "row_is i Provisioning rid pa sa js z" and "owns z job" and i: "j_sandbox_id job = i"
  shows "\<exists>s z'. runs (mark_started H now job) z (Some s) z' \<and> row_is i Up rid pa (Some now) js z'"
proof -
  obtain s where s: "still_booting job z = Some s" "get_sandbox (sbs z) i = Some s" using still_booting_row [OF assms] by blast
  define z1 where "z1 = on_sandboxes (set_sandbox_started now i) z"
  have r1: "row_is i Up rid pa (Some now) js z1" unfolding z1_def by (rule row_is_query [OF row])
  then obtain s1 where s1: "get_sandbox (sbs z1) i = Some s1" "s_id s1 = i" by (auto simp: row_is_def dest: sandboxes.lookup_key)
  define z2 where "z2 = on_sandboxes (set_sandbox_reachable i) z1"
  have r2: "row_is i Up rid pa (Some now) js z2" unfolding z2_def by (rule row_is_query [OF r1])
  obtain z3 where z3: "runs (attempt (enforce H s1) (\<lambda>_. ret ())) z2 () z3" and r3: "row_is i Up rid pa (Some now) js z3"
    using attempted [OF tracked.enforce_keeps r2, where b = True] by auto
  obtain z4 where z4: "runs (if is_kube H \<and> \<not> in_VMS (s_kind s1) \<and> \<not> truthy (s_server_id s1) then attempt (bind H now i) (\<lambda>_. ret ()) else ret ()) z3 () z4"
    and r4: "row_is i Up rid pa (Some now) js z4" using attempted [OF tracked.bind_keeps r3] by blast
  have "runs (mark_started H now job) z (Some s1) z4"
    unfolding mark_started_def i
  proof (rule runs_bindp)
    show "runs (step (\<lambda>z. case still_booting job z of None \<Rightarrow> (None, z) | Some booting \<Rightarrow>
       let z1 = on_sandboxes (set_sandbox_started now i) z
       in case get_sandbox (sbs z1) i of None \<Rightarrow> (None, z1) | Some s \<Rightarrow> (Some s, on_sandboxes (set_sandbox_reachable (s_id s)) z1))) z (Some s1) z2"
      using s(1) s1 by (simp add: runs_def step_def z1_def [symmetric] z2_def Let_def)
  qed (simp only: option.case s1(2), rule runs_bindp [OF z3], rule runs_bindp [OF z4], rule runs_basics)
  then show ?thesis using r4 by blast
qed

lemma record_runtime_reaches:
  assumes row: "row_is i Provisioning rid pa sa js z" and "owns z job" and i: "j_sandbox_id job = i"
  shows "\<exists>z'. runs (record_runtime H now job r host) z True z' \<and> row_is i Provisioning (Some r) pa sa js z'"
proof -
  obtain s where s: "still_booting job z = Some s" "s_id s = i" using still_booting_row [OF assms] by blast
  then have "runs (record_runtime H now job r host) z True (on_sandboxes (update_sandbox_runtime now (Some r) host i) z)"
    by (simp add: runs_def record_runtime_def bindp_def step_def ret_def)
  then show ?thesis using row_is_query(3) [OF row] by blast
qed

text \<open>Hosts that do what a boot asks of them.\<close>

definition hosts_boot :: "'h hosts \<Rightarrow> string \<Rightarrow> server option \<Rightarrow> bool" where
  "hosts_boot H i server \<longleftrightarrow>
     (\<forall>name img e desktop size h. \<exists>rid host h'. run_container H name img i e server desktop size h = (Inr (rid, host), h') \<and>
        (\<forall>e h. \<exists>h'. write_secrets H rid e h = (Inr (), h'))) \<and>
     (\<forall>rid h. \<exists>h'. op_bind H rid i h = (Inr (), h')) \<and> (\<forall>t h. \<exists>h'. op_wait_for_desktop H i t h = (Inr True, h'))"

lemma hosts_bootD:
  assumes "hosts_boot H i server"
  shows "\<exists>rid host h. runs (on_host (run_container H name img i e server desktop size')) z (rid, host) (set_host h z) \<and>
      (\<forall>e z. \<exists>h. runs (on_host (write_secrets H rid e)) z () (set_host h z))"
    and "\<exists>h. runs (on_host (op_bind H rid i)) z () (set_host h z)"
    and "\<exists>h. runs (on_host (op_wait_for_desktop H i t)) z True (set_host h z)"
proof -
  obtain rid host h where r: "run_container H name img i e server desktop size' (w_host (q_world z)) = (Inr (rid, host), h)"
    and w: "\<And>e h. \<exists>h'. write_secrets H rid e h = (Inr (), h')" using assms unfolding hosts_boot_def by blast
  have "\<exists>h. runs (on_host (write_secrets H rid e)) z () (set_host h z)" for e z
    using w [of e "w_host (q_world z)"] by (auto simp: runs_def on_host_def)
  with r show "\<exists>rid host h. runs (on_host (run_container H name img i e server desktop size')) z (rid, host) (set_host h z) \<and>
      (\<forall>e z. \<exists>h. runs (on_host (write_secrets H rid e)) z () (set_host h z))" by (auto simp: runs_def on_host_def)
next
  obtain h1 h2 where "op_bind H rid i (w_host (q_world z)) = (Inr (), h1)" "op_wait_for_desktop H i t (w_host (q_world z)) = (Inr True, h2)"
    using assms unfolding hosts_boot_def by blast
  then show "\<exists>h. runs (on_host (op_bind H rid i)) z () (set_host h z)" "\<exists>h. runs (on_host (op_wait_for_desktop H i t)) z True (set_host h z)"
    by (auto simp: runs_def on_host_def)
qed

lemma boot_container_reaches:
  assumes row: "row_is i Provisioning rid0 pa sa js z" and i: "s_id s = i" and job: "owns z job" "j_sandbox_id job = i"
    and H: "hosts_boot H i (bp_server p)" and p: "bp_profiles p = []"
  shows "\<exists>z' rid. runs (boot_container H now job s p) z () z' \<and> row_is i Up (Some rid) pa (Some now) js z'"
proof -
  obtain rid host h where c: "runs (on_host (run_container H (''zoo-sandbox-'' @ i) (bp_image p) i (bp_env p) (bp_server p) (s_kind s \<noteq> Code) (size_of s))) z (rid, host) (set_host h z)"
    and ws: "\<And>e z. \<exists>h. runs (on_host (write_secrets H rid e)) z () (set_host h z)"
    using hosts_bootD(1) [OF H] by blast
  obtain h2 where b: "runs (on_host (op_bind H rid i)) (set_host h z) () (set_host h2 (set_host h z))" using hosts_bootD(2) [OF H] by blast
  define z2 where "z2 = set_host h2 (set_host h z)"
  have r2: "row_is i Provisioning rid0 pa sa js z2" unfolding z2_def by (intro tracked.host row)
  obtain z3 where z3: "runs (record_runtime H now job rid host) z2 True z3" and r3: "row_is i Provisioning (Some rid) pa sa js z3"
    using record_runtime_reaches [OF r2 _ job(2)] row_is_owns [OF row r2] job(1) by blast
  obtain h4 where h4: "runs (on_host (write_secrets H rid (bp_secrets p))) z3 () (set_host h4 z3)" using ws by blast
  define z4 where "z4 = (if bp_secrets p \<noteq> [] then set_host h4 z3 else z3)"
  have w4: "runs (whenp (bp_secrets p \<noteq> []) (on_host (write_secrets H rid (bp_secrets p)))) z3 () z4"
    using h4 by (simp add: whenp_def z4_def runs_basics)
  have r4: "row_is i Provisioning (Some rid) pa sa js z4" unfolding z4_def using r3 tracked.host by auto
  have pr: "runs (apply_profiles H rid (bp_profiles p)) z4 () z4" by (simp add: p apply_profiles_def runs_basics)
  obtain h5 where h5: "runs (on_host (op_wait_for_desktop H i DESKTOP_TIMEOUT)) z4 True (set_host h5 z4)" using hosts_bootD(3) [OF H] by blast
  define z5 where "z5 = (if s_kind s \<noteq> Code then set_host h5 z4 else z4)"
  have w5: "runs (if s_kind s \<noteq> Code then on_host (op_wait_for_desktop H i DESKTOP_TIMEOUT) else ret True) z4 True z5"
    using h5 by (simp add: z5_def runs_basics)
  have r5: "row_is i Provisioning (Some rid) pa sa js z5" unfolding z5_def using r4 tracked.host by auto
  obtain s6 z6 where z6: "runs (mark_started H now job) z5 (Some s6) z6" and r6: "row_is i Up (Some rid) pa (Some now) js z6"
    using mark_started_reaches [OF r5 _ job(2)] row_is_owns [OF row r5] job(1) by blast
  obtain z7 where z7: "runs (if s_kind s6 = Browser then attempt (on_host (op_start_browser H rid (rt_BROWSER_HOME H))) (\<lambda>_. ret ()) else ret ()) z6 () z7"
    and r7: "row_is i Up (Some rid) pa (Some now) js z7" using attempted [OF tracked.on_host_keeps r6] by blast
  have "runs (boot_container H now job s p) z () z7"
    unfolding boot_container_def i
    by (rule runs_bindp [OF c], simp only: prod.case, rule runs_bindp [OF b [folded z2_def]], rule runs_bindp [OF z3],
        simp only: not_True_eq_False if_False, rule runs_bindp [OF w4], rule runs_bindp [OF pr], rule runs_bindp [OF w5],
        simp only: not_True_eq_False if_False, rule runs_bindp [OF z6], simp only: option.case, rule z7)
  then show ?thesis using r7 by blast
qed


text \<open>What holds when a program ends in a fault.\<close>

definition faults_keep :: "('h zoo \<Rightarrow> bool) \<Rightarrow> ('a, 'h) prog \<Rightarrow> bool" where
  "faults_keep I m \<longleftrightarrow> (\<forall>z e z'. I z \<longrightarrow> m z = (Inl e, z') \<longrightarrow> I z')"

lemma faults_keep_changing: "faults_keep I (changing f)"
  by (simp add: faults_keep_def changing_def)

lemma faults_keep_bindp: "keeps I m \<Longrightarrow> (\<And>x. faults_keep I (f x)) \<Longrightarrow> faults_keep I (bindp m f)"
  by (auto simp: faults_keep_def keeps_def bindp_def split: prod.splits sum.splits)

text \<open>What holds when a program ends well.\<close>

definition ensures :: "('h zoo \<Rightarrow> bool) \<Rightarrow> ('a, 'h) prog \<Rightarrow> ('a \<Rightarrow> 'h zoo \<Rightarrow> bool) \<Rightarrow> bool" where
  "ensures P m Q \<longleftrightarrow> (\<forall>z x z'. P z \<longrightarrow> m z = (Inr x, z') \<longrightarrow> Q x z')"

lemma ensures_bindp: "ensures P m R \<Longrightarrow> (\<And>x. ensures (R x) (f x) Q) \<Longrightarrow> ensures P (bindp m f) Q"
  by (auto simp: ensures_def bindp_def split: prod.splits sum.splits)

lemma ensures_reading: "(\<And>z. P z \<Longrightarrow> Q (f z) z) \<Longrightarrow> ensures P (reading f) Q"
  by (simp add: ensures_def reading_def)

lemma ensures_changing: "(\<And>z. P z \<Longrightarrow> Q () (f z)) \<Longrightarrow> ensures P (changing f) Q"
  by (simp add: ensures_def changing_def)

lemma ensures_host: "(\<And>x h z. P z \<Longrightarrow> Q x (set_host h z)) \<Longrightarrow> ensures P (on_host a) Q"
  by (auto simp: ensures_def on_host_def split: prod.splits)

lemma ensures_keeps: "keeps P m \<Longrightarrow> ensures P m (\<lambda>_. P)"
  unfolding ensures_def keeps_def by (metis snd_conv)

text \<open>The snapshots of \<open>i\<close> are among \<open>ns\<close>: the loop removes them all.\<close>

lemma remove_snapshots_ensures:
  "ensures (\<lambda>z. get_sandbox (sbs z) i = Some s \<and> (\<forall>n \<in> set (w_snapshots (q_world z)). n_sandbox_id n = i \<longrightarrow> n_id n \<in> n_id ` set ns))
     (foreach (\<lambda>n. bindp (on_host (remove_snapshot H s (n_id n) server)) (\<lambda>_. changing (on_snapshots (delete_snapshot_row (n_id n))))) ns)
     (\<lambda>_ z. get_sandbox (sbs z) i = Some s \<and> (\<forall>n \<in> set (w_snapshots (q_world z)). n_sandbox_id n \<noteq> i))"
proof (induction ns)
  case (Cons n ns)
  let ?P = "\<lambda>z. get_sandbox (sbs z) i = Some s \<and> (\<forall>m \<in> set (w_snapshots (q_world z)). n_sandbox_id m = i \<longrightarrow> n_id m \<in> n_id ` set (n # ns))"
  show ?case
    unfolding foreach.simps
    by (rule ensures_bindp [OF ensures_bindp [OF ensures_host [where Q = "\<lambda>_. ?P"] ensures_changing] Cons])
      (auto simp: delete_snapshot_row_def set_delete_where)
qed (auto simp: ensures_def ret_def)

lemma delete_ensures:
  assumes i: "s_id s = i"
  shows "ensures (\<lambda>z. get_sandbox (sbs z) i = Some s) (delete_steps H now s server)
    (\<lambda>_ z. (\<exists>s'. get_sandbox (sbs z) i = Some s' \<and> s_status s' = Deleted \<and> s_deleted_at s' = Some now) \<and>
       (\<forall>n \<in> set (w_snapshots (q_world z)). n_sandbox_id n \<noteq> i) \<and> dict_get (w_booted (q_world z)) i = None)"
proof -
  let ?A = "\<lambda>z. get_sandbox (sbs z) i = Some s"
  let ?C = "\<lambda>z. ?A z \<and> (\<forall>n \<in> set (w_snapshots (q_world z)). n_sandbox_id n \<noteq> i)"
  have "ensures ?A (remove_runtime H s) (\<lambda>_. ?A)"
    unfolding remove_runtime_def by (rule ensures_keeps) (intro keeps_intros, simp)
  moreover have "ensures ?A (reading (\<lambda>z. list_snapshots_by_sandbox (w_snapshots (q_world z)) i))
      (\<lambda>ns z. ?A z \<and> (\<forall>n \<in> set (w_snapshots (q_world z)). n_sandbox_id n = i \<longrightarrow> n_id n \<in> n_id ` set ns))"
    by (rule ensures_reading) (auto simp: list_snapshots_by_sandbox_def)
  moreover have "ensures ?C (on_host (remove_volume H s server)) (\<lambda>_. ?C)" by (rule ensures_host) simp
  moreover have "ensures ?C (changing (on_world (forget_secrets i))) (\<lambda>_ z. ?C z \<and> dict_get (w_booted (q_world z)) i = None)"
    by (rule ensures_changing) (auto simp: forget_secrets_def dict_get_pop)
  moreover have "ensures (\<lambda>z. ?C z \<and> dict_get (w_booted (q_world z)) i = None) (changing (on_sandboxes (soft_delete_sandbox now i)))
    (\<lambda>_ z. (\<exists>s'. get_sandbox (sbs z) i = Some s' \<and> s_status s' = Deleted \<and> s_deleted_at s' = Some now) \<and>
       (\<forall>n \<in> set (w_snapshots (q_world z)). n_sandbox_id n \<noteq> i) \<and> dict_get (w_booted (q_world z)) i = None)"
    by (rule ensures_changing) (auto simp: soft_delete_sandbox_def get_set_row_same on_sandboxes_def)
  ultimately show ?thesis
    unfolding delete_steps_def i by (intro ensures_bindp) (auto intro: remove_snapshots_ensures)
qed

text \<open>
  C9. A delete is complete or not done: when the delete job of a sandbox ends well, the sandbox is deleted, none of its
  snapshots is left and none of its secrets is remembered; when it ends in a fault, the
  sandbox's row is as it was, so the next attempt starts over.
\<close>

theorem delete_is_complete:
  assumes s: "get_sandbox (sbs z) i = Some s" "s_status s \<noteq> Deleted" and i: "j_sandbox_id job = i" and r: "delete H now job z = (res, z')"
  shows "case res of
      Inr _ \<Rightarrow> (\<exists>s'. get_sandbox (sbs z') i = Some s' \<and> s_status s' = Deleted) \<and>
        list_snapshots_by_sandbox (w_snapshots (q_world z')) i = [] \<and> dict_get (w_booted (q_world z')) i = None
    | Inl _ \<Rightarrow> get_sandbox (sbs z') i = Some s"
proof -
  have id: "s_id s = i" using s(1) by (rule sandboxes.lookup_key)
  have d: "delete_steps H now s (server_of s z) z = (res, z')" using r s i by (simp add: delete_def bindp_def reading_def)
  have "faults_keep (\<lambda>z. get_sandbox (sbs z) i = Some s) (delete_steps H now s (server_of s z))"
    unfolding delete_steps_def remove_runtime_def
    by (intro faults_keep_bindp faults_keep_changing keeps_intros) (auto simp: forget_secrets_def)
  note F = this
  note E = delete_ensures [OF id, of H now "server_of s z", unfolded ensures_def, rule_format, OF s(1)]
  show ?thesis
  proof (cases res)
    case (Inl e)
    then show ?thesis using F d s(1) unfolding faults_keep_def by simp
  next
    case (Inr u)
    have "list_snapshots_by_sandbox (w_snapshots (q_world z')) i = []"
      using E [OF d [unfolded Inr]] by (simp add: list_snapshots_by_sandbox_def)
    with E [OF d [unfolded Inr]] Inr show ?thesis by auto
  qed
qed

text \<open>Hosts that pause and resume a container and take its secrets.\<close>

definition hosts_pause :: "'h hosts \<Rightarrow> string \<Rightarrow> bool" where
  "hosts_pause H rid \<longleftrightarrow> (\<forall>h. \<exists>h'. pause H rid h = (Inr (), h')) \<and> (\<forall>h. \<exists>h'. resume H rid h = (Inr (), h')) \<and>
     (\<forall>e h. \<exists>h'. write_secrets H rid e h = (Inr (), h'))"

lemma hosts_pauseD:
  assumes "hosts_pause H rid"
  shows "\<exists>h. runs (on_host (pause H rid)) z () (set_host h z)" "\<exists>h. runs (on_host (resume H rid)) z () (set_host h z)"
    "\<exists>h. runs (on_host (write_secrets H rid e)) z () (set_host h z)"
proof -
  obtain h1 h2 h3 where "pause H rid (w_host (q_world z)) = (Inr (), h1)" "resume H rid (w_host (q_world z)) = (Inr (), h2)"
      "write_secrets H rid e (w_host (q_world z)) = (Inr (), h3)"
    using assms unfolding hosts_pause_def by blast
  then show "\<exists>h. runs (on_host (pause H rid)) z () (set_host h z)" "\<exists>h. runs (on_host (resume H rid)) z () (set_host h z)"
    "\<exists>h. runs (on_host (write_secrets H rid e)) z () (set_host h z)"
    by (auto simp: runs_def on_host_def)
qed

lemma stop_freezes:
  assumes s: "get_sandbox (sbs z) i = Some s" "s_status s = Up" "\<not> in_VMS (s_kind s)" "s_runtime_id s = Some rid" "rid \<noteq> []"
    and H: "\<not> is_kube H" "hosts_pause H rid" and job: "j_sandbox_id job = i" "dict_get (j_args job) ''restart'' = None"
  shows "\<exists>z'. stop H now uid job z = (Inr (), z') \<and> row_is i Stopped (Some rid) (Some now) (s_started_at s) (q_jobs z) z'"
proof -
  have id: "s_id s = i" using s(1) by (rule sandboxes.lookup_key)
  have r0: "row_is i Up (Some rid) (s_paused_at s) (s_started_at s) (q_jobs z) z" using row_isI [OF s(1)] s by simp
  obtain h where h: "runs (on_host (pause H rid)) z () (set_host h z)" using hosts_pauseD(1) [OF H(2)] by blast
  let ?z1 = "on_sandboxes (set_sandbox_paused now i) (on_sandboxes (set_sandbox_reachable i) (set_host h z))"
  have "row_is i Stopped (Some rid) (Some now) (s_started_at s) (q_jobs z) ?z1"
    by (rule row_is_query(6) [OF row_is_query(2) [OF tracked.host [OF r0]]])
  moreover have "freeze H s z = (Inr (), set_host h z)" using h H(1) s(4) by (simp add: freeze_def on_vm_control_def runs_def)
  then have "stop_frozen H now s z = (Inr (), ?z1)"
    by (simp add: stop_frozen_def bindp_def changing_def id) (simp add: on_sandboxes_def)
  ultimately show ?thesis
    using s job by (auto simp: stop_def bindp_def reading_def Let_def truthy_def json_true_def)
qed

lemma boot_thaws:
  assumes s: "get_sandbox (sbs z) i = Some s" "s_status s = Provisioning" "s_runtime_id s = Some rid" "rid \<noteq> []" "s_paused_at s \<noteq> None"
    and H: "\<not> is_kube H" "hosts_pause H rid" and job: "owns z job" "j_sandbox_id job = i" "dict_get (j_args job) ''upgrade'' = None"
    and read: "\<And>h. \<exists>e w'. secret_env (rt_ciphers H) (rt_env H) now i ((q_world z)\<lparr>w_host := h\<rparr>) = Inr (e, w')"
  shows "\<exists>z'. boot H now en secs job z = (Inr (), z') \<and> row_is i Up (Some rid) None (Some now) (q_jobs z) z'"
proof -
  let ?R = "\<lambda>st pa sa. row_is i st (Some rid) pa sa (q_jobs z)"
  have id: "s_id s = i" using s(1) by (rule sandboxes.lookup_key)
  have r0: "?R Provisioning (s_paused_at s) (s_started_at s) z" using row_isI [OF s(1)] s by simp
  obtain h where h: "runs (on_host (resume H rid)) z () (set_host h z)" using hosts_pauseD(2) [OF H(2)] by blast
  have t: "runs (thaw H s) z () (set_host h z)" using h H(1) s(3) by (simp add: thaw_def on_vm_control_def)
  obtain e w' where se: "secret_env (rt_ciphers H) (rt_env H) now i (q_world (set_host h z)) = Inr (e, w')" using read [of h] by (auto simp: set_host_def)
  define z2 where "z2 = on_sandboxes (clear_sandbox_paused now i) ((set_host h z)\<lparr>q_world := w'\<rparr>)"
  have r2: "?R Provisioning None (s_started_at s) z2"
    unfolding z2_def by (rule row_is_query(4) [OF tracked.quietly [OF tracked.host [OF r0] secret_env_quiet [OF se]]])
  have ss: "runs (session (\<lambda>z. bindr (lift_world (secret_env (rt_ciphers H) (rt_env H) now (s_id s)) z) (\<lambda>(secrets, z1).
         Inr (secrets, on_sandboxes (clear_sandbox_paused now (s_id s)) z1)))) (set_host h z) e z2"
    by (rule runs_session) (simp add: lift_world_def se id z2_def)
  obtain h3 where w: "runs (on_host (write_secrets H rid e)) z2 () (set_host h3 z2)" using hosts_pauseD(3) [OF H(2)] by blast
  define z4 where "z4 = on_world (\<lambda>w. remember_secrets i ((case dict_get (w_booted w) i of None \<Rightarrow> [] | Some vs \<Rightarrow> vs) @ map snd e) w) (set_host h3 z2)"
  have r4: "?R Provisioning None (s_started_at s) z4" unfolding z4_def by (rule tracked.remembered [OF tracked.host [OF r2]])
  obtain s5 z5 where m: "runs (mark_started H now job) z4 (Some s5) z5" and r5: "?R Up None (Some now) z5"
    using mark_started_reaches [OF r4 _ job(2)] row_is_owns [OF r0 r4] job(1) by blast
  have "runs (boot_paused H now job s) z () z5"
    unfolding boot_paused_def s(3) option.sel
    by (rule runs_bindp [OF t], rule runs_bindp [OF ss], rule runs_bindp [OF w], rule runs_bindp,
        unfold z4_def id, rule runs_basics(3), rule runs_bindp [OF m [unfolded z4_def]], rule runs_basics)
  then show ?thesis
    using r5 s job by (auto simp: boot_def bindp_def reading_def ret_def json_true_def truthy_def runs_def)
qed


text \<open>
  C4. A job changes nothing of another sandbox: whatever the hosts do, when the handler of a job ran, every other
  sandbox's row is as it was, no sandbox was added or removed, labels, members and keys are
  as they were, and the jobs it queued are of its own sandbox. What runs when a job has failed
  for good leaves the other rows alone too.
\<close>

theorem job_stays_with_its_sandbox:
  assumes "h_run (zoo_handlers H rnd (j_kind job)) now job z = (out, z')" and "k \<noteq> j_sandbox_id job"
  shows "get_sandbox (sbs z') k = get_sandbox (sbs z) k \<and> map s_id (sbs z') = map s_id (sbs z) \<and>
    w_labels (q_world z') = w_labels (q_world z) \<and> w_members (q_world z') = w_members (q_world z) \<and> w_keys (q_world z') = w_keys (q_world z) \<and>
    (\<exists>js. q_jobs z' = q_jobs z @ js \<and> (\<forall>j \<in> set js. j_sandbox_id j = j_sandbox_id job)) \<and>
    get_sandbox (w_sandboxes (the (h_failed (zoo_handlers H rnd (j_kind job))) now job err (q_world z))) k = get_sandbox (sbs z) k"
proof -
  have "outcome_of (run_job H (rnd now job) now job z) = (out, z')" using assms(1) by (simp add: zoo_handlers_def)
  then obtain r where "run_job H (rnd now job) now job z = (r, z')" by (auto simp: outcome_of_def split: prod.splits sum.splits fault.splits)
  then have f: "frame (j_sandbox_id job) z z'" using keeps_run_job [of job z H "rnd now job" now, unfolded keeps_def, rule_format, of z] by simp
  have "get_sandbox (w_sandboxes (job_failed H now job err (q_world z))) k = get_sandbox (sbs z) k"
    using assms(2) by (auto simp: job_failed_def boot_failed_def lifecycle_failed_def snapshot_failed_def Let_def query_defs get_set_row_other
        split: job_kind.split option.split sum.split dest!: sandboxes.lookup_key)
  then have "get_sandbox (w_sandboxes (the (h_failed (zoo_handlers H rnd (j_kind job))) now job err (q_world z))) k = get_sandbox (sbs z) k"
    by (simp add: zoo_handlers_def)
  with f assms(2) show ?thesis unfolding frame_def by blast
qed

text \<open>An example: a code sandbox whose boot is running.\<close>

definition demo_job :: "job_kind \<Rightarrow> job" where
  "demo_job k = fst (create_job 0 1 ''j1'' ''s1'' k [] 3 None [])\<lparr>j_state := Running, j_attempts := 1\<rparr>"

definition demo_booting :: "job_kind \<Rightarrow> status \<Rightarrow> unit zoo" where
  "demo_booting k st = demo_zoo\<lparr>q_jobs := [demo_job k], q_world := (q_world demo_zoo)\<lparr>
     w_sandboxes := [demo_sandbox\<lparr>s_status := st, s_kind := Code\<rparr>, demo_sandbox\<lparr>s_id := ''s2''\<rparr>],
     w_versions := [fst (create_sandbox_image_version 0 ''v1'' ''i1'' ''latest'' ''zoo'' ''u1'' [])],
     w_images := [fst (create_sandbox_image 0 ''i1'' ''w1'' ''Zoo desktop'' IMAGE_SLUG ''u1'' [])]\<rparr>\<rparr>"

lemma demo_hosts_boot: "hosts_boot demo_hosts i None"
  by (simp add: hosts_boot_def demo_hosts_def run_container_def write_secrets_def on_backend_def with_res_def linux_def backend_def
      is_remote_def macos_is_vm_def windows_is_vm_def starts_with_def MACOS_PREFIX_def WINDOWS_PREFIX_def)


theorem job_stays_with_its_sandbox_witness:
  "get_sandbox (sbs (snd (h_run (zoo_handlers demo_hosts (\<lambda>_ _. \<lparr>dr_entropy = demo_entropy, dr_uid = ''j9'', dr_seconds = 1\<rparr>) KStop) 5 (demo_job KStop) (demo_booting KStop Up)))) ''s2'' =
   Some (demo_sandbox\<lparr>s_id := ''s2''\<rparr>)"
proof -
  let ?rnd = "\<lambda>_ _. \<lparr>dr_entropy = demo_entropy, dr_uid = ''j9'', dr_seconds = 1\<rparr>" and ?z = "demo_booting KStop Up"
  have k: "j_kind (demo_job KStop) = KStop" "j_sandbox_id (demo_job KStop) = ''s1''" by code_simp+
  obtain out z' where r: "h_run (zoo_handlers demo_hosts ?rnd (j_kind (demo_job KStop))) 5 (demo_job KStop) ?z = (out, z')" by fastforce
  have "''s2'' \<noteq> j_sandbox_id (demo_job KStop)" by (simp add: k)
  moreover have "get_sandbox (sbs ?z) ''s2'' = Some (demo_sandbox\<lparr>s_id := ''s2''\<rparr>)" by code_simp
  ultimately show ?thesis using job_stays_with_its_sandbox [OF r, of "''s2''"] r by (simp add: k)
qed

theorem delete_is_complete_witness:
  "\<exists>z' s'. delete demo_hosts 5 (demo_job KDelete) (demo_booting KDelete Deleting) = (Inr (), z') \<and> get_sandbox (sbs z') ''s1'' = Some s' \<and> s_status s' = Deleted"
proof -
  let ?z = "demo_booting KDelete Deleting"
  have g: "get_sandbox (sbs ?z) ''s1'' = Some (sbs ?z ! 0)" "s_status (sbs ?z ! 0) \<noteq> Deleted" "j_sandbox_id (demo_job KDelete) = ''s1''" by code_simp+
  have "\<not> isl (fst (delete demo_hosts 5 (demo_job KDelete) ?z))" by code_simp
  then obtain u z' where r: "delete demo_hosts 5 (demo_job KDelete) ?z = (Inr u, z')" by (metis isl_def prod.collapse sum.exhaust)
  from delete_is_complete [OF g r] r show ?thesis by auto
qed


end
