(* ===== verification/Sweeps.thy ===== *)
theory Sweeps
  imports HandlerFacts
begin

section \<open>Warm creates and the sweeps\<close>

text \<open>
  The rest of \<open>apps/server/sandbox_api.py\<close> that changes sandboxes: the hand-over of a warm sandbox
  (\<open>hand_off\<close>, \<open>discard\<close>, \<open>create_async\<close>), and what runs on its own: \<open>expire\<close>, \<open>reconcile\<close>, the sweep of
  paused sandboxes and the events of the container runtime. Audit rows are written at once; in the code
  a background writer stores them.
\<close>

subsection \<open>Deleting a row\<close>

text \<open>\<open>DELETE FROM sandboxes\<close>, with what the foreign keys of the schema delete or clear with it.\<close>

definition delete_sandbox :: "string \<Rightarrow> 'h zoo \<Rightarrow> 'h zoo" where
  "delete_sandbox i z =
     (let w = q_world z; gone = map np_id (filter (\<lambda>p. np_sandbox_id p = i) (w_policies w))
      in z\<lparr>q_jobs := delete_where (\<lambda>j. j_sandbox_id j = i) (q_jobs z),
           q_world := w\<lparr>w_sandboxes := delete_sandbox_row i (w_sandboxes w),
             w_keys := delete_where (\<lambda>k. ak_sandbox_id k = Some i) (w_keys w),
             w_app_permissions := delete_where (\<lambda>p. pm_sandbox_id p = i) (w_app_permissions w),
             w_policies := delete_where (\<lambda>p. np_sandbox_id p = i) (w_policies w),
             w_rules := delete_where (\<lambda>r. nr_policy_id r \<in> set gone) (w_rules w),
             w_permissions := delete_where (\<lambda>p. sp_sandbox_id p = i) (w_permissions w),
             w_sandbox_secrets := delete_where (\<lambda>s. se_sandbox_id s = i) (w_sandbox_secrets w),
             w_grants := delete_where (\<lambda>g. vg_sandbox_id g = i) (w_grants w),
             w_audit := update_where (\<lambda>a. au_sandbox_id a = Some i) (\<lambda>a. a\<lparr>au_sandbox_id := None\<rparr>) (w_audit w),
             w_executions := delete_where (\<lambda>e. te_sandbox_id e = i) (w_executions w),
             w_snapshots := delete_where (\<lambda>n. n_sandbox_id n = i) (w_snapshots w),
             w_links := delete_where (\<lambda>l. vl_sandbox_id l = i) (w_links w),
             w_labels := delete_where (\<lambda>l. l_sandbox_id l = i) (w_labels w)\<rparr>\<rparr>)"

subsection \<open>The hand-over of a warm sandbox\<close>

definition hand_off_state :: "'h hosts \<Rightarrow> time \<Rightarrow> sandbox \<Rightarrow> 'h zoo \<Rightarrow> ((env \<times> profile option list) \<times> 'h zoo) res" where
  "hand_off_state H now s z =
     bindr (lift_world (secret_env (rt_ciphers H) (rt_env H) now (s_id s)) z) (\<lambda>(secrets, z1).
     bindr (lift_world (remember_boot H s secrets) z1) (\<lambda>(_, z2).
       Inr ((secrets, map (get_profile (w_profiles (q_world z1))) (config_profiles s)), z2)))"

definition hand_off_steps :: "'h hosts \<Rightarrow> sandbox \<Rightarrow> string \<Rightarrow> env \<Rightarrow> profile option list \<Rightarrow> (unit, 'h) prog list" where
  "hand_off_steps H s rid secrets profiles =
     [enforce H (s\<lparr>s_status := Up\<rparr>)] @ (if secrets \<noteq> [] then [on_host (write_secrets H rid secrets)] else []) @
     map (\<lambda>p. apply_profile H rid p None) (map the (filter (\<lambda>p. p \<noteq> None) profiles))"

definition hand_off :: "'h hosts \<Rightarrow> time \<Rightarrow> sandbox \<Rightarrow> (unit, 'h) prog" where
  "hand_off H now s =
     (let rid = (case s_runtime_id s of None \<Rightarrow> [] | Some r \<Rightarrow> r); kube = (is_kube H \<and> \<not> truthy (s_server_id s))
      in bindp (if rid = [] then ret False else on_host (is_running H rid)) (\<lambda>there.
         if \<not> there then throw (RuntimeError ''the pooled container is gone'')
         else bindp (session (hand_off_state H now s)) (\<lambda>(secrets, profiles).
              bindp (whenp kube (on_host (resume H rid))) (\<lambda>_.
              bindp (gather (hand_off_steps H s rid secrets profiles)) (\<lambda>_.
              bindp (step (\<lambda>z.
                  let z1 = on_sandboxes (set_sandbox_started now (s_id s)) z
                  in (get_sandbox (sbs z1) (s_id s), on_sandboxes (set_sandbox_reachable (s_id s)) z1))) (\<lambda>found.
              bindp (if kube then attempt (bind H now (s_id s)) (\<lambda>_. ret ()) else ret ()) (\<lambda>_.
                case found of
                  None \<Rightarrow> ret ()
                | Some f \<Rightarrow> if s_kind f = Browser then attempt (on_host (op_start_browser H rid (rt_BROWSER_HOME H))) (\<lambda>_. ret ()) else ret ())))))))"

definition discard :: "'h hosts \<Rightarrow> sandbox \<Rightarrow> (unit, 'h) prog" where
  "discard H s =
     bindp (attempt (remove_runtime H s) (\<lambda>_. ret ())) (\<lambda>_.
     bindp (changing (on_world (forget_secrets (s_id s)))) (\<lambda>_.
       changing (delete_sandbox (s_id s))))"

definition response_of :: "'h hosts \<Rightarrow> string \<Rightarrow> 'h zoo \<Rightarrow> sandbox_view res" where
  "response_of H i z =
     (case get_sandbox (sbs z) i of
        None \<Rightarrow> Inl (ZooError ''sandbox_not_found'' ''sandbox not found'' None)
      | Some s \<Rightarrow> Inr (to_response (rt_images H) s z))"

definition is_pooled :: "sandbox \<Rightarrow> bool" where
  "is_pooled s \<longleftrightarrow> json_true (dict_get (s_config s) ''pooled'')"

text \<open>
  One round of \<open>create_async\<close> per entry of the list: its clock, its random ids, whether the deadline cut the
  hand-over short while it waited for vm-control or the browser (before that, a cut is a host's call that raises), and
  whether the clock is past the deadline when a hand-over has failed. \<open>None\<close> is a create that has not returned when
  the list ends.
\<close>

record round =
  rd_now :: time
  rd_ids :: "nat \<Rightarrow> string"
  rd_cut :: bool
  rd_late :: bool

fun create_async :: "'h hosts \<Rightarrow> create_request \<Rightarrow> member \<Rightarrow> round list \<Rightarrow> 'h zoo \<Rightarrow> (sandbox_view res \<times> 'h zoo) option" where
  "create_async H p u [] z = None"
| "create_async H p u (r # rs) z =
     (case created H registered (rd_now r) (rd_ids r) p u z of
        Inl e \<Rightarrow> Some (Inl e, z)
      | Inr ((s, v), z1) \<Rightarrow>
          if \<not> is_pooled s then Some (Inr v, z1)
          else (case hand_off H (rd_now r) s z1 of (done, z2) \<Rightarrow>
                  if \<not> isl done \<and> \<not> rd_cut r then Some (response_of H (s_id s) z2, z2)
                  else let z3 = snd (discard H s z2)
                       in if rd_cut r \<or> rd_late r then Some (Inl (ZooError ''create_failed'' ''no warm sandbox could be handed over in time'' None), z3)
                          else create_async H p u rs z3))"

subsection \<open>Idle and old sandboxes\<close>

definition minutes :: "int \<Rightarrow> time" where "minutes m = seconds (60 * m)"

definition STRANDED_SECONDS :: int where "STRANDED_SECONDS = 60"

text \<open>\<open>COALESCE\<close> of the sandbox's limit and its workspace's; a limit that is not set lets everything be.\<close>

definition limit_of :: "int option \<Rightarrow> int option \<Rightarrow> int option" where
  "limit_of own fallback = (case own of None \<Rightarrow> fallback | Some m \<Rightarrow> Some m)"

definition past :: "time \<Rightarrow> int option \<Rightarrow> time option \<Rightarrow> bool" where
  "past now limit since = (case (limit, since) of (Some m, Some t) \<Rightarrow> t < now - minutes m | _ \<Rightarrow> False)"

text \<open>\<open>GREATEST\<close> skips nulls.\<close>

definition latest :: "time option \<Rightarrow> time option \<Rightarrow> time option" where
  "latest a b = (case (a, b) of (None, _) \<Rightarrow> b | (_, None) \<Rightarrow> a | (Some x, Some y) \<Rightarrow> Some (max x y))"

definition too_old :: "time \<Rightarrow> workspace \<Rightarrow> sandbox \<Rightarrow> bool" where
  "too_old now ws s = past now (limit_of (s_max_lifetime_minutes s) (ws_default_max_lifetime_minutes ws)) (s_started_at s)"

definition too_idle :: "time \<Rightarrow> workspace \<Rightarrow> sandbox \<Rightarrow> bool" where
  "too_idle now ws s = past now (limit_of (s_idle_timeout_minutes s) (ws_default_idle_timeout_minutes ws)) (latest (s_last_activity_at s) (s_started_at s))"

definition list_expired_sandboxes :: "time \<Rightarrow> 'h zoo \<Rightarrow> (sandbox \<times> string) list" where
  "list_expired_sandboxes now z =
     [(s, if too_old now ws s then ''lifetime'' else ''idle''). s \<leftarrow> sbs z, ws \<leftarrow> w_workspaces (q_world z),
        ws_id ws = s_workspace_id s \<and> s_status s = Up \<and> get_active_job (q_jobs z) (s_id s) = None \<and> (too_old now ws s \<or> too_idle now ws s)]"

definition system_audit :: "time \<Rightarrow> string \<Rightarrow> string \<Rightarrow> string \<Rightarrow> string \<Rightarrow> string option \<Rightarrow> (string, json) dict \<Rightarrow> 'h world \<Rightarrow> 'h world" where
  "system_audit now i workspace_id action resource_type resource_id metadata w =
     w\<lparr>w_audit := create_audit_log now i workspace_id None (if resource_type = ''sandboxes'' then resource_id else None) action resource_type resource_id
        (dict_merge [(''source'', JStr ''system'')] metadata) (w_audit w)\<rparr>"

fun stop_expired :: "time \<Rightarrow> (nat \<Rightarrow> string) \<Rightarrow> nat \<Rightarrow> (sandbox \<times> string) list \<Rightarrow> 'h zoo \<Rightarrow> 'h zoo" where
  "stop_expired now ids n [] z = z"
| "stop_expired now ids n ((s, _) # rows) z =
     stop_expired now ids (Suc n) rows (enqueue_job now (ids n) (s_id s) KStop None [] (on_jobs (cancel_sandbox_jobs now (s_id s)) z))"

definition list_stranded :: "time \<Rightarrow> 'h zoo \<Rightarrow> sandbox list" where
  "list_stranded now z =
     filter (\<lambda>s. s_status s = Provisioning \<and> s_updated_at s < now - seconds STRANDED_SECONDS \<and> get_active_job (q_jobs z) (s_id s) = None)
       (list_all_sandboxes (sbs z))"

fun boot_all :: "time \<Rightarrow> (nat \<Rightarrow> string) \<Rightarrow> nat \<Rightarrow> sandbox list \<Rightarrow> 'h zoo \<Rightarrow> 'h zoo" where
  "boot_all now ids n [] z = z"
| "boot_all now ids n (s # ss) z =
     boot_all now ids (Suc n) ss (enqueue_job now (ids n) (s_id s) KBoot (Some (boot_deadline (s_kind s))) [] z)"

fun audit_expired :: "time \<Rightarrow> (nat \<Rightarrow> string) \<Rightarrow> nat \<Rightarrow> (sandbox \<times> string) list \<Rightarrow> 'h world \<Rightarrow> 'h world" where
  "audit_expired now ids n [] w = w"
| "audit_expired now ids n ((s, reason) # rows) w =
     audit_expired now ids (Suc n) rows
       (system_audit now (ids n) (s_workspace_id s) (''stop ('' @ reason @ '')'') ''sandboxes'' (Some (s_id s)) [(''reason'', JStr reason)] w)"

definition expire_sandboxes :: "time \<Rightarrow> (nat \<Rightarrow> string) \<Rightarrow> 'h zoo \<Rightarrow> 'h zoo" where
  "expire_sandboxes now ids z =
     (let expired = list_expired_sandboxes now z;
          z1 = stop_expired now ids 0 expired z;
          stranded = list_stranded now z1;
          z2 = boot_all now ids (length expired) stranded z1
      in on_world (audit_expired now ids (length expired + length stranded) expired) z2)"

subsection \<open>Paused sandboxes\<close>

definition unpause_delete :: "'h hosts \<Rightarrow> time \<Rightarrow> string \<Rightarrow> (unit, 'h) prog" where
  "unpause_delete H now sandbox_id =
     bindp (reading (\<lambda>z. case get_sandbox (sbs z) sandbox_id of
         None \<Rightarrow> None
       | Some s \<Rightarrow> if s_status s \<noteq> Stopped \<or> s_paused_at s = None \<or> get_active_job (q_jobs z) (s_id s) \<noteq> None then None else Some s)) (\<lambda>found.
     case found of None \<Rightarrow> ret () | Some s \<Rightarrow> to_volume H now s)"

fun sweep_rows :: "'h hosts \<Rightarrow> time \<Rightarrow> time \<Rightarrow> sandbox list \<Rightarrow> string list \<Rightarrow> (unit, 'h) prog" where
  "sweep_rows H now horizon [] pressured = ret ()"
| "sweep_rows H now horizon (s # ss) pressured =
     (let node = node_of H s
      in if (case s_paused_at s of None \<Rightarrow> False | Some p \<Rightarrow> p \<le> horizon) \<or> node \<in> set pressured
         then bindp (unpause_delete H now (s_id s)) (\<lambda>_. sweep_rows H now horizon ss (removeAll node pressured))
         else sweep_rows H now horizon ss pressured)"

definition sweep_paused :: "'h hosts \<Rightarrow> time \<Rightarrow> time \<Rightarrow> (unit, 'h) prog" where
  "sweep_paused H now pause_time =
     bindp (reading (\<lambda>z. list_paused_sandboxes (sbs z))) (\<lambda>paused.
     if paused = [] then ret ()
     else bindp (on_host (op_pressured_nodes H)) (\<lambda>pressured. sweep_rows H now (now - pause_time) paused pressured))"

subsection \<open>What happened to the hosts\<close>

definition alive :: "'h hosts \<Rightarrow> sandbox \<Rightarrow> (bool option, 'h) prog" where
  "alive H s =
     (if \<not> truthy (s_runtime_id s) then ret (Some False)
      else attempt (bindp (on_host (is_running H (the (s_runtime_id s)))) (\<lambda>b. ret (Some b))) (\<lambda>_. ret None))"

definition HANG_SECONDS :: int where "HANG_SECONDS = 60"

definition suspected :: "time \<Rightarrow> string \<Rightarrow> 'h zoo \<Rightarrow> bool \<times> 'h zoo" where
  "suspected now i z =
     (let t = w_suspects (q_world z); since = (case dict_get t i of None \<Rightarrow> now | Some s \<Rightarrow> s)
      in (now - since \<ge> seconds HANG_SECONDS, on_world (\<lambda>w. w\<lparr>w_suspects := (if dict_get t i = None then dict_set i now t else t)\<rparr>) z))"

definition clear_suspect :: "string \<Rightarrow> 'h zoo \<Rightarrow> 'h zoo" where
  "clear_suspect i = on_world (\<lambda>w. w\<lparr>w_suspects := dict_pop i (w_suspects w)\<rparr>)"

text \<open>\<open>hung\<close>, with the monotonic clock in the same units as the others; a screen never asked counts as asked at 0.\<close>

definition hung :: "'h hosts \<Rightarrow> time \<Rightarrow> sandbox \<Rightarrow> (bool, 'h) prog" where
  "hung H now s =
     (let i = s_id s
      in if \<not> in_VMS (s_kind s) then ret False
         else bindp (on_host (op_heartbeat H i)) (\<lambda>beats.
              if beats then bindp (changing (clear_suspect i)) (\<lambda>_. ret False)
              else bindp (reading (\<lambda>z. dict_get (w_suspects (q_world z)) i = None \<and>
                       now - (case dict_get (w_probed (q_world z)) i of None \<Rightarrow> 0 | Some t \<Rightarrow> t) < seconds HANG_SECONDS div 2)) (\<lambda>soon.
                   if soon then ret False
                   else bindp (changing (on_world (\<lambda>w. w\<lparr>w_probed := dict_set i now (w_probed w)\<rparr>))) (\<lambda>_.
                        bindp (on_host (op_responsive H (case s_runtime_id s of None \<Rightarrow> [] | Some r \<Rightarrow> r))) (\<lambda>draws.
                        if draws then bindp (changing (clear_suspect i)) (\<lambda>_. ret False)
                        else step (suspected now i))))))"

definition halt :: "'h hosts \<Rightarrow> time \<Rightarrow> sandbox \<Rightarrow> (unit, 'h) prog" where
  "halt H now s =
     bindp (remove_runtime H s) (\<lambda>_.
       changing (on_sandboxes (\<lambda>t. set_sandbox_stopped now (s_id s) (set_sandbox_reachable (s_id s) (clear_sandbox_runtime now (s_id s) t)))))"

definition reconcile_row :: "'h hosts \<Rightarrow> time \<Rightarrow> string \<Rightarrow> sandbox \<Rightarrow> (unit, 'h) prog" where
  "reconcile_row H now uid s =
     bindp (alive H s) (\<lambda>up.
     bindp (if in_VMS (s_kind s) \<and> up = Some True then hung H now s else ret False) (\<lambda>hangs.
     bindp (reading (\<lambda>z. (get_sandbox (sbs z) (s_id s), get_active_job (q_jobs z) (s_id s)))) (\<lambda>(found, active).
     case found of
       None \<Rightarrow> throw (RuntimeError (py_repr ''NoneType'' @ '' object has no attribute '' @ py_repr ''status''))
     | Some c \<Rightarrow>
         if s_status c \<noteq> Up \<or> s_runtime_id c \<noteq> s_runtime_id s then ret ()
         else (case up of
             None \<Rightarrow> changing (on_sandboxes (set_sandbox_unreachable now (s_id s)))
           | Some True \<Rightarrow>
               bindp (changing (on_sandboxes (set_sandbox_reachable (s_id s)))) (\<lambda>_.
               if hangs \<and> active = None
               then changing (\<lambda>z. clear_suspect (s_id s) (enqueue_job now uid (s_id s) KStop None [(''restart'', JBool True)]
                      (on_sandboxes (set_sandbox_recovered now (s_id s)) z)))
               else ret ())
           | Some False \<Rightarrow> if active = None then halt H now c else ret ()))))"

definition startup_job :: "time \<Rightarrow> string \<Rightarrow> sandbox \<Rightarrow> 'h zoo \<Rightarrow> 'h zoo" where
  "startup_job now uid s z =
     (if s_status s = Provisioning then enqueue_job now uid (s_id s) KBoot (Some (boot_deadline (s_kind s))) [] z
      else if s_status s = Deleting then enqueue_job now uid (s_id s) KDelete None [] z else z)"

fun startup_jobs :: "time \<Rightarrow> (nat \<Rightarrow> string) \<Rightarrow> nat \<Rightarrow> sandbox list \<Rightarrow> 'h zoo \<Rightarrow> 'h zoo" where
  "startup_jobs now ids n [] z = z"
| "startup_jobs now ids n (s # ss) z = startup_jobs now ids (Suc n) ss (startup_job now (ids n) s z)"

fun reconcile_rows :: "'h hosts \<Rightarrow> time \<Rightarrow> (nat \<Rightarrow> string) \<Rightarrow> nat \<Rightarrow> string option \<Rightarrow> sandbox list \<Rightarrow> (unit, 'h) prog" where
  "reconcile_rows H now ids n server_id [] = ret ()"
| "reconcile_rows H now ids n server_id (s # ss) =
     bindp (if \<not> in_VMS (s_kind s) \<and> \<not> truthy (s_server_id s) then ret ()
            else if server_id \<noteq> None \<and> s_server_id s \<noteq> server_id then ret ()
            else if s_status s \<noteq> Up then ret ()
            else reconcile_row H now (ids n) s) (\<lambda>_. reconcile_rows H now ids (Suc n) server_id ss)"

definition reconcile :: "'h hosts \<Rightarrow> time \<Rightarrow> (nat \<Rightarrow> string) \<Rightarrow> bool \<Rightarrow> string option \<Rightarrow> (unit, 'h) prog" where
  "reconcile H now ids startup server_id =
     bindp (whenp startup (bindp (reading (\<lambda>z. w_servers (q_world z))) (foreach (\<lambda>sv. attempt (on_host (connect H sv)) (\<lambda>_. ret ()))))) (\<lambda>_.
     bindp (reading (\<lambda>z. filter (\<lambda>s. get_active_job (q_jobs z) (s_id s) = None) (list_all_sandboxes (sbs z)))) (\<lambda>rows.
     bindp (whenp startup (changing (startup_jobs now ids 0 rows))) (\<lambda>_.
       reconcile_rows H now ids (length rows) server_id rows)))"

text \<open>An event of the container runtime: a container that ended, or the list of those that run.\<close>

record runtime_state =
  rs_failed :: bool
  rs_error :: "string option"

datatype event_kind = RuntimeEnded string | RuntimeRunning "string list"

record runtime_event =
  ev_kind :: event_kind
  ev_state :: runtime_state
  ev_sandboxes :: "(string, runtime_state) dict"

definition event_rows :: "runtime_event \<Rightarrow> 'h zoo \<Rightarrow> sandbox list" where
  "event_rows ev z =
     (case ev_kind ev of
        RuntimeRunning ids \<Rightarrow> filter (\<lambda>s. \<not> in_VMS (s_kind s) \<and> \<not> truthy (s_server_id s) \<and> (case s_runtime_id s of None \<Rightarrow> True | Some r \<Rightarrow> r \<notin> set ids))
          (list_all_sandboxes (sbs z))
      | RuntimeEnded rid \<Rightarrow> (case get_sandbox_by_runtime_id (sbs z) rid of None \<Rightarrow> [] | Some s \<Rightarrow> [s]))"

definition end_runtime :: "time \<Rightarrow> runtime_event \<Rightarrow> sandbox \<Rightarrow> sandbox tbl \<Rightarrow> sandbox tbl" where
  "end_runtime now ev s t =
     (let st = (case s_runtime_id s of None \<Rightarrow> ev_state ev | Some r \<Rightarrow> (case dict_get (ev_sandboxes ev) r of None \<Rightarrow> ev_state ev | Some x \<Rightarrow> x));
          t1 = set_sandbox_reachable (s_id s) (clear_sandbox_runtime now (s_id s) t)
      in if rs_failed st then set_sandbox_failed now (if truthy (rs_error st) then the (rs_error st) else ''sandbox runtime failed'') (s_id s) t1
         else set_sandbox_stopped now (s_id s) t1)"

definition handle_runtime_event :: "'h hosts \<Rightarrow> time \<Rightarrow> runtime_event \<Rightarrow> (unit, 'h) prog" where
  "handle_runtime_event H now ev =
     bindp (step (\<lambda>z.
         let rows = filter (\<lambda>s. s_status s = Up \<and> get_active_job (q_jobs z) (s_id s) = None) (event_rows ev z)
         in (map the (filter truthy (map s_runtime_id rows)), on_sandboxes (fold (end_runtime now ev) rows) z))) (\<lambda>cleanup.
     foreach (\<lambda>rid. attempt (on_host (remove_container H rid)) (\<lambda>_. ret ())) cleanup)"

subsection \<open>Lemmas: a create\<close>

lemma create_pooled_jobs:
  assumes "create H hs now ids p u z = Inr (s, z')" and "default_image_version (rt_images H) now ids u (q_world z) = (v, w0)"
    and "admit H p u (z\<lparr>q_world := w0\<rparr>) = Inr (server_id, ls)"
    and "(if cr_size p = DEFAULT_SIZE then pool_claim (rt_images H) (cr_kind p) server_id w0 else (None, w0)) = (Some r, w1)"
    and "create_rows H now ids p u v server_id ls (Some r) w1 = (i, w2)"
  shows "q_jobs z' = q_jobs z \<and> q_live z' = q_live z"
  using assms(1) unfolding create_def assms(2) Let_def prod.case assms(3) bindr_simps assms(4) assms(5)
  by (auto split: if_splits option.splits simp: assms(2-5))

lemma attach_secrets_pool [simp]: "w_pool (attach_secrets now ids n u s is w) = w_pool w"
  by (induction now ids n u s "is" w rule: attach_secrets.induct) (simp_all add: Let_def audit_def)

lemma create_rows_row:
  assumes "create_rows H now ids p u v server_id ls pooled w = (i, w')" and fresh: "i \<notin> s_id ` set (w_sandboxes w)"
    and "get_sandbox (w_sandboxes w') i = Some s"
  shows "i = (case pooled of Some r \<Rightarrow> p_id r | None \<Rightarrow> ids 2)" "s_config s = new_config p server_id pooled i" "w_pool w' = w_pool w"
proof -
  show i: "i = (case pooled of Some r \<Rightarrow> p_id r | None \<Rightarrow> ids 2)"
    using assms(1) by (simp add: create_rows_def put_def Let_def split: prod.splits)
  obtain s0 t where st: "sandbox_rows H now p u v server_id pooled i (w_sandboxes w) = (s0, t)" by fastforce
  have c: "\<exists>s1. t = w_sandboxes w @ [s1] \<and> s_id s1 = i \<and> s_config s1 = new_config p server_id pooled i"
    using st fresh by (cases pooled) (auto simp: sandbox_rows_def create_sandbox_def query_defs set_row_new Let_def)
  let ?w0 = "w\<lparr>w_sandboxes := t, w_labels := put_rows i ls (w_labels w), w_usage_labels := put_rows i ls (w_usage_labels w)\<rparr>"
  let ?w1 = "attach_secrets now ids 4 u s0 (rev (remdups (rev (cr_secret_ids p)))) ?w0"
  have w': "w' = ?w1\<lparr>w_sandboxes := update_sandbox_status now Provisioning i (w_sandboxes ?w1)\<rparr>"
    using assms(1) st unfolding create_rows_def Let_def i [symmetric] put_def fst_conv snd_conv by simp
  have "w_sandboxes ?w1 = t" using same_counts_attach [of ?w0] by (simp add: same_counts_def)
  moreover have "get_sandbox (w_sandboxes w) i = None" using fresh by (simp add: sandboxes.lookup_None)
  ultimately show "s_config s = new_config p server_id pooled i"
    using c w' assms(3) by (auto simp: get_status_row sandboxes.lookup_append)
  show "w_pool w' = w_pool w" by (simp add: w')
qed

lemma new_config_pooled: "json_true (dict_get (new_config p server_id pooled i) ''pooled'') \<longleftrightarrow> pooled \<noteq> None"
  by (auto simp: new_config_def Let_def json_true_def update_conv split: option.split)

lemma pool_claim_pool: "pool_claim im k srv w = (Some r, w') \<Longrightarrow> w_pool w' = delete_where (\<lambda>x. p_id x = p_id r) (w_pool w)"
  by (auto simp: pool_claim_def split: if_splits option.splits prod.splits dest!: claim_pool_sandboxD)

lemma create_pooled:
  assumes c: "create H hs now ids p u z = Inr (s, z')" and pooled: "is_pooled s"
    and fresh: "\<And>i. i = ids 2 \<or> i \<in> p_id ` set (w_pool (q_world z)) \<Longrightarrow> i \<notin> s_id ` set (sbs z)"
  shows "s_id s \<in> p_id ` set (w_pool (q_world z))" "q_jobs z' = q_jobs z" "q_live z' = q_live z"
    "w_pool (q_world z') = delete_where (\<lambda>x. p_id x = s_id s) (w_pool (q_world z))"
proof -
  obtain v w0 where d: "default_image_version (rt_images H) now ids u (q_world z) = (v, w0)" by fastforce
  obtain server_id ls where ad: "admit H p u (z\<lparr>q_world := w0\<rparr>) = Inr (server_id, ls)" using create_admits [OF c d] by blast
  obtain claimed w1 where pool: "(if cr_size p = DEFAULT_SIZE then pool_claim (rt_images H) (cr_kind p) server_id w0 else (None, w0)) = (claimed, w1)"
    by fastforce
  obtain i w2 where rows: "create_rows H now ids p u v server_id ls claimed w1 = (i, w2)" by fastforce
  note U = create_unfold [OF c d ad pool rows]
  have p0: "w_pool w0 = w_pool (q_world z)" using pool_image_version d by (metis snd_conv)
  have "same_counts (q_world z) w0" using same_counts_image_version [of "q_world z"] d by (metis snd_conv)
  moreover have "same_counts w0 w1" using pool same_counts_claim [of w0] same_counts_refl by (metis snd_conv)
  ultimately have t1: "w_sandboxes w1 = sbs z" by (simp add: same_counts_def)
  have pl: "claimed = Some r \<Longrightarrow> r \<in> set (w_pool (q_world z))" for r
    using pool pool_claim_mem p0 by (metis option.distinct(1) prod.inject)
  have "i = (case claimed of Some r \<Rightarrow> p_id r | None \<Rightarrow> ids 2)" using rows by (auto simp: create_rows_def Let_def split: prod.splits)
  then have "i \<notin> s_id ` set (w_sandboxes w1)" using fresh [of i] pl t1 by (auto split: option.splits)
  note R = create_rows_row [OF rows this U(1)]
  have "claimed \<noteq> None" using pooled unfolding is_pooled_def R(2) new_config_pooled .
  then obtain r where r: "claimed = Some r" by auto
  have i: "s_id s = p_id r" using sandboxes.lookup_key [OF U(1)] R(1) r by simp
  show "s_id s \<in> p_id ` set (w_pool (q_world z))" using i pl r by auto
  show "q_jobs z' = q_jobs z" "q_live z' = q_live z" using create_pooled_jobs [OF c d ad pool [unfolded r] rows [unfolded r]] by auto
  have "pool_claim (rt_images H) (cr_kind p) server_id w0 = (Some r, w1)" using pool r by (simp split: if_splits)
  from pool_claim_pool [OF this] show "w_pool (q_world z') = delete_where (\<lambda>x. p_id x = s_id s) (w_pool (q_world z))"
    by (simp add: U(2) R(3) p0 i)
qed


lemma keeps_hand_off:
  assumes "s_id s = i"
  shows "keeps (frame i z0) (hand_off H now s)"
proof -
  have st: "keeps (frame i z0) (session (hand_off_state H now s))"
  proof (rule keeps_session)
    fix z x z' assume z: "frame i z0 z" and "hand_off_state H now s z = Inr (x, z')"
    then obtain sec z1 y where "lift_world (secret_env (rt_ciphers H) (rt_env H) now (s_id s)) z = Inr (sec, z1)" "lift_world (remember_boot H s sec) z1 = Inr (y, z')"
      by (auto simp: hand_off_state_def)
    note l = this
    have "frame i z0 z1" by (rule framed.lifted [OF l(1) _ z]) (rule secret_env_quiet)
    with l(2) show "frame i z0 z'" by (rule framed.remember_boot_kept)
  qed
  have steps: "keeps (frame i z0) (gather (hand_off_steps H s rid secrets profiles))" for rid secrets profiles
    by (rule keeps_gather) (auto simp: hand_off_steps_def intro: framed.enforce_keeps framed.apply_profile_keeps framed.on_host_keeps split: if_splits)
  show ?thesis
    unfolding hand_off_def Let_def
    by (intro st steps keeps_intros) (auto simp: assms Let_def intro!: framed_keeps)
qed

text \<open>The rows of one sandbox taken away, in the tables a create and a hand-over write.\<close>

definition without :: "string \<Rightarrow> 'h zoo \<Rightarrow> sandbox tbl \<times> job tbl \<times> label_row tbl" where
  "without i z = (delete_where (\<lambda>s. s_id s = i) (sbs z), delete_where (\<lambda>j. j_sandbox_id j = i) (q_jobs z), delete_where (\<lambda>l. l_sandbox_id l = i) (w_labels (q_world z)))"

lemma frame_without:
  assumes "frame i z0 z" and "distinct (map s_id (sbs z0))"
  shows "without i z = without i z0"
proof -
  have "delete_where (\<lambda>s. s_id s = i) (sbs z) = delete_where (\<lambda>s. s_id s = i) (sbs z0)"
    by (rule only_one_differs) (use assms in \<open>auto simp: frame_def get_sandbox_def\<close>)
  moreover obtain js where "q_jobs z = q_jobs z0 @ js" "\<forall>j \<in> set js. j_sandbox_id j = i" using assms(1) unfolding frame_def by blast
  ultimately show ?thesis using assms(1) by (simp add: without_def frame_def delete_where_def filter_empty_conv)
qed

lemma discard_tables:
  assumes "discard H s z = (r, z')" and "s_id s = i"
  shows "(sbs z', q_jobs z', w_labels (q_world z')) = without i z" "w_pool (q_world z') = w_pool (q_world z)" "q_live z' = q_live z"
proof -
  have k: "keeps (\<lambda>y. without i y = without i z \<and> w_pool (q_world y) = w_pool (q_world z) \<and> q_live y = q_live z) (attempt (remove_runtime H s) (\<lambda>_. ret ()))"
    unfolding remove_runtime_def by (intro keeps_intros) (simp_all add: without_def set_host_def)
  obtain z1 where a: "attempt (remove_runtime H s) (\<lambda>_. ret ()) z = (Inr (), z1)"
    by (cases "remove_runtime H s z"; cases "fst (remove_runtime H s z)") (auto simp: attempt_def ret_def)
  have z': "z' = delete_sandbox i (on_world (forget_secrets i) z1)" using assms by (simp add: discard_def bindp_def changing_def a)
  have 1: "without i z1 = without i z" "w_pool (q_world z1) = w_pool (q_world z)" "q_live z1 = q_live z"
    using k [unfolded keeps_def, rule_format, of z] by (simp_all add: a)
  show "(sbs z', q_jobs z', w_labels (q_world z')) = without i z" unfolding 1(1) [symmetric]
    by (simp add: z' delete_sandbox_def Let_def without_def delete_sandbox_row_def forget_secrets_def)
  show "w_pool (q_world z') = w_pool (q_world z)" "q_live z' = q_live z"
    by (simp_all add: z' delete_sandbox_def Let_def forget_secrets_def 1)
qed


text \<open>The ids of pooled sandboxes are in use nowhere else.\<close>

definition pool_fresh :: "'h zoo \<Rightarrow> bool" where
  "pool_fresh z \<longleftrightarrow> distinct (map s_id (sbs z)) \<and> (\<forall>r \<in> set (w_pool (q_world z)).
     p_id r \<notin> s_id ` set (sbs z) \<and> p_id r \<notin> j_sandbox_id ` set (q_jobs z) \<and> p_id r \<notin> l_sandbox_id ` set (w_labels (q_world z)))"

lemma put_rows_fresh: "i \<notin> l_sandbox_id ` set t \<Longrightarrow> delete_where (\<lambda>l. l_sandbox_id l = i) (put_rows i ls t) = t"
proof -
  assume f: "i \<notin> l_sandbox_id ` set t"
  have u: "delete_where (\<lambda>l. l_sandbox_id l = i) (update_where (\<lambda>l. l_sandbox_id l = i \<and> P l) g t') = delete_where (\<lambda>l. l_sandbox_id l = i) t'"
    if "\<And>l. l_sandbox_id (g l) = l_sandbox_id l" for P g and t' :: "label_row tbl"
    by (induction t') (auto simp: delete_where_def update_where_def that)
  have "delete_where (\<lambda>l. l_sandbox_id l = i) (set_sandbox_label i k v t') = delete_where (\<lambda>l. l_sandbox_id l = i) t'" for k v t'
    by (simp add: set_sandbox_label_def u) (simp add: delete_where_def)
  then have "delete_where (\<lambda>l. l_sandbox_id l = i) (fold (\<lambda>(key, value). set_sandbox_label i key value) ls t') = delete_where (\<lambda>l. l_sandbox_id l = i) t'" for t'
    by (induction ls arbitrary: t') auto
  then show ?thesis using f by (simp add: put_rows_def delete_sandbox_labels_def delete_where_fresh)
qed

text \<open>A new sandbox, the one the response shows, and every other as before.\<close>

definition made :: "'h zoo \<Rightarrow> sandbox_view \<Rightarrow> 'h zoo \<Rightarrow> bool" where
  "made z v z' \<longleftrightarrow> v_id v \<notin> s_id ` set (sbs z) \<and> get_sandbox (sbs z') (v_id v) \<noteq> None \<and>
     (\<forall>k. k \<noteq> v_id v \<longrightarrow> get_sandbox (sbs z') k = get_sandbox (sbs z) k)"

definition same_rows :: "'h zoo \<Rightarrow> 'h zoo \<Rightarrow> bool" where
  "same_rows z z' \<longleftrightarrow> sbs z' = sbs z \<and> q_jobs z' = q_jobs z \<and> q_live z' = q_live z \<and> w_labels (q_world z') = w_labels (q_world z)"

lemma failed_round:
  assumes c: "create H hs now ids p u z = Inr (s, z1)" and pooled: "is_pooled s" and fresh: "pool_fresh z" and id2: "ids 2 \<notin> s_id ` set (sbs z)"
    and h: "hand_off H now s z1 = (r, z2)"
  shows "\<exists>v. response_of H (s_id s) z2 = Inr v \<and> made z v z2"
    and "z3 = snd (discard H s z2) \<Longrightarrow> same_rows z z3 \<and> w_pool (q_world z3) = delete_where (\<lambda>x. p_id x = s_id s) (w_pool (q_world z)) \<and> s_id s \<in> p_id ` set (w_pool (q_world z))"
proof -
  have fr: "\<And>i. i = ids 2 \<or> i \<in> p_id ` set (w_pool (q_world z)) \<Longrightarrow> i \<notin> s_id ` set (sbs z)"
    using fresh id2 unfolding pool_fresh_def by (metis imageE)
  note P = create_pooled [OF c pooled fr]
  obtain ls where sc: "same_counts ((q_world z)\<lparr>w_sandboxes := sbs z @ [s], w_labels := put_rows (s_id s) ls (w_labels (q_world z))\<rparr>) (q_world z1)"
    using createD [OF c fr] by metis
  have out: "s_id s \<notin> s_id ` set (sbs z)" "s_id s \<notin> j_sandbox_id ` set (q_jobs z)" "s_id s \<notin> l_sandbox_id ` set (w_labels (q_world z))"
    using fresh P(1) unfolding pool_fresh_def by (metis imageE)+
  have t1: "sbs z1 = sbs z @ [s]" "w_labels (q_world z1) = put_rows (s_id s) ls (w_labels (q_world z))" using sc by (simp_all add: same_counts_def)
  have d1: "distinct (map s_id (sbs z1))" using t1 out fresh by (simp add: pool_fresh_def)
  have "delete_where (\<lambda>x. s_id x = s_id s) (sbs z1) = sbs z" using delete_where_fresh [OF out(1)] by (simp add: t1 delete_where_def)
  then have w1: "without (s_id s) z1 = (sbs z, q_jobs z, w_labels (q_world z))"
    using out P(2) by (simp add: without_def t1(2) put_rows_fresh delete_where_fresh)
  have f: "frame (s_id s) z1 z2" using keeps_hand_off [OF refl, of s z1 H now] h frame_refl by (metis keeps_def snd_conv)
  have "s_id ` set (sbs z2) = s_id ` set (sbs z1)" using f unfolding frame_def by (metis list.set_map)
  then have "s_id s \<in> s_id ` set (sbs z2)" using t1 by simp
  then obtain s2 where s2: "get_sandbox (sbs z2) (s_id s) = Some s2" by (metis not_None_eq sandboxes.lookup_None)
  have o: "get_sandbox (sbs z2) k = get_sandbox (sbs z) k" if "k \<noteq> s_id s" for k
    using f that by (simp add: frame_def t1 sandboxes.lookup_append split: option.split)
  then show "\<exists>v. response_of H (s_id s) z2 = Inr v \<and> made z v z2"
    using s2 sandboxes.lookup_key [OF s2] out(1) by (simp add: response_of_def made_def)
  assume z3: "z3 = snd (discard H s z2)"
  then have "discard H s z2 = (fst (discard H s z2), z3)" by simp
  from discard_tables [OF this refl] show "same_rows z z3 \<and> w_pool (q_world z3) = delete_where (\<lambda>x. p_id x = s_id s) (w_pool (q_world z)) \<and> s_id s \<in> p_id ` set (w_pool (q_world z))"
    using frame_without [OF f d1] w1 f P by (simp add: frame_def same_rows_def)
qed


lemma round_cases:
  assumes "created H hs now ids p u z = r"
  obtains (refused) e where "r = Inl e"
  | (cold) s v z1 where "r = Inr ((s, v), z1)" "\<not> is_pooled s" "create H hs now ids p u z = Inr (s, z1)" "v = to_response (rt_images H) s z1"
  | (warm) s v z1 where "r = Inr ((s, v), z1)" "is_pooled s" "create H hs now ids p u z = Inr (s, z1)"
  using assms by (cases "create H hs now ids p u z") (fastforce simp: created_def)+

lemma made_cold:
  assumes c: "create H hs now ids p u z = Inr (s, z1)" and fresh: "pool_fresh z" and id2: "ids 2 \<notin> s_id ` set (sbs z)"
  shows "made z (to_response (rt_images H) s z1) z1"
proof -
  have fr: "\<And>i. i = ids 2 \<or> i \<in> p_id ` set (w_pool (q_world z)) \<Longrightarrow> i \<notin> s_id ` set (sbs z)"
    using fresh id2 unfolding pool_fresh_def by (metis imageE)
  obtain ls where sc: "same_counts ((q_world z)\<lparr>w_sandboxes := sbs z @ [s], w_labels := put_rows (s_id s) ls (w_labels (q_world z))\<rparr>) (q_world z1)"
    and i: "s_id s = ids 2 \<or> s_id s \<in> p_id ` set (w_pool (q_world z))" using createD [OF c fr] by metis
  show ?thesis using sc fr [OF i] by (auto simp: made_def same_counts_def sandboxes.lookup_append split: option.split)
qed

lemma pool_fresh_less:
  "pool_fresh z \<Longrightarrow> same_rows z z' \<Longrightarrow> w_pool (q_world z') = delete_where P (w_pool (q_world z)) \<Longrightarrow> pool_fresh z'"
  by (simp add: pool_fresh_def same_rows_def delete_where_def)

lemma create_async_outcome:
  assumes "pool_fresh z" and "\<forall>r \<in> set rs. rd_ids r 2 \<notin> s_id ` set (sbs z)"
  shows "case create_async H p u rs z of
      None \<Rightarrow> length rs \<le> length (w_pool (q_world z))
    | Some (Inl e, z') \<Rightarrow> same_rows z z'
    | Some (Inr v, z') \<Rightarrow> made z v z'"
  using assms
proof (induction H p u rs z rule: create_async.induct)
  case (2 H p u r rs z)
  note fresh = 2(2) and id2 = 2(3) [THEN bspec, of r, simplified]
  show ?case
  proof (rule round_cases [of H registered "rd_now r" "rd_ids r" p u z, OF refl])
    fix e assume "created H registered (rd_now r) (rd_ids r) p u z = Inl e"
    then show ?thesis by (simp add: same_rows_def)
  next
    fix s v z1 assume *: "created H registered (rd_now r) (rd_ids r) p u z = Inr ((s, v), z1)" "\<not> is_pooled s"
      "create H registered (rd_now r) (rd_ids r) p u z = Inr (s, z1)" "v = to_response (rt_images H) s z1"
    then show ?thesis using made_cold [OF *(3) fresh] id2 by simp
  next
    fix s v z1 assume *: "created H registered (rd_now r) (rd_ids r) p u z = Inr ((s, v), z1)" "is_pooled s"
      "create H registered (rd_now r) (rd_ids r) p u z = Inr (s, z1)"
    obtain d z2 where h: "hand_off H (rd_now r) s z1 = (d, z2)" by fastforce
    note R = failed_round [OF *(3,2) fresh id2 h]
    let ?z3 = "snd (discard H s z2)"
    note R3 = R(2) [OF refl]
    show ?thesis
    proof (cases "(\<not> isl d \<and> \<not> rd_cut r) \<or> rd_cut r \<or> rd_late r")
      case True
      then show ?thesis using R(1) R3 * h by (auto simp: Let_def)
    next
      case False
      then have f: "isl d" "\<not> rd_cut r" "\<not> rd_late r" by auto
      have shorter: "length (w_pool (q_world ?z3)) < length (w_pool (q_world z))"
        using R3 by (auto simp: delete_where_def intro: length_filter_less)
      have "pool_fresh ?z3" using R3 fresh pool_fresh_less by blast
      moreover have "\<forall>r \<in> set rs. rd_ids r 2 \<notin> s_id ` set (sbs ?z3)" using R3 2(3) by (simp add: same_rows_def)
      ultimately have "case create_async H p u rs ?z3 of None \<Rightarrow> length rs \<le> length (w_pool (q_world ?z3))
          | Some (Inl e, z') \<Rightarrow> same_rows ?z3 z' | Some (Inr v, z') \<Rightarrow> made ?z3 v z'"
        using 2(1) [OF *(1) refl refl _ h [symmetric] _ refl] *(2) False by blast
      moreover have "create_async H p u (r # rs) z = create_async H p u rs ?z3" using * h f by (simp add: Let_def)
      moreover have "same_rows ?z3 z' = same_rows z z'" "made ?z3 v z' = made z v z'" for z' v
        using R3 by (auto simp: same_rows_def made_def)
      ultimately show ?thesis using shorter by (auto split: option.splits sum.splits)
    qed
  qed
qed simp


subsection \<open>Lemmas: the sweep\<close>

text \<open>What a sweep for expired sandboxes queues.\<close>

lemma enqueue_job_jobs:
  "\<exists>j. q_jobs (enqueue_job now uid i k dl args z) = q_jobs z @ [j] \<and> j_sandbox_id j = i \<and> j_kind j = k \<and> j_state j = Queued"
  by (auto simp: enqueue_job_def enqueue_jobs)

lemma enqueue_job_world [simp]: "q_world (enqueue_job now uid i k dl args z) = q_world z" "q_live (enqueue_job now uid i k dl args z) = q_live z"
  by (simp_all add: enqueue_job_def)

lemma cancel_none: "get_active_job t i = None \<Longrightarrow> cancel_sandbox_jobs now i t = t"
  unfolding cancel_sandbox_jobs_def by (rule update_where_none) (auto simp: get_active_job_None)

definition one_each :: "job_kind \<Rightarrow> string list \<Rightarrow> job tbl \<Rightarrow> bool" where
  "one_each k is js \<longleftrightarrow> map j_sandbox_id js = is \<and> (\<forall>j \<in> set js. j_kind j = k \<and> j_state j = Queued)"

text \<open>A running sandbox with nothing in progress is past a limit of its own or, where it has none, of its workspace.\<close>

definition expires :: "time \<Rightarrow> sandbox \<Rightarrow> 'h zoo \<Rightarrow> bool" where
  "expires now s z \<longleftrightarrow> s_status s = Up \<and> get_active_job (q_jobs z) (s_id s) = None \<and>
     (\<exists>ws \<in> set (w_workspaces (q_world z)). ws_id ws = s_workspace_id s \<and> (too_old now ws s \<or> too_idle now ws s))"

lemma stop_expired_jobs:
  assumes "distinct (map (\<lambda>p. s_id (fst p)) rows)" and "\<forall>p \<in> set rows. get_active_job (q_jobs z) (s_id (fst p)) = None"
  shows "\<exists>js. q_jobs (stop_expired now ids n rows z) = q_jobs z @ js \<and> one_each KStop (map (\<lambda>p. s_id (fst p)) rows) js"
  using assms
proof (induction now ids n rows z rule: stop_expired.induct)
  case (2 now ids n s r rows z)
  let ?z0 = "on_jobs (cancel_sandbox_jobs now (s_id s)) z" and ?i = "\<lambda>p. s_id (fst p)"
  let ?z1 = "enqueue_job now (ids n) (s_id s) KStop None [] ?z0"
  have "cancel_sandbox_jobs now (s_id s) (q_jobs z) = q_jobs z" by (rule cancel_none) (use 2(3) in simp)
  then obtain j where j: "q_jobs ?z1 = q_jobs z @ [j]" "j_sandbox_id j = s_id s" "j_kind j = KStop" "j_state j = Queued"
    using enqueue_job_jobs [of now "ids n" "s_id s" KStop None "[]" ?z0] by auto
  have "\<forall>p \<in> set rows. get_active_job (q_jobs ?z1) (?i p) = None"
  proof
    fix p assume p: "p \<in> set rows"
    then have "?i p \<noteq> s_id s" using 2(2) by (auto simp: image_iff)
    moreover have "get_active_job (q_jobs z) (?i p) = None" using 2(3) p by simp
    ultimately show "get_active_job (q_jobs ?z1) (?i p) = None" using j by (auto simp: get_active_job_None)
  qed
  then obtain js where "q_jobs (stop_expired now ids (Suc n) rows ?z1) = q_jobs ?z1 @ js" "one_each KStop (map ?i rows) js"
    using 2(1) 2(2) by auto
  then show ?case using j by (intro exI [of _ "j # js"]) (simp add: one_each_def)
qed (simp add: one_each_def)

lemma boot_all_jobs:
  "\<exists>js. q_jobs (boot_all now ids n ss z) = q_jobs z @ js \<and> one_each KBoot (map s_id ss) js"
proof (induction now ids n ss z rule: boot_all.induct)
  case (2 now ids n s ss z)
  let ?z1 = "enqueue_job now (ids n) (s_id s) KBoot (Some (boot_deadline (s_kind s))) [] z"
  obtain j where j: "q_jobs ?z1 = q_jobs z @ [j]" "j_sandbox_id j = s_id s" "j_kind j = KBoot" "j_state j = Queued" using enqueue_job_jobs by metis
  obtain js where "q_jobs (boot_all now ids (Suc n) ss ?z1) = q_jobs ?z1 @ js" "one_each KBoot (map s_id ss) js" using 2 by blast
  with j show ?case by (intro exI [of _ "j # js"]) (simp add: one_each_def)
qed (simp add: one_each_def)

lemma stop_expired_world [simp]: "q_world (stop_expired now ids n rows z) = q_world z"
  by (induction now ids n rows z rule: stop_expired.induct) simp_all

lemma boot_all_world [simp]: "q_world (boot_all now ids n ss z) = q_world z"
  by (induction now ids n ss z rule: boot_all.induct) simp_all

lemma audit_expired_sandboxes [simp]: "w_sandboxes (audit_expired now ids n rows w) = w_sandboxes w"
  by (induction now ids n rows w rule: audit_expired.induct) (simp_all add: system_audit_def)

lemma audit_expired_rows: "length (w_audit (audit_expired now ids n rows w)) = length (w_audit w) + length rows"
  by (induction now ids n rows w rule: audit_expired.induct) (simp_all add: system_audit_def create_audit_log_def)

lemma mem_expired:
  "i \<in> set (map (\<lambda>p. s_id (fst p)) (list_expired_sandboxes now z)) \<longleftrightarrow> (\<exists>s \<in> set (sbs z). s_id s = i \<and> expires now s z)"
  unfolding expires_def list_expired_sandboxes_def set_map image_iff
  by (simp add: Bex_def split_paired_Ex conj_commute split: if_splits) blast

lemma distinct_expired:
  assumes "distinct (map s_id (sbs z))" and "distinct (map ws_id (w_workspaces (q_world z)))"
  shows "distinct (map (\<lambda>p. s_id (fst p)) (list_expired_sandboxes now z))"
proof -
  let ?g = "\<lambda>s ws. ws_id ws = s_workspace_id s \<and> s_status s = Up \<and> get_active_job (q_jobs z) (s_id s) = None \<and> (too_old now ws s \<or> too_idle now ws s)"
  let ?f = "\<lambda>s. map (\<lambda>ws. (s, if too_old now ws s then ''lifetime'' else ''idle'')) (filter (?g s) (w_workspaces (q_world z)))"
  have e: "list_expired_sandboxes now z = concat (map ?f (sbs z))"
  proof -
    have "concat (map (\<lambda>ws. if ?g s ws then [(s, if too_old now ws s then ''lifetime'' else ''idle'')] else []) t) =
      map (\<lambda>ws. (s, if too_old now ws s then ''lifetime'' else ''idle'')) (filter (?g s) t)" for s t by (induction t) auto
    then show ?thesis by (simp add: list_expired_sandboxes_def)
  qed
  have len: "length (filter (?g s) (w_workspaces (q_world z))) \<le> 1" for s by (rule one_row [OF assms(2)])
  have "distinct (map (\<lambda>p. s_id (fst p)) (concat (map ?f ss))) \<and> set (map (\<lambda>p. s_id (fst p)) (concat (map ?f ss))) \<subseteq> s_id ` set ss"
    if "distinct (map s_id ss)" for ss
    using that
  proof (induction ss)
    case (Cons s ss)
    have "map (\<lambda>p. s_id (fst p)) (?f s) = [] \<or> map (\<lambda>p. s_id (fst p)) (?f s) = [s_id s]"
      using len [of s] by (cases "filter (?g s) (w_workspaces (q_world z))") auto
    then show ?case using Cons by auto
  qed simp
  from this [OF assms(1)] show ?thesis unfolding e by (rule conjunct1)
qed


lemma stranded_after_stops:
  assumes "distinct (map s_id (sbs z))" and "q_world z1 = q_world z" and "q_jobs z1 = q_jobs z @ stops"
    and "\<And>i. i \<in> j_sandbox_id ` set stops \<Longrightarrow> \<exists>s \<in> set (sbs z). s_id s = i \<and> s_status s = Up"
  shows "list_stranded now z1 = list_stranded now z"
proof -
  have "get_active_job (q_jobs z1) (s_id s) = None \<longleftrightarrow> get_active_job (q_jobs z) (s_id s) = None" if "s \<in> set (sbs z)" "s_status s = Provisioning" for s
  proof -
    have "s_id s \<notin> j_sandbox_id ` set stops"
    proof
      assume "s_id s \<in> j_sandbox_id ` set stops"
      then obtain s' where s': "s' \<in> set (sbs z)" "s_id s' = s_id s" "s_status s' = Up" using assms(4) by blast
      from sandboxes.lookup_unique [OF assms(1)] s' that show False by (metis option.inject status.distinct sandboxes.lookup_unique)
    qed
    then have "\<forall>j \<in> set stops. j_sandbox_id j \<noteq> s_id s" by (metis image_eqI)
    then show ?thesis by (auto simp: assms(3) get_active_job_None)
  qed
  then show ?thesis unfolding list_stranded_def assms(2) by (intro filter_cong) (auto simp: list_all_sandboxes_def)
qed


subsection \<open>Properties\<close>



subsection \<open>Witnesses\<close>

text \<open>A pooled sandbox whose container is gone: the create discards it and makes a cold one.\<close>

definition demo_gone :: "unit hosts" where
  "demo_gone = demo_hosts\<lparr>op_is_running := \<lambda>d i h. (Inr False, h)\<rparr>"

definition demo_rounds :: "round list" where
  "demo_rounds = map (\<lambda>n. \<lparr>rd_now = 5, rd_ids = \<lambda>k. ''new'' @ replicate k CHR ''0'' @ replicate n CHR ''1'', rd_cut = False, rd_late = False\<rparr>) [1, 2]"

definition demo_warm :: "unit zoo" where
  "demo_warm = demo_zoo\<lparr>q_world := demo_world\<lparr>w_pool := [demo_pooled]\<rparr>\<rparr>"

definition demo_warm_request :: create_request where
  "demo_warm_request = demo_request\<lparr>cr_cpus := z_cpus DEFAULT_SIZE, cr_memory_mb := z_memory_mb DEFAULT_SIZE, cr_disk_gb := z_disk_gb DEFAULT_SIZE\<rparr>"


definition demo_old :: "unit zoo" where
  "demo_old = demo_zoo\<lparr>q_world := demo_world\<lparr>w_sandboxes := [demo_sandbox\<lparr>s_started_at := Some 0, s_max_lifetime_minutes := Some 5\<rparr>,
     demo_sandbox\<lparr>s_id := ''s2'', s_started_at := Some 0, s_max_lifetime_minutes := Some 50\<rparr>]\<rparr>\<rparr>"


end
