(* ===== verification/Workspaces.thy ===== *)
theory Workspaces
  imports Sweeps Errors
begin

section \<open>Workspaces, members and invitations\<close>

text \<open>
  \<open>apps/server/workspaces_api.py\<close>: who belongs to a workspace and with which role, invitations, and
  the quotas of a workspace and of its labels. Each route is one database session. The digest of an invitation's token is
  the parameter \<open>hash_token\<close>; new ids and tokens are arguments. Requests are the ones FastAPI has
  validated.
\<close>

subsection \<open>Queries\<close>

definition get_workspace :: "workspace tbl \<Rightarrow> string \<Rightarrow> workspace option" where
  "get_workspace t i = find_row (\<lambda>w. ws_id w = i) t"

definition update_workspace :: "time \<Rightarrow> string \<Rightarrow> string \<Rightarrow> string \<Rightarrow> workspace tbl \<Rightarrow> workspace tbl" where
  "update_workspace now name slug i t =
     update_where (\<lambda>w. ws_id w = i) (\<lambda>w. w\<lparr>ws_name := name, ws_slug := slug, ws_updated_at := now\<rparr>) t"

definition set_workspace_lifecycle :: "time \<Rightarrow> int option \<Rightarrow> int option \<Rightarrow> string \<Rightarrow> workspace tbl \<Rightarrow> workspace tbl" where
  "set_workspace_lifecycle now idle_minutes life_minutes i t =
     update_where (\<lambda>w. ws_id w = i) (\<lambda>w. w\<lparr>ws_default_idle_timeout_minutes := idle_minutes,
       ws_default_max_lifetime_minutes := life_minutes, ws_updated_at := now\<rparr>) t"

definition list_workspaces_by_user :: "'h world \<Rightarrow> string \<Rightarrow> (workspace \<times> role) list" where
  "list_workspaces_by_user w user_id =
     sort_key (\<lambda>(ws, r). ws_created_at ws)
       [(ws, mr_role m). ws \<leftarrow> w_workspaces w, m \<leftarrow> w_members w, mr_workspace_id m = ws_id ws \<and> mr_user_id m = user_id \<and> mr_status m = Active]"

definition list_workspace_members :: "'h world \<Rightarrow> string \<Rightarrow> (member_row \<times> user) list" where
  "list_workspace_members w workspace_id =
     sort_key (\<lambda>(m, u). mr_created_at m)
       [(m, u). m \<leftarrow> w_members w, u \<leftarrow> w_users w, us_id u = mr_user_id m \<and> mr_workspace_id m = workspace_id]"

definition count_workspace_owners :: "member_row tbl \<Rightarrow> string \<Rightarrow> nat" where
  "count_workspace_owners t workspace_id =
     length (filter (\<lambda>m. mr_workspace_id m = workspace_id \<and> mr_role m = Owner \<and> mr_status m = Active) t)"

definition remove_workspace_member :: "string \<Rightarrow> string \<Rightarrow> member_row tbl \<Rightarrow> member_row tbl" where
  "remove_workspace_member workspace_id user_id t =
     delete_where (\<lambda>m. mr_workspace_id m = workspace_id \<and> mr_user_id m = user_id) t"

definition update_workspace_member_role :: "role \<Rightarrow> string \<Rightarrow> string \<Rightarrow> member_row tbl \<Rightarrow> member_row tbl" where
  "update_workspace_member_role role workspace_id user_id t =
     update_where (\<lambda>m. mr_workspace_id m = workspace_id \<and> mr_user_id m = user_id) (\<lambda>m. m\<lparr>mr_role := role\<rparr>) t"

definition get_user_by_email :: "user tbl \<Rightarrow> string \<Rightarrow> user option" where
  "get_user_by_email t email = find_row (\<lambda>u. us_email u = email) t"

definition count_running_sandboxes_by_workspace :: "sandbox tbl \<Rightarrow> string \<Rightarrow> nat" where
  "count_running_sandboxes_by_workspace t workspace_id =
     length (filter (\<lambda>s. s_workspace_id s = workspace_id \<and> s_status s \<in> {Pending, Provisioning, Up}) t)"

definition pending :: "time \<Rightarrow> invitation \<Rightarrow> bool" where
  "pending now i \<longleftrightarrow> in_accepted_at i = None \<and> in_revoked_at i = None \<and> in_expires_at i > now"

definition create_workspace_invitation :: "time \<Rightarrow> string \<Rightarrow> string \<Rightarrow> string \<Rightarrow> role \<Rightarrow> string \<Rightarrow> string \<Rightarrow> time \<Rightarrow>
    invitation tbl \<Rightarrow> invitation \<times> invitation tbl" where
  "create_workspace_invitation now i workspace_id email role invited_by token_hash expires_at t =
     (let r = \<lparr>in_id = i, in_workspace_id = workspace_id, in_email = email, in_role = role, in_invited_by = invited_by,
               in_token_hash = token_hash, in_expires_at = expires_at, in_accepted_at = None, in_revoked_at = None, in_created_at = now\<rparr>
      in (r, t @ [r]))"

definition get_workspace_invitation_by_token :: "time \<Rightarrow> invitation tbl \<Rightarrow> string \<Rightarrow> invitation option" where
  "get_workspace_invitation_by_token now t h = find_row (\<lambda>i. in_token_hash i = h \<and> pending now i) t"

definition accept_workspace_invitation :: "time \<Rightarrow> string \<Rightarrow> invitation tbl \<Rightarrow> invitation option \<times> invitation tbl" where
  "accept_workspace_invitation now i t =
     (let t' = update_where (\<lambda>r. in_id r = i \<and> pending now r) (\<lambda>r. r\<lparr>in_accepted_at := Some now\<rparr>) t
      in (if find_row (\<lambda>r. in_id r = i \<and> pending now r) t = None then None else find_row (\<lambda>r. in_id r = i) t', t'))"

definition revoke_workspace_invitation :: "time \<Rightarrow> string \<Rightarrow> string \<Rightarrow> invitation tbl \<Rightarrow> invitation option \<times> invitation tbl" where
  "revoke_workspace_invitation now i workspace_id t =
     (let p = (\<lambda>r. in_id r = i \<and> in_workspace_id r = workspace_id \<and> in_accepted_at r = None \<and> in_revoked_at r = None);
          t' = update_where p (\<lambda>r. r\<lparr>in_revoked_at := Some now\<rparr>) t
      in (if find_row p t = None then None else find_row (\<lambda>r. in_id r = i) t', t'))"

definition list_workspace_invitations :: "time \<Rightarrow> invitation tbl \<Rightarrow> string \<Rightarrow> invitation list" where
  "list_workspace_invitations now t workspace_id =
     sort_key (\<lambda>i. - in_created_at i) (filter (\<lambda>i. in_workspace_id i = workspace_id \<and> pending now i) t)"

definition set_workspace_quota :: "string \<Rightarrow> limits \<Rightarrow> (string \<times> limits) tbl \<Rightarrow> (string \<times> limits) tbl" where
  "set_workspace_quota workspace_id l t =
     (if find_row (\<lambda>q. fst q = workspace_id) t = None then t @ [(workspace_id, l)]
      else update_where (\<lambda>q. fst q = workspace_id) (\<lambda>q. (fst q, l)) t)"

definition same_label :: "string \<Rightarrow> string \<Rightarrow> string \<Rightarrow> label_quota \<Rightarrow> bool" where
  "same_label workspace_id key value q \<longleftrightarrow> lq_workspace_id q = workspace_id \<and> lq_key q = key \<and> lq_value q = value"

definition upsert_label_quota :: "time \<Rightarrow> string \<Rightarrow> string \<Rightarrow> string \<Rightarrow> limits \<Rightarrow> label_quota tbl \<Rightarrow> label_quota \<times> label_quota tbl" where
  "upsert_label_quota now workspace_id key value l t =
     (let r = \<lparr>lq_workspace_id = workspace_id, lq_key = key, lq_value = value, lq_limits = l, lq_updated_at = now\<rparr>
      in (r, if find_row (same_label workspace_id key value) t = None then t @ [r]
             else update_where (same_label workspace_id key value) (\<lambda>_. r) t))"

definition delete_label_quota :: "string \<Rightarrow> string \<Rightarrow> string \<Rightarrow> label_quota tbl \<Rightarrow> label_quota tbl" where
  "delete_label_quota workspace_id key value t = delete_where (same_label workspace_id key value) t"

definition list_label_quotas :: "label_quota tbl \<Rightarrow> string \<Rightarrow> label_quota list" where
  "list_label_quotas t workspace_id =
     sort_key (\<lambda>q. (lq_key q, lq_value q)) (filter (\<lambda>q. lq_workspace_id q = workspace_id) t)"

text \<open>\<open>DELETE FROM workspaces\<close>, with the rows of the modelled tables that the foreign keys of the schema delete with it.\<close>

definition delete_workspace :: "string \<Rightarrow> 'h zoo \<Rightarrow> 'h zoo" where
  "delete_workspace i z =
     (let z1 = fold delete_sandbox (map s_id (filter (\<lambda>s. s_workspace_id s = i) (sbs z))) z; w = q_world z1;
          servers = map sv_id (filter (\<lambda>s. sv_workspace_id s = i) (w_servers w));
          profiles = map pf_id (filter (\<lambda>p. pf_workspace_id p = i) (w_profiles w));
          secrets = map vs_id (filter (\<lambda>v. vs_workspace_id v = i) (w_secrets w));
          imgs = map im_id (filter (\<lambda>m. im_workspace_id m = i) (w_images w));
          apps = map ap_id (filter (\<lambda>a. ap_workspace_id a = Some i) (w_apps w));
          on_server = (\<lambda>srv. case srv of None \<Rightarrow> False | Some s \<Rightarrow> s \<in> set servers)
      in z1\<lparr>q_world := w\<lparr>
           w_workspaces := delete_where (\<lambda>r. ws_id r = i) (w_workspaces w),
           w_members := delete_where (\<lambda>r. mr_workspace_id r = i) (w_members w),
           w_invitations := delete_where (\<lambda>r. in_workspace_id r = i) (w_invitations w),
           w_keys := delete_where (\<lambda>r. ak_workspace_id r = i) (w_keys w),
           w_quotas := delete_where (\<lambda>r. fst r = i) (w_quotas w),
           w_label_quotas := delete_where (\<lambda>r. lq_workspace_id r = i) (w_label_quotas w),
           w_servers := delete_where (\<lambda>r. sv_workspace_id r = i) (w_servers w),
           w_pool := delete_where (\<lambda>r. on_server (p_server_id r)) (w_pool w),
           w_pool_settings := delete_where (\<lambda>r. on_server (po_server_id r)) (w_pool_settings w),
           w_snapshots := update_where (\<lambda>r. on_server (n_server_id r)) (\<lambda>r. r\<lparr>n_server_id := None\<rparr>) (w_snapshots w),
           w_profiles := delete_where (\<lambda>r. pf_workspace_id r = i) (w_profiles w),
           w_profile_versions := delete_where (\<lambda>r. pv_profile_id r \<in> set profiles) (w_profile_versions w),
           w_secrets := delete_where (\<lambda>r. vs_workspace_id r = i) (w_secrets w),
           w_grants := delete_where (\<lambda>r. vg_secret_id r \<in> set secrets) (w_grants w),
           w_images := delete_where (\<lambda>r. im_workspace_id r = i) (w_images w),
           w_versions := delete_where (\<lambda>r. iv_image_id r \<in> set imgs) (w_versions w),
           w_apps := delete_where (\<lambda>r. ap_workspace_id r = Some i) (w_apps w),
           w_app_permissions := delete_where (\<lambda>r. pm_app_id r \<in> set apps) (w_app_permissions w),
           w_links := delete_where (\<lambda>r. vl_workspace_id r = i) (w_links w),
           w_audit := delete_where (\<lambda>r. au_workspace_id r = i) (w_audit w)\<rparr>\<rparr>)"

subsection \<open>Responses\<close>

definition INVITATION_TTL :: time where "INVITATION_TTL = seconds (7 * 24 * 3600)"

definition personal :: "string \<Rightarrow> bool" where
  "personal slug = starts_with slug [''personal-'']"

record workspace_view =
  wv_id :: string
  wv_name :: string
  wv_slug :: string
  wv_role :: role
  wv_personal :: bool
  wv_created_at :: time
  wv_default_idle_timeout_minutes :: "int option"
  wv_default_max_lifetime_minutes :: "int option"

definition workspace_response :: "workspace \<Rightarrow> role \<Rightarrow> workspace_view" where
  "workspace_response ws role =
     \<lparr>wv_id = ws_id ws, wv_name = ws_name ws, wv_slug = ws_slug ws, wv_role = role, wv_personal = starts_with (ws_slug ws) [''personal-''],
      wv_created_at = ws_created_at ws, wv_default_idle_timeout_minutes = ws_default_idle_timeout_minutes ws,
      wv_default_max_lifetime_minutes = ws_default_max_lifetime_minutes ws\<rparr>"

record member_view =
  mv_user_id :: string
  mv_email :: string
  mv_name :: "string option"
  mv_role :: role
  mv_status :: member_status
  mv_joined_at :: "time option"

definition members_of :: "string \<Rightarrow> 'h zoo \<Rightarrow> member_view list" where
  "members_of workspace_id z =
     map (\<lambda>(m, u). \<lparr>mv_user_id = mr_user_id m, mv_email = us_email u, mv_name = us_name u, mv_role = mr_role m,
        mv_status = mr_status m, mv_joined_at = mr_joined_at m\<rparr>) (list_workspace_members (q_world z) workspace_id)"

record invitation_view =
  iw_id :: string
  iw_email :: string
  iw_role :: role
  iw_expires_at :: time
  iw_created_at :: time

definition invitation_response :: "invitation \<Rightarrow> invitation_view" where
  "invitation_response r = \<lparr>iw_id = in_id r, iw_email = in_email r, iw_role = in_role r, iw_expires_at = in_expires_at r, iw_created_at = in_created_at r\<rparr>"

text \<open>What is used, with the limits; \<open>round(x, 2)\<close> on exact numbers.\<close>

definition round2 :: "rat \<Rightarrow> rat" where
  "round2 x = of_int (round_rat (x * 100)) / 100"

record quota_view =
  qv_limits :: limits
  qv_running_sandboxes :: int
  qv_cpus :: rat
  qv_memory_mb :: int
  qv_storage_gb :: rat

definition quota_response :: "'h hosts \<Rightarrow> 'h world \<Rightarrow> string \<Rightarrow> quota_view" where
  "quota_response H w workspace_id =
     (let used = workspace_usage (rt_UNSIZED_DISK_GB H) w workspace_id
      in \<lparr>qv_limits = (case get_workspace_quota w workspace_id of None \<Rightarrow> no_limits | Some l \<Rightarrow> l), qv_running_sandboxes = u_running used,
          qv_cpus = u_cpus used, qv_memory_mb = u_memory_mb used, qv_storage_gb = round2 (storage_gb used)\<rparr>)"

definition label_quota_response :: "'h hosts \<Rightarrow> 'h world \<Rightarrow> string \<Rightarrow> label_quota \<Rightarrow> label_quota \<times> quota_view option" where
  "label_quota_response H w workspace_id row =
     (row, if lq_value row = ''*'' then None
           else let used = label_usage (rt_UNSIZED_DISK_GB H) w (lq_key row) (lq_value row) workspace_id
                in Some \<lparr>qv_limits = lq_limits row, qv_running_sandboxes = u_running used, qv_cpus = u_cpus used,
                     qv_memory_mb = u_memory_mb used, qv_storage_gb = round2 (of_int (u_disk_gb used) + of_int (u_snapshot_bytes used) / GB)\<rparr>)"

subsection \<open>Checks\<close>

definition role_in :: "string \<Rightarrow> member \<Rightarrow> role \<Rightarrow> 'h zoo \<Rightarrow> role res" where
  "role_in workspace_id u minimum z =
     (if mb_key_id u \<noteq> None then Inl (HTTPException 403 (''API keys can'' @ [char_of (39 :: nat)] @ ''t manage workspaces''))
      else case get_workspace_member (w_members (q_world z)) workspace_id (mb_id u) of
          None \<Rightarrow> Inl (HTTPException 404 ''workspace not found'')
        | Some m \<Rightarrow>
            if mr_status m \<noteq> Active then Inl (HTTPException 404 ''workspace not found'')
            else if index_in (mr_role m) ROLES < index_in minimum ROLES
            then Inl (HTTPException 403 (''this needs the '' @ role_text minimum @ '' role in the workspace''))
            else Inr (mr_role m))"

definition keep_an_owner :: "string \<Rightarrow> string \<Rightarrow> 'h zoo \<Rightarrow> unit res" where
  "keep_an_owner workspace_id user_id z =
     (case get_workspace_member (w_members (q_world z)) workspace_id user_id of
        None \<Rightarrow> Inr ()
      | Some target \<Rightarrow>
          guardr (\<not> (mr_role target = Owner \<and> count_workspace_owners (w_members (q_world z)) workspace_id \<le> 1))
            (HTTPException 409 ''a workspace needs at least one owner''))"

definition found_workspace :: "string \<Rightarrow> 'h zoo \<Rightarrow> workspace res" where
  "found_workspace workspace_id z = (case get_workspace (w_workspaces (q_world z)) workspace_id of None \<Rightarrow> Inl AssertionError | Some ws \<Rightarrow> Inr ws)"

subsection \<open>Routes\<close>

type_synonym ('a, 'h) route = "'h zoo \<Rightarrow> ('a \<times> 'h zoo) res"

abbreviation on_workspaces :: "(workspace tbl \<Rightarrow> workspace tbl) \<Rightarrow> 'h zoo \<Rightarrow> 'h zoo" where
  "on_workspaces f \<equiv> on_world (\<lambda>w. w\<lparr>w_workspaces := f (w_workspaces w)\<rparr>)"

abbreviation on_members :: "(member_row tbl \<Rightarrow> member_row tbl) \<Rightarrow> 'h zoo \<Rightarrow> 'h zoo" where
  "on_members f \<equiv> on_world (\<lambda>w. w\<lparr>w_members := f (w_members w)\<rparr>)"

definition list_workspaces :: "member \<Rightarrow> 'h zoo \<Rightarrow> workspace_view list" where
  "list_workspaces u z = map (\<lambda>(ws, r). workspace_response ws r) (list_workspaces_by_user (q_world z) (mb_id u))"

definition slug_char :: "char \<Rightarrow> bool" where
  "slug_char c \<longleftrightarrow> (let n = (of_char c :: nat) in (97 \<le> n \<and> n \<le> 122) \<or> (48 \<le> n \<and> n \<le> 57))"

text \<open>\<open>re.sub(r"[^a-z0-9]+", "-", s)\<close>; the flag says that the run of other characters has its dash.\<close>

fun dashed :: "bool \<Rightarrow> string \<Rightarrow> string" where
  "dashed b [] = []"
| "dashed b (c # cs) = (if slug_char c then c # dashed False cs else if b then dashed True cs else CHR ''-'' # dashed True cs)"

definition strip_dashes :: "string \<Rightarrow> string" where
  "strip_dashes s = rev (dropWhile (\<lambda>c. c = CHR ''-'') (rev (dropWhile (\<lambda>c. c = CHR ''-'') s)))"

definition slug_base :: "string \<Rightarrow> string" where
  "slug_base name = (let b = take 40 (strip_dashes (dashed False (lower name))) in if b = [] then ''workspace'' else b)"

definition create_workspace_route :: "time \<Rightarrow> limits \<Rightarrow> string \<Rightarrow> string \<Rightarrow> string \<Rightarrow> member \<Rightarrow> (workspace_view, 'h) route" where
  "create_workspace_route now defaults uid token name0 u z =
     (if mb_key_id u \<noteq> None then Inl (HTTPException 403 (''API keys can'' @ [char_of (39 :: nat)] @ ''t manage workspaces''))
      else let name = strip name0;
               (ws, t) = create_workspace now uid name (slug_base name @ ''-'' @ token) (mb_id u) (w_workspaces (q_world z));
               (m, ms) = add_workspace_member now (ws_id ws) (mb_id u) Owner (w_members (q_world z))
           in Inr (workspace_response ws Owner,
                z\<lparr>q_world := ensure_workspace_quota (ws_id ws) defaults ((q_world z)\<lparr>w_workspaces := t, w_members := ms\<rparr>)\<rparr>))"

definition rename_workspace :: "time \<Rightarrow> string \<Rightarrow> string \<Rightarrow> member \<Rightarrow> (workspace_view, 'h) route" where
  "rename_workspace now workspace_id name u z =
     bindr (role_in workspace_id u Admin z) (\<lambda>role.
     bindr (found_workspace workspace_id z) (\<lambda>ws.
     let z1 = on_workspaces (update_workspace now (strip name) (ws_slug ws) workspace_id) z
     in bindr (found_workspace workspace_id z1) (\<lambda>ws1. Inr (workspace_response ws1 role, z1))))"

definition set_lifecycle_defaults :: "time \<Rightarrow> string \<Rightarrow> int option \<Rightarrow> int option \<Rightarrow> member \<Rightarrow> (workspace_view, 'h) route" where
  "set_lifecycle_defaults now workspace_id idle_minutes life_minutes u z =
     bindr (role_in workspace_id u Admin z) (\<lambda>role.
     let z1 = on_workspaces (set_workspace_lifecycle now idle_minutes life_minutes workspace_id) z
     in bindr (found_workspace workspace_id z1) (\<lambda>ws. Inr (workspace_response ws role, z1)))"

definition delete_workspace_route :: "string \<Rightarrow> member \<Rightarrow> (unit, 'h) route" where
  "delete_workspace_route workspace_id u z =
     bindr (role_in workspace_id u Owner z) (\<lambda>_.
     bindr (found_workspace workspace_id z) (\<lambda>ws.
     if personal (ws_slug ws) then Inl (HTTPException 409 (''a personal workspace can'' @ [char_of (39 :: nat)] @ ''t be deleted''))
     else if count_running_sandboxes_by_workspace (sbs z) workspace_id \<noteq> 0
     then Inl (HTTPException 409 (''stop the workspace'' @ [char_of (39 :: nat)] @ ''s sandboxes first''))
     else Inr ((), delete_workspace workspace_id z)))"

definition list_members :: "string \<Rightarrow> member \<Rightarrow> 'h zoo \<Rightarrow> member_view list res" where
  "list_members workspace_id u z = bindr (role_in workspace_id u Viewer z) (\<lambda>_. Inr (members_of workspace_id z))"

definition change_role :: "string \<Rightarrow> string \<Rightarrow> role \<Rightarrow> member \<Rightarrow> (member_view list, 'h) route" where
  "change_role workspace_id user_id role u z =
     bindr (role_in workspace_id u Admin z) (\<lambda>mine.
     case get_workspace_member (w_members (q_world z)) workspace_id user_id of
       None \<Rightarrow> Inl (HTTPException 404 ''member not found'')
     | Some target \<Rightarrow>
         if mine \<noteq> Owner \<and> (mr_role target \<in> {Owner, Admin} \<or> role \<in> {Owner, Admin})
         then Inl (HTTPException 403 ''only owners change admins and owners'')
         else bindr (if role \<noteq> Owner then keep_an_owner workspace_id user_id z else Inr ()) (\<lambda>_.
              let z1 = on_members (update_workspace_member_role role workspace_id user_id) z
              in Inr (members_of workspace_id z1, z1)))"

definition remove_member :: "string \<Rightarrow> string \<Rightarrow> member \<Rightarrow> (unit, 'h) route" where
  "remove_member workspace_id user_id u z =
     bindr (role_in workspace_id u (if user_id = mb_id u then Viewer else Admin) z) (\<lambda>mine.
     case get_workspace_member (w_members (q_world z)) workspace_id user_id of
       None \<Rightarrow> Inl (HTTPException 404 ''member not found'')
     | Some target \<Rightarrow>
         if user_id \<noteq> mb_id u \<and> mine \<noteq> Owner \<and> mr_role target \<in> {Owner, Admin}
         then Inl (HTTPException 403 ''only owners remove admins and owners'')
         else if (case get_workspace (w_workspaces (q_world z)) workspace_id of None \<Rightarrow> False | Some ws \<Rightarrow> personal (ws_slug ws)) \<and> mr_role target = Owner
         then Inl (HTTPException 409 ''nobody leaves their personal workspace'')
         else bindr (keep_an_owner workspace_id user_id z) (\<lambda>_. Inr ((), on_members (remove_workspace_member workspace_id user_id) z)))"

definition get_quota :: "'h hosts \<Rightarrow> string \<Rightarrow> member \<Rightarrow> 'h zoo \<Rightarrow> quota_view res" where
  "get_quota H workspace_id u z = bindr (role_in workspace_id u Viewer z) (\<lambda>_. Inr (quota_response H (q_world z) workspace_id))"

text \<open>\<open>ADMINS\<close>, the addresses of the install's administrators, is an argument.\<close>

definition set_quota :: "'h hosts \<Rightarrow> string set \<Rightarrow> string \<Rightarrow> limits \<Rightarrow> member \<Rightarrow> (quota_view, 'h) route" where
  "set_quota H admins workspace_id l u z =
     (if mb_key_id u \<noteq> None \<or> lower (mb_email u) \<notin> admins then Inl (HTTPException 403 (''only Zoo'' @ [char_of (39 :: nat)] @ ''s admins (ADMIN_EMAILS) set quotas''))
      else if get_workspace (w_workspaces (q_world z)) workspace_id = None then Inl (HTTPException 404 ''workspace not found'')
      else let z1 = on_world (\<lambda>w. w\<lparr>w_quotas := set_workspace_quota workspace_id l (w_quotas w)\<rparr>) z
           in Inr (quota_response H (q_world z1) workspace_id, z1))"

definition list_label_quotas_route :: "'h hosts \<Rightarrow> string \<Rightarrow> member \<Rightarrow> 'h zoo \<Rightarrow> (label_quota \<times> quota_view option) list res" where
  "list_label_quotas_route H workspace_id u z =
     bindr (role_in workspace_id u Viewer z) (\<lambda>_.
       Inr (map (label_quota_response H (q_world z) workspace_id) (list_label_quotas (w_label_quotas (q_world z)) workspace_id)))"

definition set_label_quota :: "'h hosts \<Rightarrow> time \<Rightarrow> string \<Rightarrow> string \<Rightarrow> string \<Rightarrow> limits \<Rightarrow> member \<Rightarrow> (label_quota \<times> quota_view option, 'h) route" where
  "set_label_quota H now workspace_id key value l u z =
     bindr (role_in workspace_id u Admin z) (\<lambda>_.
     let (row, t) = upsert_label_quota now workspace_id key value l (w_label_quotas (q_world z));
         z1 = on_world (\<lambda>w. w\<lparr>w_label_quotas := t\<rparr>) z
     in Inr (label_quota_response H (q_world z1) workspace_id row, z1))"

definition remove_label_quota :: "string \<Rightarrow> string \<Rightarrow> string \<Rightarrow> member \<Rightarrow> (unit, 'h) route" where
  "remove_label_quota workspace_id key value u z =
     bindr (role_in workspace_id u Admin z) (\<lambda>_.
       Inr ((), on_world (\<lambda>w. w\<lparr>w_label_quotas := delete_label_quota workspace_id key value (w_label_quotas w)\<rparr>) z))"

definition list_invitations :: "time \<Rightarrow> string \<Rightarrow> member \<Rightarrow> 'h zoo \<Rightarrow> invitation_view list res" where
  "list_invitations now workspace_id u z =
     bindr (role_in workspace_id u Admin z) (\<lambda>_. Inr (map invitation_response (list_workspace_invitations now (w_invitations (q_world z)) workspace_id)))"

definition invite :: "(string \<Rightarrow> string) \<Rightarrow> time \<Rightarrow> string \<Rightarrow> string \<Rightarrow> string \<Rightarrow> string \<Rightarrow> role \<Rightarrow> member \<Rightarrow> (string \<times> invitation_view, 'h) route" where
  "invite hash_token now uid token workspace_id email role u z =
     bindr (role_in workspace_id u Admin z) (\<lambda>mine.
     if role = Admin \<and> mine \<noteq> Owner then Inl (HTTPException 403 ''only owners invite admins'')
     else if (case get_user_by_email (w_users (q_world z)) (lower email) of
                None \<Rightarrow> False
              | Some invitee \<Rightarrow> (case get_workspace_member (w_members (q_world z)) workspace_id (us_id invitee) of
                    None \<Rightarrow> False | Some existing \<Rightarrow> mr_status existing = Active))
     then Inl (HTTPException 409 (email @ '' is already a member''))
     else let (row, t) = create_workspace_invitation now uid workspace_id (lower email) role (mb_id u) (hash_token token)
                (now + INVITATION_TTL) (w_invitations (q_world z))
          in Inr ((token, invitation_response row), on_world (\<lambda>w. w\<lparr>w_invitations := t\<rparr>) z))"

definition revoke_invitation :: "time \<Rightarrow> string \<Rightarrow> string \<Rightarrow> member \<Rightarrow> (unit, 'h) route" where
  "revoke_invitation now workspace_id invitation_id u z =
     bindr (role_in workspace_id u Admin z) (\<lambda>_.
     let (row, t) = revoke_workspace_invitation now invitation_id workspace_id (w_invitations (q_world z))
     in if row = None then Inl (HTTPException 404 ''invitation not found'')
        else Inr ((), on_world (\<lambda>w. w\<lparr>w_invitations := t\<rparr>) z))"

definition accept_rows :: "time \<Rightarrow> invitation \<Rightarrow> member \<Rightarrow> (unit, 'h) route" where
  "accept_rows now offer u z =
     (let existing = get_workspace_member (w_members (q_world z)) (in_workspace_id offer) (mb_id u)
      in if (case existing of None \<Rightarrow> False | Some m \<Rightarrow> mr_status m = Active)
         then Inl (HTTPException 409 (''you'' @ [char_of (39 :: nat)] @ ''re already a member''))
         else let (row, t) = accept_workspace_invitation now (in_id offer) (w_invitations (q_world z))
              in if row = None then Inl (HTTPException 404 ''this invitation is invalid, used or expired'')
                 else let ms = (if existing \<noteq> None then remove_workspace_member (in_workspace_id offer) (mb_id u) (w_members (q_world z)) else w_members (q_world z))
                      in Inr ((), on_world (\<lambda>w. w\<lparr>w_invitations := t,
                           w_members := snd (add_workspace_member now (in_workspace_id offer) (mb_id u) (in_role offer) ms)\<rparr>) z))"

definition accept :: "(string \<Rightarrow> string) \<Rightarrow> time \<Rightarrow> string \<Rightarrow> member \<Rightarrow> (workspace_view, 'h) route" where
  "accept hash_token now token u z =
     (if mb_key_id u \<noteq> None then Inl (HTTPException 403 (''API keys can'' @ [char_of (39 :: nat)] @ ''t accept invitations''))
      else case get_workspace_invitation_by_token now (w_invitations (q_world z)) (hash_token token) of
          None \<Rightarrow> Inl (HTTPException 404 ''this invitation is invalid, used or expired'')
        | Some offer \<Rightarrow>
            if lower (in_email offer) \<noteq> lower (mb_email u) then Inl (HTTPException 403 (''this invitation is for '' @ in_email offer))
            else bindr (accept_rows now offer u z) (\<lambda>(_, z1).
                 bindr (found_workspace (in_workspace_id offer) z1) (\<lambda>ws. Inr (workspace_response ws (in_role offer), z1))))"


subsection \<open>What the routes may change\<close>

text \<open>
  A request to these routes that succeeds, or a user's first request, which makes their personal workspace. Ids of new
  workspaces are not in use, and an invitation is not for an owner (\<open>InvitationRequest.role\<close>).
\<close>

inductive ws_step :: "'h zoo \<Rightarrow> 'h zoo \<Rightarrow> bool" where
  made: "create_workspace_route now defaults uid token name u z = Inr (v, z') \<Longrightarrow> uid \<notin> ws_id ` set (w_workspaces (q_world z)) \<Longrightarrow> ws_step z z'"
| own: "personal_workspace now defaults uid us (q_world z) = (i, w) \<Longrightarrow> uid \<notin> ws_id ` set (w_workspaces (q_world z)) \<Longrightarrow> ws_step z (z\<lparr>q_world := w\<rparr>)"
| renamed: "rename_workspace now i name u z = Inr (v, z') \<Longrightarrow> ws_step z z'"
| lifecycle: "set_lifecycle_defaults now i idle_minutes life_minutes u z = Inr (v, z') \<Longrightarrow> ws_step z z'"
| deleted: "delete_workspace_route i u z = Inr (x, z') \<Longrightarrow> ws_step z z'"
| role: "change_role i user_id r u z = Inr (ms, z') \<Longrightarrow> ws_step z z'"
| removed: "remove_member i user_id u z = Inr (x, z') \<Longrightarrow> ws_step z z'"
| quota: "set_quota H admins i l u z = Inr (q, z') \<Longrightarrow> ws_step z z'"
| label_quota: "set_label_quota H now i key val l u z = Inr (lq, z') \<Longrightarrow> ws_step z z'"
| no_label_quota: "remove_label_quota i key val u z = Inr (x, z') \<Longrightarrow> ws_step z z'"
| invited: "invite hash_token now uid token i email r u z = Inr (tv, z') \<Longrightarrow> r \<noteq> Owner \<Longrightarrow> ws_step z z'"
| revoked: "revoke_invitation now i invitation_id u z = Inr (x, z') \<Longrightarrow> ws_step z z'"
| accepted: "accept hash_token now token u z = Inr (v, z') \<Longrightarrow> ws_step z z'"

definition member_key :: "member_row \<Rightarrow> string \<times> string" where
  "member_key m = (mr_workspace_id m, mr_user_id m)"

text \<open>The rows refer to workspaces that exist, a user is in a workspace once, and nobody is invited as an owner.\<close>

definition workspaces_wf :: "'h zoo \<Rightarrow> bool" where
  "workspaces_wf z \<longleftrightarrow> (let w = q_world z; ids = ws_id ` set (w_workspaces w)
     in distinct (map ws_id (w_workspaces w)) \<and> distinct (map member_key (w_members w)) \<and> mr_workspace_id ` set (w_members w) \<subseteq> ids \<and>
        in_workspace_id ` set (w_invitations w) \<subseteq> ids \<and> (\<forall>i \<in> set (w_invitations w). in_role i \<noteq> Owner) \<and>
        lq_workspace_id ` set (w_label_quotas w) \<subseteq> ids \<and> fst ` set (w_quotas w) \<subseteq> ids \<and> distinct (map fst (w_quotas w)))"

definition has_owners :: "'h zoo \<Rightarrow> bool" where
  "has_owners z \<longleftrightarrow> (\<forall>ws \<in> set (w_workspaces (q_world z)). 0 < count_workspace_owners (w_members (q_world z)) (ws_id ws))"

subsection \<open>Lemmas\<close>

lemma role_in_Inr:
  "role_in i u minimum z = Inr r \<Longrightarrow> mb_key_id u = None \<and> (\<exists>m. get_workspace_member (w_members (q_world z)) i (mb_id u) = Some m \<and>
     mr_status m = Active \<and> r = mr_role m \<and> index_in minimum ROLES \<le> index_in r ROLES)"
  by (auto simp: role_in_def split: if_splits option.splits)

lemma change_roleD:
  assumes "change_role i user_id r u z = Inr (ms, z')"
  shows "z' = on_members (update_workspace_member_role r i user_id) z" and "r \<noteq> Owner \<Longrightarrow> keep_an_owner i user_id z = Inr ()"
    and "\<exists>mine target. role_in i u Admin z = Inr mine \<and> get_workspace_member (w_members (q_world z)) i user_id = Some target \<and>
      (mine = Owner \<or> mr_role target \<notin> {Owner, Admin} \<and> r \<notin> {Owner, Admin})"
  using assms by (auto simp: change_role_def Let_def split: option.splits if_splits)

lemma remove_memberD:
  assumes "remove_member i user_id u z = Inr (x, z')"
  shows "z' = on_members (remove_workspace_member i user_id) z" and "keep_an_owner i user_id z = Inr ()"
    and "\<exists>mine target. role_in i u (if user_id = mb_id u then Viewer else Admin) z = Inr mine \<and>
      get_workspace_member (w_members (q_world z)) i user_id = Some target \<and> (user_id = mb_id u \<or> mine = Owner \<or> mr_role target \<notin> {Owner, Admin})"
  using assms by (auto simp: remove_member_def split: option.splits if_splits)

lemma acceptD:
  assumes "accept hash_token now token u z = Inr (v, z')"
  obtains offer t where "offer \<in> set (w_invitations (q_world z))" and "in_token_hash offer = hash_token token" "pending now offer"
    and "lower (in_email offer) = lower (mb_email u)" and "mb_key_id u = None"
    and "t = snd (accept_workspace_invitation now (in_id offer) (w_invitations (q_world z)))"
    and "\<And>m. get_workspace_member (w_members (q_world z)) (in_workspace_id offer) (mb_id u) = Some m \<Longrightarrow> mr_status m \<noteq> Active"
    and "z' = on_world (\<lambda>w. w\<lparr>w_invitations := t, w_members := snd (add_workspace_member now (in_workspace_id offer) (mb_id u) (in_role offer)
           (remove_workspace_member (in_workspace_id offer) (mb_id u) (w_members w)))\<rparr>) z"
proof -
  obtain offer where o: "get_workspace_invitation_by_token now (w_invitations (q_world z)) (hash_token token) = Some offer"
    and k: "mb_key_id u = None" "lower (in_email offer) = lower (mb_email u)" and a: "accept_rows now offer u z = Inr ((), z')"
    using assms by (auto simp: accept_def split: if_splits option.splits)
  let ?g = "get_workspace_member (w_members (q_world z)) (in_workspace_id offer) (mb_id u)"
  have mem: "offer \<in> set (w_invitations (q_world z))" "in_token_hash offer = hash_token token" "pending now offer"
    using find_row_SomeD [OF o [unfolded get_workspace_invitation_by_token_def]] by auto
  have "remove_workspace_member (in_workspace_id offer) (mb_id u) (w_members (q_world z)) = w_members (q_world z)" if "?g = None"
    unfolding remove_workspace_member_def delete_where_def
    using find_row_NoneD [OF that [unfolded get_workspace_member_def]] by (intro filter_True) blast
  then show thesis
    using that [OF mem k(2,1) refl] a by (auto simp: accept_rows_def Let_def split: prod.splits if_splits option.splits)
qed

lemma count_others:
  "count_workspace_owners t i = length (filter (\<lambda>m. member_key m = (i, user_id) \<and> mr_role m = Owner \<and> mr_status m = Active) t) +
     length (filter (\<lambda>m. member_key m \<noteq> (i, user_id) \<and> mr_workspace_id m = i \<and> mr_role m = Owner \<and> mr_status m = Active) t)"
  unfolding count_workspace_owners_def by (induction t) (auto simp: member_key_def)

lemma get_memberD: "get_workspace_member t i user_id = Some m \<Longrightarrow> m \<in> set t \<and> mr_workspace_id m = i \<and> mr_user_id m = user_id"
  unfolding get_workspace_member_def by (drule find_row_SomeD) simp

lemma get_member_unique:
  assumes "distinct (map member_key t)" and "m \<in> set t"
  shows "get_workspace_member t (mr_workspace_id m) (mr_user_id m) = Some m"
  using assms by (induction t) (auto simp: get_workspace_member_def member_key_def)

text \<open>When \<open>keep_an_owner\<close> lets a member go, the workspace has an owner besides them.\<close>

lemma keep_an_owner_others:
  assumes "keep_an_owner i user_id z = Inr ()" and d: "distinct (map member_key (w_members (q_world z)))"
    and c: "0 < count_workspace_owners (w_members (q_world z)) i"
  shows "\<exists>m \<in> set (w_members (q_world z)). member_key m \<noteq> (i, user_id) \<and> mr_workspace_id m = i \<and> mr_role m = Owner \<and> mr_status m = Active"
proof -
  let ?t = "w_members (q_world z)"
  let ?p = "\<lambda>m. mr_role m = Owner \<and> mr_status m = Active"
  have one: "length (filter (\<lambda>m. member_key m = (i, user_id) \<and> ?p m) ?t) \<le> 1" by (rule one_row [OF d])
  have "filter (\<lambda>m. member_key m = (i, user_id) \<and> ?p m) ?t = []" if "count_workspace_owners ?t i \<le> 1"
  proof (rule ccontr)
    assume "filter (\<lambda>m. member_key m = (i, user_id) \<and> ?p m) ?t \<noteq> []"
    then obtain m where m: "m \<in> set ?t" "member_key m = (i, user_id)" "?p m" by (auto simp: filter_empty_conv)
    then have "get_workspace_member ?t i user_id = Some m" using get_member_unique [OF d m(1)] by (simp add: member_key_def)
    then show False using assms(1) that m by (simp add: keep_an_owner_def guardr_def)
  qed
  then have "0 < length (filter (\<lambda>m. member_key m \<noteq> (i, user_id) \<and> mr_workspace_id m = i \<and> ?p m) ?t)"
    using one c count_others [of ?t i user_id] by (cases "count_workspace_owners ?t i \<le> 1") auto
  then show ?thesis by (auto simp: filter_empty_conv)
qed

lemma count_positive:
  "0 < count_workspace_owners t i \<longleftrightarrow> (\<exists>m \<in> set t. mr_workspace_id m = i \<and> mr_role m = Owner \<and> mr_status m = Active)"
  by (auto simp: count_workspace_owners_def filter_empty_conv)


lemma delete_sandbox_tables [simp]:
  "w_workspaces (q_world (delete_sandbox k z)) = w_workspaces (q_world z)" "w_members (q_world (delete_sandbox k z)) = w_members (q_world z)"
  "w_invitations (q_world (delete_sandbox k z)) = w_invitations (q_world z)" "w_quotas (q_world (delete_sandbox k z)) = w_quotas (q_world z)"
  "w_label_quotas (q_world (delete_sandbox k z)) = w_label_quotas (q_world z)"
  by (simp_all add: delete_sandbox_def Let_def)

lemma delete_sandboxes_tables [simp]:
  "w_workspaces (q_world (fold delete_sandbox ks z)) = w_workspaces (q_world z)" "w_members (q_world (fold delete_sandbox ks z)) = w_members (q_world z)"
  "w_invitations (q_world (fold delete_sandbox ks z)) = w_invitations (q_world z)" "w_quotas (q_world (fold delete_sandbox ks z)) = w_quotas (q_world z)"
  "w_label_quotas (q_world (fold delete_sandbox ks z)) = w_label_quotas (q_world z)"
  by (induction ks arbitrary: z) simp_all

lemma delete_workspace_tables [simp]:
  "w_workspaces (q_world (delete_workspace i z)) = delete_where (\<lambda>r. ws_id r = i) (w_workspaces (q_world z))"
  "w_members (q_world (delete_workspace i z)) = delete_where (\<lambda>r. mr_workspace_id r = i) (w_members (q_world z))"
  "w_invitations (q_world (delete_workspace i z)) = delete_where (\<lambda>r. in_workspace_id r = i) (w_invitations (q_world z))"
  "w_quotas (q_world (delete_workspace i z)) = delete_where (\<lambda>r. fst r = i) (w_quotas (q_world z))"
  "w_label_quotas (q_world (delete_workspace i z)) = delete_where (\<lambda>r. lq_workspace_id r = i) (w_label_quotas (q_world z))"
  by (simp_all add: delete_workspace_def Let_def)

text \<open>A table whose rows keep their key under an update, or are fewer.\<close>

lemma map_update_keeps: "(\<And>r. p r \<Longrightarrow> f (g r) = f r) \<Longrightarrow> map f (update_where p g t) = map f t"
  by (induction t) (auto simp: update_where_def)

lemma image_update_keeps: "(\<And>r. p r \<Longrightarrow> f (g r) = f r) \<Longrightarrow> f ` set (update_where p g t) = f ` set t"
  using map_update_keeps [of p f g t] by (metis list.set_map)

lemma distinct_delete_where: "distinct (map f t) \<Longrightarrow> distinct (map f (delete_where p t))"
  by (simp add: delete_where_def distinct_map_filter)

lemma wf_parts:
  "workspaces_wf z \<longleftrightarrow> distinct (map ws_id (w_workspaces (q_world z))) \<and> distinct (map member_key (w_members (q_world z))) \<and>
     mr_workspace_id ` set (w_members (q_world z)) \<subseteq> ws_id ` set (w_workspaces (q_world z)) \<and>
     in_workspace_id ` set (w_invitations (q_world z)) \<subseteq> ws_id ` set (w_workspaces (q_world z)) \<and>
     (\<forall>i \<in> set (w_invitations (q_world z)). in_role i \<noteq> Owner) \<and>
     lq_workspace_id ` set (w_label_quotas (q_world z)) \<subseteq> ws_id ` set (w_workspaces (q_world z)) \<and>
     fst ` set (w_quotas (q_world z)) \<subseteq> ws_id ` set (w_workspaces (q_world z)) \<and> distinct (map fst (w_quotas (q_world z)))"
  by (simp add: workspaces_wf_def Let_def)

text \<open>A workspace that is new, with its owner and its limits.\<close>

lemma new_workspace:
  assumes "workspaces_wf z" and "has_owners z" and fresh: "uid \<notin> ws_id ` set (w_workspaces (q_world z))"
    and w: "w_workspaces w = w_workspaces (q_world z) @ [fst (create_workspace now uid name slug by (w_workspaces (q_world z)))]"
      "w_members w = snd (add_workspace_member now uid user_id Owner (w_members (q_world z)))"
      "w_invitations w = w_invitations (q_world z)" "w_label_quotas w = w_label_quotas (q_world z)" "w_quotas w = w_quotas (q_world z)"
  shows "workspaces_wf (z\<lparr>q_world := ensure_workspace_quota uid defaults w\<rparr>)" "has_owners (z\<lparr>q_world := ensure_workspace_quota uid defaults w\<rparr>)"
proof -
  have q: "uid \<notin> fst ` set (w_quotas (q_world z))" "uid \<notin> mr_workspace_id ` set (w_members (q_world z))"
    using assms(1) fresh by (auto simp: wf_parts)
  have m: "(uid, user_id) \<notin> member_key ` set (w_members (q_world z))" using q(2) by (auto simp: member_key_def)
  have "find_row (\<lambda>q. fst q = uid) (w_quotas w) = None" using q(1) w by (force simp: find_row_def find_None_iff)
  then have e: "ensure_workspace_quota uid defaults w = w\<lparr>w_quotas := w_quotas w @ [(uid, defaults)]\<rparr>" by (simp add: ensure_workspace_quota_def)
  show "workspaces_wf (z\<lparr>q_world := ensure_workspace_quota uid defaults w\<rparr>)"
    using assms(1) fresh m q unfolding e wf_parts
    by (auto simp: w create_workspace_def add_workspace_member_def Let_def member_key_def)
  show "has_owners (z\<lparr>q_world := ensure_workspace_quota uid defaults w\<rparr>)"
    using assms(2) unfolding e has_owners_def count_positive
    by (auto simp: w create_workspace_def add_workspace_member_def Let_def)
qed


text \<open>The other tables, step by step.\<close>

lemma wf_workspaces_update:
  assumes "workspaces_wf z" and "\<And>ws. ws_id (f ws) = ws_id ws"
  shows "workspaces_wf (on_workspaces (update_where p f) z)"
    and "has_owners z \<Longrightarrow> has_owners (on_workspaces (update_where p f) z)"
proof -
  have i: "ws_id ` set (update_where p f t) = ws_id ` set t" "map ws_id (update_where p f t) = map ws_id t" for t :: "workspace tbl"
    by (simp_all add: image_update_keeps map_update_where assms(2))
  show "workspaces_wf (on_workspaces (update_where p f) z)" using assms(1) by (simp add: wf_parts i)
  show "has_owners (on_workspaces (update_where p f) z)" if h: "has_owners z"
    unfolding has_owners_def
  proof
    fix ws assume "ws \<in> set (w_workspaces (q_world (on_workspaces (update_where p f) z)))"
    then have "ws_id ws \<in> ws_id ` set (w_workspaces (q_world z))" using i(1) by auto
    then show "0 < count_workspace_owners (w_members (q_world (on_workspaces (update_where p f) z))) (ws_id ws)"
      using h by (auto simp: has_owners_def)
  qed
qed

lemma wf_delete_workspace:
  assumes "workspaces_wf z" shows "workspaces_wf (delete_workspace i z)" "has_owners z \<Longrightarrow> has_owners (delete_workspace i z)"
proof -
  show "workspaces_wf (delete_workspace i z)"
    using assms unfolding wf_parts delete_workspace_tables
    by (auto simp: set_delete_where intro: distinct_delete_where)
  show "has_owners (delete_workspace i z)" if "has_owners z"
    using that unfolding has_owners_def count_positive delete_workspace_tables by (simp add: set_delete_where) metis
qed

lemma wf_change_role:
  assumes "workspaces_wf z" and s: "change_role i user_id r u z = Inr (ms, z')"
  shows "workspaces_wf z'" "has_owners z \<Longrightarrow> has_owners z'"
proof -
  note z' = change_roleD(1) [OF s]
  have k: "map member_key (update_workspace_member_role r i user_id t) = map member_key t"
      "mr_workspace_id ` set (update_workspace_member_role r i user_id t) = mr_workspace_id ` set t" for t
    unfolding update_workspace_member_role_def by (simp_all add: map_update_where image_update_keeps member_key_def)
  show "workspaces_wf z'" using assms(1) by (simp add: z' wf_parts k)
  assume h: "has_owners z"
  have "\<exists>m \<in> set (update_workspace_member_role r i user_id (w_members (q_world z))). mr_workspace_id m = ws_id ws \<and> mr_role m = Owner \<and> mr_status m = Active"
    if ws: "ws \<in> set (w_workspaces (q_world z))" for ws
  proof -
    have c: "0 < count_workspace_owners (w_members (q_world z)) (ws_id ws)" using h ws by (simp add: has_owners_def)
    obtain m where m: "m \<in> set (w_members (q_world z))" "mr_workspace_id m = ws_id ws" "mr_role m = Owner" "mr_status m = Active"
        "r = Owner \<or> member_key m \<noteq> (i, user_id)"
    proof (cases "r \<noteq> Owner \<and> ws_id ws = i")
      case True
      then show ?thesis using keep_an_owner_others [OF change_roleD(2) [OF s]] assms(1) c that by (auto simp: wf_parts)
    next
      case False
      then show ?thesis using c that by (auto simp: count_positive member_key_def)
    qed
    then show ?thesis
      by (intro bexI [of _ "if member_key m = (i, user_id) then m\<lparr>mr_role := r\<rparr> else m"])
        (auto simp: update_workspace_member_role_def update_where_def member_key_def)
  qed
  then show "has_owners z'" by (simp add: z' has_owners_def count_positive)
qed

lemma wf_remove_member:
  assumes "workspaces_wf z" and s: "remove_member i user_id u z = Inr (x, z')"
  shows "workspaces_wf z'" "has_owners z \<Longrightarrow> has_owners z'"
proof -
  note z' = remove_memberD(1) [OF s]
  show "workspaces_wf z'" using assms(1) by (auto simp: z' wf_parts remove_workspace_member_def set_delete_where intro: distinct_delete_where)
  assume h: "has_owners z"
  have "\<exists>m \<in> set (remove_workspace_member i user_id (w_members (q_world z))). mr_workspace_id m = ws_id ws \<and> mr_role m = Owner \<and> mr_status m = Active"
    if ws: "ws \<in> set (w_workspaces (q_world z))" for ws
  proof -
    have c: "0 < count_workspace_owners (w_members (q_world z)) (ws_id ws)" using h ws by (simp add: has_owners_def)
    show ?thesis
    proof (cases "ws_id ws = i")
      case True
      then show ?thesis using keep_an_owner_others [OF remove_memberD(2) [OF s]] assms(1) c
        by (auto simp: wf_parts remove_workspace_member_def set_delete_where member_key_def)
    next
      case False
      then show ?thesis using c by (auto simp: count_positive remove_workspace_member_def set_delete_where)
    qed
  qed
  then show "has_owners z'" by (simp add: z' has_owners_def count_positive)
qed

lemma wf_accept:
  assumes wf: "workspaces_wf z" and s: "accept hash_token now token u z = Inr (v, z')"
  shows "workspaces_wf z'" "has_owners z \<Longrightarrow> has_owners z'"
proof -
  obtain offer t where offer: "offer \<in> set (w_invitations (q_world z))"
    and t: "t = snd (accept_workspace_invitation now (in_id offer) (w_invitations (q_world z)))"
    and ex: "\<And>m. get_workspace_member (w_members (q_world z)) (in_workspace_id offer) (mb_id u) = Some m \<Longrightarrow> mr_status m \<noteq> Active"
    and z': "z' = on_world (\<lambda>w. w\<lparr>w_invitations := t, w_members := snd (add_workspace_member now (in_workspace_id offer) (mb_id u) (in_role offer)
           (remove_workspace_member (in_workspace_id offer) (mb_id u) (w_members w)))\<rparr>) z"
    using acceptD [OF s] by metis
  let ?ms = "remove_workspace_member (in_workspace_id offer) (mb_id u) (w_members (q_world z))"
  have i: "in_workspace_id ` set t = in_workspace_id ` set (w_invitations (q_world z))"
    unfolding t accept_workspace_invitation_def Let_def snd_conv by (simp add: image_update_keeps)
  have r: "\<forall>o' \<in> set t. in_role o' \<noteq> Owner"
    unfolding t accept_workspace_invitation_def Let_def snd_conv by (rule update_where_ball) (use wf in \<open>auto simp: wf_parts\<close>)
  have n: "(in_workspace_id offer, mb_id u) \<notin> member_key ` set ?ms" by (auto simp: remove_workspace_member_def set_delete_where member_key_def)
  have "distinct (map member_key ?ms)" using wf by (simp add: wf_parts remove_workspace_member_def distinct_delete_where)
  moreover have "mr_workspace_id ` set ?ms \<subseteq> ws_id ` set (w_workspaces (q_world z))"
    using wf by (auto simp: wf_parts remove_workspace_member_def set_delete_where)
  moreover have "in_workspace_id offer \<in> ws_id ` set (w_workspaces (q_world z))" using wf offer by (auto simp: wf_parts)
  ultimately show "workspaces_wf z'"
    using wf n unfolding z' wf_parts by (simp add: i r add_workspace_member_def Let_def member_key_def)
  assume h: "has_owners z"
  have "m \<in> set ?ms" if "m \<in> set (w_members (q_world z))" "mr_status m = Active" for m
    using ex [of m] get_member_unique [of "w_members (q_world z)" m] wf that
    by (auto simp: wf_parts remove_workspace_member_def set_delete_where)
  with h show "has_owners z'"
    unfolding has_owners_def count_positive by (fastforce simp: z' add_workspace_member_def Let_def)
qed


lemma wf_quota:
  assumes "workspaces_wf z" and "i \<in> ws_id ` set (w_workspaces (q_world z))"
  shows "workspaces_wf (on_world (\<lambda>w. w\<lparr>w_quotas := set_workspace_quota i l (w_quotas w)\<rparr>) z)"
    "workspaces_wf (on_world (\<lambda>w. w\<lparr>w_label_quotas := snd (upsert_label_quota now i key val l (w_label_quotas w))\<rparr>) z)"
proof -
  let ?t = "w_quotas (q_world z)"
  have "i \<notin> fst ` set ?t" if "find_row (\<lambda>q. fst q = i) ?t = None" using find_row_NoneD [OF that] by auto
  then have sub: "fst ` set (set_workspace_quota i l ?t) \<subseteq> insert i (fst ` set ?t)" and d: "distinct (map fst (set_workspace_quota i l ?t))"
    using assms(1) by (auto simp: set_workspace_quota_def wf_parts image_update_keeps map_update_where)
  have "insert i (fst ` set ?t) \<subseteq> ws_id ` set (w_workspaces (q_world z))" using assms by (simp add: wf_parts)
  then have "fst ` set (set_workspace_quota i l ?t) \<subseteq> ws_id ` set (w_workspaces (q_world z))" by (rule subset_trans [OF sub])
  with d show "workspaces_wf (on_world (\<lambda>w. w\<lparr>w_quotas := set_workspace_quota i l (w_quotas w)\<rparr>) z)"
    using assms(1) by (simp add: wf_parts)
  have "lq_workspace_id ` set (update_where (same_label i key val) (\<lambda>_. r) t) = lq_workspace_id ` set t" if "lq_workspace_id r = i" for r t
    by (rule image_update_keeps) (simp add: that same_label_def)
  then show "workspaces_wf (on_world (\<lambda>w. w\<lparr>w_label_quotas := snd (upsert_label_quota now i key val l (w_label_quotas w))\<rparr>) z)"
    using assms by (auto simp: wf_parts upsert_label_quota_def Let_def)
qed

lemma wf_invitations:
  assumes "workspaces_wf z" and "in_workspace_id ` set t \<subseteq> ws_id ` set (w_workspaces (q_world z))" and "\<forall>o' \<in> set t. in_role o' \<noteq> Owner"
  shows "workspaces_wf (on_world (\<lambda>w. w\<lparr>w_invitations := t\<rparr>) z)"
  using assms by (simp add: wf_parts)

lemma role_in_exists: "workspaces_wf z \<Longrightarrow> role_in i u minimum z = Inr r \<Longrightarrow> i \<in> ws_id ` set (w_workspaces (q_world z))"
  using find_row_SomeD by (fastforce dest!: role_in_Inr simp: wf_parts get_workspace_member_def)

lemma wf_revoke:
  assumes "workspaces_wf z"
  shows "workspaces_wf (on_world (\<lambda>w. w\<lparr>w_invitations := snd (revoke_workspace_invitation now k i (w_invitations (q_world z)))\<rparr>) z)"
  unfolding revoke_workspace_invitation_def Let_def snd_conv
  by (rule wf_invitations [OF assms _ update_where_ball]) (use assms in \<open>auto simp: wf_parts image_update_keeps\<close>)

lemma has_owners_same [simp]:
  "has_owners (on_world (\<lambda>w. w\<lparr>w_quotas := q\<rparr>) z) = has_owners z" "has_owners (on_world (\<lambda>w. w\<lparr>w_label_quotas := l\<rparr>) z) = has_owners z"
  "has_owners (on_world (\<lambda>w. w\<lparr>w_invitations := t\<rparr>) z) = has_owners z"
  by (simp_all add: has_owners_def)

definition workspaces_inv :: "'h zoo \<Rightarrow> bool" where
  "workspaces_inv z \<longleftrightarrow> workspaces_wf z \<and> has_owners z"

lemma create_workspace_inv:
  assumes "workspaces_inv z" and "create_workspace_route now defaults uid token name u z = Inr (v, z')" and "uid \<notin> ws_id ` set (w_workspaces (q_world z))"
  shows "workspaces_inv z'"
  using assms new_workspace [of z uid _ now "strip name" "slug_base (strip name) @ ''-'' @ token" "mb_id u" "mb_id u" defaults]
  by (auto simp: workspaces_inv_def create_workspace_route_def create_workspace_def add_workspace_member_def Let_def split: if_splits)

lemma personal_workspace_inv:
  assumes "workspaces_inv z" and "personal_workspace now defaults uid us (q_world z) = (i, w)" and "uid \<notin> ws_id ` set (w_workspaces (q_world z))"
  shows "workspaces_inv (z\<lparr>q_world := w\<rparr>)"
  using assms new_workspace [of z uid _ now "''Personal''" "''personal-'' @ us_id us" "us_id us" "us_id us" defaults]
  by (auto simp: workspaces_inv_def personal_workspace_def create_workspace_def add_workspace_member_def Let_def split: option.splits)

lemma table_routes_inv:
  assumes "workspaces_inv z"
  shows "rename_workspace now i name u z = Inr (v, z') \<Longrightarrow> workspaces_inv z'"
    "set_lifecycle_defaults now i idle_minutes life_minutes u z = Inr (v, z') \<Longrightarrow> workspaces_inv z'"
    "delete_workspace_route i u z = Inr (x, z') \<Longrightarrow> workspaces_inv z'"
  using assms wf_workspaces_update [of z] wf_delete_workspace [of z]
  by (auto simp: workspaces_inv_def rename_workspace_def set_lifecycle_defaults_def delete_workspace_route_def update_workspace_def
      set_workspace_lifecycle_def Let_def split: if_splits)

lemma quota_routes_inv:
  assumes "workspaces_inv z"
  shows "set_quota H admins i l u z = Inr (q, z') \<Longrightarrow> workspaces_inv z'"
    "set_label_quota H now i key val l u z = Inr (lq, z') \<Longrightarrow> workspaces_inv z'"
    "remove_label_quota i key val u z = Inr (x, z') \<Longrightarrow> workspaces_inv z'"
proof -
  have wf: "workspaces_wf z" "has_owners z" using assms by (auto simp: workspaces_inv_def)
  show "workspaces_inv z'" if s: "set_quota H admins i l u z = Inr (q, z')"
  proof -
    have z': "z' = on_world (\<lambda>w. w\<lparr>w_quotas := set_workspace_quota i l (w_quotas w)\<rparr>) z" and "get_workspace (w_workspaces (q_world z)) i \<noteq> None"
      using s by (auto simp: set_quota_def Let_def split: if_splits)
    then have "i \<in> ws_id ` set (w_workspaces (q_world z))" by (auto simp: get_workspace_def dest!: find_row_SomeD)
    then show ?thesis using wf_quota(1) [OF wf(1)] wf(2) by (simp add: workspaces_inv_def z')
  qed
  show "workspaces_inv z'" if s: "set_label_quota H now i key val l u z = Inr (lq, z')"
  proof -
    obtain r where r: "role_in i u Admin z = Inr r"
      and z': "z' = on_world (\<lambda>w. w\<lparr>w_label_quotas := snd (upsert_label_quota now i key val l (w_label_quotas w))\<rparr>) z"
      using s by (auto simp: set_label_quota_def split: prod.splits)
    show ?thesis using wf_quota(2) [OF wf(1) role_in_exists [OF wf(1) r]] wf(2) by (simp add: workspaces_inv_def z')
  qed
  show "workspaces_inv z'" if s: "remove_label_quota i key val u z = Inr (x, z')"
  proof -
    have z': "z' = on_world (\<lambda>w. w\<lparr>w_label_quotas := delete_label_quota i key val (w_label_quotas w)\<rparr>) z" using s by (auto simp: remove_label_quota_def)
    have "lq_workspace_id ` set (delete_label_quota i key val (w_label_quotas (q_world z))) \<subseteq> lq_workspace_id ` set (w_label_quotas (q_world z))"
      by (auto simp: delete_label_quota_def set_delete_where)
    then have "lq_workspace_id ` set (delete_label_quota i key val (w_label_quotas (q_world z))) \<subseteq> ws_id ` set (w_workspaces (q_world z))"
      by (rule subset_trans) (use wf in \<open>simp add: wf_parts\<close>)
    then show ?thesis using wf by (simp add: workspaces_inv_def z' wf_parts)
  qed
qed

lemma invitation_routes_inv:
  assumes "workspaces_inv z"
  shows "invite hash_token now uid token i email r u z = Inr (tv, z') \<Longrightarrow> r \<noteq> Owner \<Longrightarrow> workspaces_inv z'"
    "revoke_invitation now i invitation_id u z = Inr (x, z') \<Longrightarrow> workspaces_inv z'"
proof -
  have wf: "workspaces_wf z" "has_owners z" using assms by (auto simp: workspaces_inv_def)
  show "workspaces_inv z'" if s: "invite hash_token now uid token i email r u z = Inr (tv, z')" and r: "r \<noteq> Owner"
  proof -
    define row where "row = fst (create_workspace_invitation now uid i (lower email) r (mb_id u) (hash_token token) (now + INVITATION_TTL) (w_invitations (q_world z)))"
    obtain mine where m: "role_in i u Admin z = Inr mine" and "in_workspace_id row = i" "in_role row = r"
      and z': "z' = on_world (\<lambda>w. w\<lparr>w_invitations := w_invitations (q_world z) @ [row]\<rparr>) z"
      using s by (auto simp: row_def invite_def create_workspace_invitation_def Let_def split: if_splits)
    moreover have "workspaces_wf (on_world (\<lambda>w. w\<lparr>w_invitations := w_invitations (q_world z) @ [row]\<rparr>) z)"
      by (rule wf_invitations [OF wf(1)]) (use role_in_exists [OF wf(1) m] wf(1) calculation r in \<open>auto simp: wf_parts\<close>)
    ultimately show ?thesis using wf by (simp add: workspaces_inv_def)
  qed
  show "workspaces_inv z'" if s: "revoke_invitation now i invitation_id u z = Inr (x, z')"
  proof -
    have "z' = on_world (\<lambda>w. w\<lparr>w_invitations := snd (revoke_workspace_invitation now invitation_id i (w_invitations (q_world z)))\<rparr>) z"
      using s by (auto simp: revoke_invitation_def split: if_splits prod.splits)
    then show ?thesis using wf_revoke [OF wf(1)] wf(2) by (simp add: workspaces_inv_def)
  qed
qed

lemma member_routes_inv:
  assumes "workspaces_inv z"
  shows "change_role i user_id r u z = Inr (ms, z') \<Longrightarrow> workspaces_inv z'" "remove_member i user_id u z = Inr (x, z') \<Longrightarrow> workspaces_inv z'"
    "accept hash_token now token u z = Inr (v, z') \<Longrightarrow> workspaces_inv z'"
  using assms unfolding workspaces_inv_def by (auto intro: wf_change_role wf_remove_member wf_accept)

lemma ws_step_inv:
  assumes "ws_step z z'" and "workspaces_inv z"
  shows "workspaces_inv z'"
  using assms(1)
proof cases
  case made show ?thesis by (rule create_workspace_inv [OF assms(2) made])
next
  case own show ?thesis unfolding own(1) by (rule personal_workspace_inv [OF assms(2) own(2,3)])
next
  case renamed show ?thesis by (rule table_routes_inv(1) [OF assms(2) renamed])
next
  case lifecycle show ?thesis by (rule table_routes_inv(2) [OF assms(2) lifecycle])
next
  case deleted show ?thesis by (rule table_routes_inv(3) [OF assms(2) deleted])
next
  case role show ?thesis by (rule member_routes_inv(1) [OF assms(2) role])
next
  case removed show ?thesis by (rule member_routes_inv(2) [OF assms(2) removed])
next
  case quota show ?thesis by (rule quota_routes_inv(1) [OF assms(2) quota])
next
  case label_quota show ?thesis by (rule quota_routes_inv(2) [OF assms(2) label_quota])
next
  case no_label_quota show ?thesis by (rule quota_routes_inv(3) [OF assms(2) no_label_quota])
next
  case invited show ?thesis by (rule invitation_routes_inv(1) [OF assms(2) invited])
next
  case revoked show ?thesis by (rule invitation_routes_inv(2) [OF assms(2) revoked])
next
  case accepted show ?thesis by (rule member_routes_inv(3) [OF assms(2) accepted])
qed

interpretation teams: transition_system workspaces_inv ws_step workspaces_inv
  by unfold_locales (assumption, rule ws_step_inv)

lemma starts_with_more:
  assumes "starts_with s [p]" shows "starts_with (s @ x) [p]"
proof -
  have p: "take (length p) s = p" using assms by (simp add: starts_with_def)
  then have "length p \<le> length s" by (metis length_take min.cobounded1)
  with p show ?thesis by (simp add: starts_with_def)
qed

lemma find_row_snoc: "\<forall>r \<in> set t. \<not> p r \<Longrightarrow> p x \<Longrightarrow> find_row p (t @ [x]) = Some x"
  by (induction t) auto

lemma get_update_role:
  "get_workspace_member (update_workspace_member_role r i user_id t) i' user_id' =
     map_option (\<lambda>m. if i' = i \<and> user_id' = user_id then m\<lparr>mr_role := r\<rparr> else m) (get_workspace_member t i' user_id')"
  by (induction t) (auto simp: update_workspace_member_role_def update_where_def get_workspace_member_def)

lemma get_removed: "get_workspace_member (remove_workspace_member i user_id t) i user_id = None"
  by (induction t) (auto simp: remove_workspace_member_def delete_where_def get_workspace_member_def)

subsection \<open>Properties\<close>

text \<open>
  C2. A workspace always keeps an owner: whatever requests its members make, in whatever order (role changes, removals,
  people leaving, invitations, new and deleted workspaces), every workspace has an active owner.
\<close>

theorem workspace_keeps_an_owner:
  assumes "workspaces_inv z" and "ws_step\<^sup>*\<^sup>* z z'" and "ws \<in> set (w_workspaces (q_world z'))"
  shows "\<exists>m \<in> set (w_members (q_world z')). mr_workspace_id m = ws_id ws \<and> mr_role m = Owner \<and> mr_status m = Active"
  using teams.reachable_inv [OF assms(1,2)] assms(3) by (simp add: workspaces_inv_def has_owners_def count_positive)

text \<open>
  C33. The rows stay well-formed under every sequence of these requests: ids of workspaces are unique, a user is in a
  workspace at most once, members, invitations and quotas refer to workspaces that exist, a workspace has one row of
  limits at most, and no invitation is for an owner.
\<close>

theorem workspace_rows_well_formed:
  assumes "workspaces_inv z" and "ws_step\<^sup>*\<^sup>* z z'"
  shows "workspaces_wf z'"
  using teams.reachable_inv [OF assms] by (simp add: workspaces_inv_def)


text \<open>
  C37. A workspace that is called Personal is taken for a personal one: whatever workspace is made with a name whose slug begins
  with that word can never be deleted, not even by the owner who has just made it.
\<close>

theorem workspace_named_personal_is_stuck:
  assumes "mb_key_id u = None" and "starts_with (slug_base (strip name) @ ''-'') [''personal-'']" and "uid \<notin> ws_id ` set (w_workspaces (q_world z))"
    and "uid \<notin> mr_workspace_id ` set (w_members (q_world z))"
  shows "\<exists>v z'. create_workspace_route now defaults uid token name u z = Inr (v, z') \<and> wv_id v = uid \<and> wv_personal v \<and>
    delete_workspace_route uid u z' = Inl (HTTPException 409 (''a personal workspace can'' @ [char_of (39 :: nat)] @ ''t be deleted''))"
proof -
  let ?slug = "slug_base (strip name) @ ''-'' @ token"
  define ws where "ws = fst (create_workspace now uid (strip name) ?slug (mb_id u) (w_workspaces (q_world z)))"
  define me where "me = fst (add_workspace_member now uid (mb_id u) Owner (w_members (q_world z)))"
  define z' where "z' = z\<lparr>q_world := ensure_workspace_quota uid defaults ((q_world z)\<lparr>w_workspaces := w_workspaces (q_world z) @ [ws], w_members := w_members (q_world z) @ [me]\<rparr>)\<rparr>"
  have p: "starts_with ?slug [''personal-'']" using starts_with_more [OF assms(2), of token] by simp
  have ws: "ws_id ws = uid" "ws_slug ws = ?slug" and mr: "mr_workspace_id me = uid" "mr_user_id me = mb_id u" "mr_role me = Owner" "mr_status me = Active"
    by (simp_all add: ws_def me_def create_workspace_def add_workspace_member_def Let_def)
  have c: "create_workspace_route now defaults uid token name u z = Inr (workspace_response ws Owner, z')"
    using assms(1) by (simp add: create_workspace_route_def create_workspace_def add_workspace_member_def Let_def ws_def me_def z'_def)
  have t: "w_members (q_world z') = w_members (q_world z) @ [me]" "w_workspaces (q_world z') = w_workspaces (q_world z) @ [ws]"
    by (simp_all add: z'_def ensure_workspace_quota_def)
  have "get_workspace_member (w_members (q_world z')) uid (mb_id u) = Some me"
    unfolding t get_workspace_member_def by (rule find_row_snoc) (use assms(4) mr in \<open>auto simp: image_iff\<close>)
  then have r: "role_in uid u Owner z' = Inr Owner" using assms(1) mr by (simp add: role_in_def)
  have "get_workspace (w_workspaces (q_world z')) uid = Some ws"
    unfolding t get_workspace_def by (rule find_row_snoc) (use assms(3) ws in \<open>auto simp: image_iff\<close>)
  then have "delete_workspace_route uid u z' = Inl (HTTPException 409 (''a personal workspace can'' @ [char_of (39 :: nat)] @ ''t be deleted''))"
    using r p ws by (simp add: delete_workspace_route_def found_workspace_def personal_def)
  then show ?thesis using c p ws by (simp add: workspace_response_def)
qed



subsection \<open>Witnesses\<close>

text \<open>A personal workspace that its user shares with a second owner and an admin.\<close>

definition demo_team :: "unit zoo" where
  "demo_team = demo_zoo\<lparr>q_world := demo_world\<lparr>
     w_workspaces := map (\<lambda>ws. ws\<lparr>ws_slug := ''personal-u1''\<rparr>) (w_workspaces demo_world),
     w_members := [fst (add_workspace_member 0 ''w1'' ''u1'' Owner []), fst (add_workspace_member 0 ''w1'' ''u2'' Owner []),
       fst (add_workspace_member 0 ''w1'' ''u3'' Admin []), fst (add_workspace_member 0 ''w1'' ''u4'' Viewer [])],
     w_quotas := [(''w1'', no_limits)]\<rparr>\<rparr>"

definition demo_user :: "string \<Rightarrow> role \<Rightarrow> member" where
  "demo_user i r = demo_admin\<lparr>mb_id := i, mb_email := i @ ''@example.com'', mb_role := r\<rparr>"

lemma demo_team_step: "\<exists>z'. ws_step demo_team z' \<and> change_role ''w1'' ''u1'' Member (demo_user ''u2'' Owner) demo_team = Inr (members_of ''w1'' z', z')"
proof -
  let ?r = "change_role ''w1'' ''u1'' Member (demo_user ''u2'' Owner) demo_team"
  have "\<not> isl ?r" by code_simp
  then obtain ms z' where r: "?r = Inr (ms, z')" using not_islE by blast
  then have "ms = members_of ''w1'' z'" by (auto simp: change_role_def Let_def split: option.splits if_splits)
  with r ws_step.role [OF r] show ?thesis by blast
qed

theorem workspace_keeps_an_owner_witness:
  "\<exists>z' ms. change_role ''w1'' ''u1'' Member (demo_user ''u2'' Owner) demo_team = Inr (ms, z') \<and>
     (\<exists>m \<in> set (w_members (q_world z')). mr_workspace_id m = ''w1'' \<and> mr_role m = Owner \<and> mr_status m = Active)"
proof -
  obtain z' where z': "ws_step demo_team z'" "change_role ''w1'' ''u1'' Member (demo_user ''u2'' Owner) demo_team = Inr (members_of ''w1'' z', z')"
    using demo_team_step by blast
  have i: "workspaces_inv demo_team" by code_simp
  have "w_workspaces (q_world z') = w_workspaces (q_world demo_team)" using change_roleD(1) [OF z'(2)] by simp
  moreover have "map ws_id (w_workspaces (q_world demo_team)) = [''w1'']" by code_simp
  ultimately obtain ws where "ws \<in> set (w_workspaces (q_world z'))" "ws_id ws = ''w1''" by (auto simp: map_eq_Cons_conv)
  with workspace_keeps_an_owner [OF i r_into_rtranclp [of ws_step, OF z'(1)]] z'(2) show ?thesis by force
qed

theorem workspace_rows_well_formed_witness:
  "\<exists>z' ms. change_role ''w1'' ''u1'' Member (demo_user ''u2'' Owner) demo_team = Inr (ms, z') \<and> workspaces_wf z'"
proof -
  obtain z' where z': "ws_step demo_team z'" "change_role ''w1'' ''u1'' Member (demo_user ''u2'' Owner) demo_team = Inr (members_of ''w1'' z', z')"
    using demo_team_step by blast
  have i: "workspaces_inv demo_team" by code_simp
  from workspace_rows_well_formed [OF i r_into_rtranclp [of ws_step, OF z'(1)]] z'(2) show ?thesis by blast
qed


theorem workspace_named_personal_is_stuck_witness:
  "\<exists>v z'. create_workspace_route 5 no_limits ''w9'' ''a1b2c3'' ''Personal notes'' (demo_user ''u1'' Owner) demo_team = Inr (v, z') \<and> wv_personal v \<and>
     isl (delete_workspace_route ''w9'' (demo_user ''u1'' Owner) z')"
proof -
  have h: "mb_key_id (demo_user ''u1'' Owner) = None" "starts_with (slug_base (strip ''Personal notes'') @ ''-'') [''personal-'']"
    "''w9'' \<notin> ws_id ` set (w_workspaces (q_world demo_team))" "''w9'' \<notin> mr_workspace_id ` set (w_members (q_world demo_team))" by code_simp+
  from workspace_named_personal_is_stuck [OF h, of 5 no_limits "''a1b2c3''"] show ?thesis by auto
qed


end
