(* ===== verification/Leases.thy ===== *)
theory Leases
  imports Jobs
begin

section \<open>Leases and tickets\<close>

text \<open>
  \<open>apps/server/workers.py\<close>: the leases that keep background work on one process, over the table
  \<open>leases\<close>; and \<open>apps/server/tickets.py\<close>: tickets for websocket URLs, over the table \<open>tickets\<close>. The clock is the
  database's, and \<open>WORKER_ID\<close> of the calling process is an argument. A lease is specified as a lock that frees itself, and the
  table is shown to implement it.
\<close>

subsection \<open>Leases\<close>

record lease =
  le_name :: string
  le_holder :: string
  le_expires_at :: time

definition get_lease :: "lease tbl \<Rightarrow> string \<Rightarrow> lease option" where
  "get_lease t name = find_row (\<lambda>l. le_name l = name) t"

text \<open>\<open>INSERT ... ON CONFLICT DO UPDATE ... WHERE ... RETURNING holder\<close>: no row comes back when the condition fails.\<close>

definition acquire_lease :: "time \<Rightarrow> string \<Rightarrow> string \<Rightarrow> time \<Rightarrow> lease tbl \<Rightarrow> string option \<times> lease tbl" where
  "acquire_lease now name holder expires_at t =
     (case get_lease t name of
        None \<Rightarrow> (Some holder, t @ [\<lparr>le_name = name, le_holder = holder, le_expires_at = expires_at\<rparr>])
      | Some l \<Rightarrow>
          if le_holder l = holder \<or> le_expires_at l < now
          then (Some holder, update_where (\<lambda>l. le_name l = name) (\<lambda>l. l\<lparr>le_holder := holder, le_expires_at := expires_at\<rparr>) t)
          else (None, t))"

definition release_lease :: "string \<Rightarrow> string \<Rightarrow> lease tbl \<Rightarrow> lease tbl" where
  "release_lease name holder t = delete_where (\<lambda>l. le_name l = name \<and> le_holder l = holder) t"

definition hold :: "time \<Rightarrow> string \<Rightarrow> int \<Rightarrow> string \<Rightarrow> lease tbl \<Rightarrow> bool \<times> lease tbl" where
  "hold now name ttl worker t =
     (let (holder, t') = acquire_lease now name worker (stamp now ttl) t in (holder = Some worker, t'))"

definition release :: "string \<Rightarrow> string \<Rightarrow> lease tbl \<Rightarrow> lease tbl" where
  "release name worker t = release_lease name worker t"

datatype process_role = RoleAll | RoleApi | RoleWorker

definition works :: "process_role \<Rightarrow> bool" where
  "works r \<longleftrightarrow> r \<in> {RoleAll, RoleWorker}"

text \<open>What a process asks for.\<close>

datatype lease_request = Hold string int string | Release string string

fun ask :: "time \<Rightarrow> lease_request \<Rightarrow> lease tbl \<Rightarrow> bool \<times> lease tbl" where
  "ask now (Hold name ttl worker) t = hold now name ttl worker t"
| "ask now (Release name worker) t = (True, release name worker t)"

subsection \<open>The contract: a lock that frees itself\<close>

text \<open>The lock's state gives, for each name, who has it and until when; it is free for others only after that moment.\<close>

type_synonym locks = "string \<rightharpoonup> string \<times> time"

fun spec_ask :: "time \<Rightarrow> lease_request \<Rightarrow> locks \<Rightarrow> bool \<times> locks" where
  "spec_ask now (Hold name ttl worker) m =
     (case m name of
        None \<Rightarrow> (True, m(name \<mapsto> (worker, now + seconds ttl)))
      | Some (holder, until) \<Rightarrow>
          if holder = worker \<or> until < now then (True, m(name \<mapsto> (worker, now + seconds ttl))) else (False, m))"
| "spec_ask now (Release name worker) m =
     (True, case m name of None \<Rightarrow> m | Some (holder, until) \<Rightarrow> if holder = worker then m(name := None) else m)"

text \<open>A sequence of requests, each with the clock at that moment, and the answers.\<close>

fun serve :: "(time \<Rightarrow> lease_request \<Rightarrow> 's \<Rightarrow> bool \<times> 's) \<Rightarrow> (time \<times> lease_request) list \<Rightarrow> 's \<Rightarrow> bool list \<times> 's" where
  "serve request [] s = ([], s)"
| "serve request ((now, r) # rs) s = (let (b, s') = request now r s; (bs, s'') = serve request rs s' in (b # bs, s''))"

text \<open>
  What a user of such a lock relies on. A process has a lock at a moment if the state says so: a process that took or renewed it
  with a term that is not over. \<open>ask\<close> answers with True only when nobody else has it.
\<close>

locale timed_lock =
  fixes request :: "time \<Rightarrow> lease_request \<Rightarrow> 's \<Rightarrow> bool \<times> 's"
    and holds :: "'s \<Rightarrow> time \<Rightarrow> string \<Rightarrow> string \<Rightarrow> bool"
    and ok :: "'s \<Rightarrow> bool"
  assumes ok_request: "ok s \<Longrightarrow> ok (snd (request now r s))"
    and one_holder: "ok s \<Longrightarrow> holds s now name a \<Longrightarrow> holds s now name b \<Longrightarrow> a = b"
    and granted: "ok s \<Longrightarrow> fst (request now (Hold name ttl w) s) \<Longrightarrow> 0 \<le> ttl \<Longrightarrow> holds (snd (request now (Hold name ttl w) s)) (now + seconds ttl) name w"
    and ends: "holds s now name w \<Longrightarrow> now' \<le> now \<Longrightarrow> holds s now' name w"
    and kept: "ok s \<Longrightarrow> holds s until name w \<Longrightarrow> now \<le> until \<Longrightarrow> r \<noteq> Release name w \<Longrightarrow> (\<forall>ttl. r \<noteq> Hold name ttl w) \<Longrightarrow> holds (snd (request now r s)) until name w"
    and refused: "ok s \<Longrightarrow> holds s now name w \<Longrightarrow> w' \<noteq> w \<Longrightarrow> \<not> fst (request now (Hold name ttl w') s)"
begin

text \<open>Between taking a lock and the end of its term nobody else takes it, whatever else is asked meanwhile.\<close>

lemma exclusive:
  assumes "ok s" and "fst (request t0 (Hold name ttl w) s)" and "0 \<le> ttl"
    and "\<forall>(now, r) \<in> set rs. now \<le> t0 + seconds ttl \<and> r \<noteq> Release name w \<and> (\<forall>k. r \<noteq> Hold name k w)"
  shows "holds (snd (serve request rs (snd (request t0 (Hold name ttl w) s)))) (t0 + seconds ttl) name w"
    and "\<And>n ttl' w'. n < length rs \<Longrightarrow> snd (rs ! n) = Hold name ttl' w' \<Longrightarrow> \<not> fst (serve request rs (snd (request t0 (Hold name ttl w) s))) ! n"
proof -
  let ?until = "t0 + seconds ttl"
  have *: "holds (snd (serve request rs s')) ?until name w \<and> (\<forall>n ttl' w'. n < length rs \<longrightarrow> snd (rs ! n) = Hold name ttl' w' \<longrightarrow> \<not> fst (serve request rs s') ! n)"
    if "ok s'" "holds s' ?until name w" "\<forall>(now, r) \<in> set rs. now \<le> ?until \<and> r \<noteq> Release name w \<and> (\<forall>k. r \<noteq> Hold name k w)" for rs s'
    using that
  proof (induction rs arbitrary: s')
    case (Cons nr rs)
    obtain now r where nr: "nr = (now, r)" by fastforce
    obtain b s1 where q: "request now r s' = (b, s1)" by fastforce
    obtain bs s2 where v: "serve request rs s1 = (bs, s2)" by fastforce
    have r: "now \<le> ?until" "r \<noteq> Release name w" "\<forall>k. r \<noteq> Hold name k w" using Cons.prems(3) nr by auto
    have "holds s1 ?until name w" using kept [OF Cons.prems(1,2) r] q by simp
    moreover have "ok s1" using ok_request [OF Cons.prems(1), of now r] q by simp
    ultimately have IH: "holds s2 ?until name w" "\<forall>n ttl' w'. n < length rs \<longrightarrow> snd (rs ! n) = Hold name ttl' w' \<longrightarrow> \<not> bs ! n"
      using Cons.IH [of s1] Cons.prems(3) v by auto
    have "\<not> b" if "r = Hold name ttl' w'" for ttl' w'
    proof -
      have "w' \<noteq> w" using r(3) that by blast
      then show ?thesis using refused [OF Cons.prems(1) ends [OF Cons.prems(2) r(1)], of w' ttl'] q that by simp
    qed
    with IH show ?case by (auto simp: nr q v nth_Cons split: nat.splits)
  qed simp
  have g: "ok (snd (request t0 (Hold name ttl w) s))" "holds (snd (request t0 (Hold name ttl w) s)) ?until name w"
    using ok_request [OF assms(1)] granted [OF assms(1-3)] by auto
  show "holds (snd (serve request rs (snd (request t0 (Hold name ttl w) s)))) ?until name w" using * [OF g assms(4)] by blast
  show "\<And>n ttl' w'. n < length rs \<Longrightarrow> snd (rs ! n) = Hold name ttl' w' \<Longrightarrow> \<not> fst (serve request rs (snd (request t0 (Hold name ttl w) s))) ! n"
    using * [OF g assms(4)] by blast
qed

end

subsection \<open>The table implements the contract\<close>

definition lease_wf :: "lease tbl \<Rightarrow> bool" where
  "lease_wf t \<longleftrightarrow> distinct (map le_name t)"

interpretation leases: keyed_table le_name get_lease
  by unfold_locales (simp add: get_lease_def)

definition locks_of :: "lease tbl \<Rightarrow> locks" where
  "locks_of t name = map_option (\<lambda>l. (le_holder l, le_expires_at l)) (get_lease t name)"

lemma locks_of_append: "get_lease t (le_name l) = None \<Longrightarrow> locks_of (t @ [l]) = (locks_of t)(le_name l \<mapsto> (le_holder l, le_expires_at l))"
  by (auto simp: locks_of_def fun_eq_iff leases.lookup_append split: option.split)

lemma locks_of_update:
  assumes "get_lease t name \<noteq> None"
  shows "locks_of (update_where (\<lambda>l. le_name l = name) (\<lambda>l. l\<lparr>le_holder := h, le_expires_at := e\<rparr>) t) = (locks_of t)(name \<mapsto> (h, e))"
proof
  fix k
  have "get_lease (update_where (\<lambda>l. le_name l = name) (\<lambda>l. l\<lparr>le_holder := h, le_expires_at := e\<rparr>) t) k =
      map_option (\<lambda>l. if le_name l = name then l\<lparr>le_holder := h, le_expires_at := e\<rparr> else l) (get_lease t k)"
    by (rule leases.lookup_update) simp
  then show "locks_of (update_where (\<lambda>l. le_name l = name) (\<lambda>l. l\<lparr>le_holder := h, le_expires_at := e\<rparr>) t) k = ((locks_of t)(name \<mapsto> (h, e))) k"
    using assms by (cases "get_lease t k") (auto simp: locks_of_def dest: leases.lookup_key)
qed

text \<open>One law per operation: the table's answer is the lock's, and the new table stands for the lock's new state.\<close>

lemma ask_refines:
  assumes "lease_wf t"
  shows "fst (ask now r t) = fst (spec_ask now r (locks_of t)) \<and> locks_of (snd (ask now r t)) = snd (spec_ask now r (locks_of t)) \<and> lease_wf (snd (ask now r t))"
proof (cases r)
  case (Hold name ttl w)
  show ?thesis
  proof (cases "get_lease t name")
    case None
    then have "name \<notin> le_name ` set t" by (simp add: leases.lookup_None)
    with None Hold assms show ?thesis
      using locks_of_append [of t "\<lparr>le_name = name, le_holder = w, le_expires_at = stamp now ttl\<rparr>"]
      by (simp add: hold_def acquire_lease_def lease_wf_def locks_of_def stamp_def)
  next
    case (Some l)
    have "distinct (map le_name (update_where (\<lambda>l. le_name l = name) (\<lambda>l. l\<lparr>le_holder := w, le_expires_at := e\<rparr>) t))" for e
      using assms by (subst leases.keys_update) (simp_all add: lease_wf_def)
    with Some Hold assms show ?thesis
      using locks_of_update [where t = t and name = name and h = w and e = "now + seconds ttl"] by (simp add: hold_def acquire_lease_def lease_wf_def locks_of_def stamp_def)
  qed
next
  case (Release name w)
  have "locks_of (release_lease name w t) = snd (spec_ask now (Release name w) (locks_of t))"
  proof
    fix k
    have "get_lease (release_lease name w t) k = (case get_lease t k of Some l \<Rightarrow> if le_name l = name \<and> le_holder l = w then None else Some l | None \<Rightarrow> None)"
      unfolding release_lease_def by (rule leases.lookup_delete) (use assms in \<open>simp add: lease_wf_def\<close>)
    then show "locks_of (release_lease name w t) k = snd (spec_ask now (Release name w) (locks_of t)) k"
      using leases.lookup_key [of t k]
      by (cases "k = name"; cases "get_lease t k") (auto simp: locks_of_def split: option.splits)
  qed
  then show ?thesis using Release assms by (simp add: release_def lease_wf_def release_lease_def leases.keys_delete)
qed

lemma serve_refines:
  assumes "lease_wf t"
  shows "fst (serve ask rs t) = fst (serve spec_ask rs (locks_of t)) \<and> locks_of (snd (serve ask rs t)) = snd (serve spec_ask rs (locks_of t)) \<and>
    lease_wf (snd (serve ask rs t))"
  using assms
proof (induction rs arbitrary: t)
  case (Cons nr rs)
  obtain now r where nr: "nr = (now, r)" by fastforce
  note A = ask_refines [OF Cons.prems, of now r]
  show ?case using Cons.IH [of "snd (ask now r t)"] A by (simp add: nr Let_def split_beta)
qed simp

definition lock_held :: "locks \<Rightarrow> time \<Rightarrow> string \<Rightarrow> string \<Rightarrow> bool" where
  "lock_held m now name w \<longleftrightarrow> (case m name of None \<Rightarrow> False | Some (holder, until) \<Rightarrow> holder = w \<and> now \<le> until)"

interpretation lock: timed_lock spec_ask lock_held "\<lambda>_. True"
proof unfold_locales
  show "lock_held (snd (spec_ask now r m)) until name w"
    if "lock_held m until name w" "now \<le> until" "r \<noteq> Release name w" "\<forall>ttl. r \<noteq> Hold name ttl w" for m until name w now r
    using that by (cases r) (auto simp: lock_held_def split: option.splits)
qed (auto simp: lock_held_def split: option.splits if_splits)


interpretation lease_table: timed_lock ask "\<lambda>t. lock_held (locks_of t)" lease_wf
proof
  fix t now r name ttl w w' until now' a b
  show "lease_wf (snd (ask now r t))" if "lease_wf t" using ask_refines [OF that] by simp
  show "a = b" if "lock_held (locks_of t) now name a" "lock_held (locks_of t) now name b" by (rule lock.one_holder [OF TrueI that])
  show "lock_held (locks_of (snd (ask now (Hold name ttl w) t))) (now + seconds ttl) name w"
    if "lease_wf t" "fst (ask now (Hold name ttl w) t)" "0 \<le> ttl"
    using ask_refines [OF that(1), of now "Hold name ttl w"] lock.granted [OF TrueI _ that(3), of now name w "locks_of t"] that(2) by simp
  show "lock_held (locks_of t) now' name w" if "lock_held (locks_of t) now name w" "now' \<le> now" by (rule lock.ends [OF that])
  show "lock_held (locks_of (snd (ask now r t))) until name w"
    if "lease_wf t" "lock_held (locks_of t) until name w" "now \<le> until" "r \<noteq> Release name w" "\<forall>ttl. r \<noteq> Hold name ttl w"
    using ask_refines [OF that(1), of now r] lock.kept [OF TrueI that(2-5)] by simp
  show "\<not> fst (ask now (Hold name ttl w') t)" if "lease_wf t" "lock_held (locks_of t) now name w" "w' \<noteq> w"
    using ask_refines [OF that(1), of now "Hold name ttl w'"] lock.refused [OF TrueI that(2,3)] by simp
qed

subsection \<open>Tickets\<close>

record ticket =
  tk_hash :: string
  tk_user_id :: string
  tk_target :: string
  tk_expires_at :: time

definition TICKET_TTL :: int where "TICKET_TTL = 30"

definition create_ticket :: "string \<Rightarrow> string \<Rightarrow> string \<Rightarrow> time \<Rightarrow> ticket tbl \<Rightarrow> ticket tbl" where
  "create_ticket h user_id target expires_at t = t @ [\<lparr>tk_hash = h, tk_user_id = user_id, tk_target = target, tk_expires_at = expires_at\<rparr>]"

definition purge_tickets :: "time \<Rightarrow> ticket tbl \<Rightarrow> ticket tbl" where
  "purge_tickets now t = delete_where (\<lambda>k. tk_expires_at k \<le> now) t"

definition redeem_ticket :: "string \<Rightarrow> ticket tbl \<Rightarrow> ticket option \<times> ticket tbl" where
  "redeem_ticket h t = (find_row (\<lambda>k. tk_hash k = h) t, delete_where (\<lambda>k. tk_hash k = h) t)"

text \<open>The digest \<open>_hash\<close> is a parameter, and the new ticket an argument: \<open>secrets.token_urlsafe\<close> draws it.\<close>

definition issue :: "(string \<Rightarrow> string) \<Rightarrow> time \<Rightarrow> string \<Rightarrow> string \<Rightarrow> string \<Rightarrow> ticket tbl \<Rightarrow> string \<times> ticket tbl" where
  "issue hash now ticket user_id target t =
     (ticket, create_ticket (hash ticket) user_id target (stamp now TICKET_TTL) (purge_tickets now t))"

definition redeem :: "(string \<Rightarrow> string) \<Rightarrow> time \<Rightarrow> string \<Rightarrow> string \<Rightarrow> ticket tbl \<Rightarrow> string option \<times> ticket tbl" where
  "redeem hash now ticket target t =
     (let (row, t') = redeem_ticket (hash ticket) t
      in (case row of None \<Rightarrow> None | Some k \<Rightarrow> if tk_target k \<noteq> target \<or> tk_expires_at k \<le> stamp now 0 then None else Some (tk_user_id k), t'))"

datatype ticket_request = Issue string string string | Redeem string string

fun ticket_step :: "(string \<Rightarrow> string) \<Rightarrow> time \<Rightarrow> ticket_request \<Rightarrow> ticket tbl \<Rightarrow> string option \<times> ticket tbl" where
  "ticket_step hash now (Issue ticket user_id target) t = (None, snd (issue hash now ticket user_id target t))"
| "ticket_step hash now (Redeem ticket target) t = redeem hash now ticket target t"

fun ticket_steps :: "(string \<Rightarrow> string) \<Rightarrow> (time \<times> ticket_request) list \<Rightarrow> ticket tbl \<Rightarrow> string option list \<times> ticket tbl" where
  "ticket_steps hash [] t = ([], t)"
| "ticket_steps hash ((now, r) # rs) t =
     (let (x, t') = ticket_step hash now r t; (xs, t'') = ticket_steps hash rs t' in (x # xs, t''))"

text \<open>Requests that leave the ticket with digest \<open>h\<close> alone.\<close>

definition leaves_ticket :: "(string \<Rightarrow> string) \<Rightarrow> string \<Rightarrow> ticket_request \<Rightarrow> bool" where
  "leaves_ticket hash h r \<longleftrightarrow> (case r of Issue k _ _ \<Rightarrow> hash k \<noteq> h | Redeem k _ \<Rightarrow> hash k \<noteq> h)"

lemma find_delete_other: "(\<And>r. p r \<Longrightarrow> q r \<Longrightarrow> False) \<Longrightarrow> find_row p (delete_where q t) = find_row p t"
  by (induction t) (auto simp: delete_where_def)

lemma steps_keep_live:
  assumes "find_row (\<lambda>k. tk_hash k = h) t = Some k" and "\<forall>(now, r) \<in> set rs. leaves_ticket hash h r \<and> now < tk_expires_at k"
  shows "find_row (\<lambda>k. tk_hash k = h) (snd (ticket_steps hash rs t)) = Some k"
  using assms
proof (induction rs arbitrary: t)
  case (Cons nr rs)
  obtain now r where nr: "nr = (now, r)" by fastforce
  have "find_row (\<lambda>k. tk_hash k = h) (purge_tickets now t) = Some k" if "now < tk_expires_at k" for now
    using Cons.prems(1) that by (induction t) (auto simp: purge_tickets_def delete_where_def split: if_splits)
  then have "find_row (\<lambda>k. tk_hash k = h) (snd (ticket_step hash now r t)) = Some k"
    using Cons.prems nr
    by (cases r) (auto simp: leaves_ticket_def issue_def create_ticket_def find_row_append redeem_def redeem_ticket_def find_delete_other Let_def)
  then show ?case using Cons.IH Cons.prems(2) by (simp add: nr Let_def split_beta)
qed simp

lemma steps_keep_spent:
  assumes "find_row (\<lambda>k. tk_hash k = h) t = None" and "\<forall>(now, r) \<in> set rs. \<forall>k u g. r = Issue k u g \<longrightarrow> hash k \<noteq> h"
  shows "find_row (\<lambda>k. tk_hash k = h) (snd (ticket_steps hash rs t)) = None"
  using assms
proof (induction rs arbitrary: t)
  case (Cons nr rs)
  obtain now r where nr: "nr = (now, r)" by fastforce
  have "find_row (\<lambda>k. tk_hash k = h) (delete_where q t) = None" for q
    using Cons.prems(1) by (induction t) (auto simp: delete_where_def split: if_splits)
  then have "find_row (\<lambda>k. tk_hash k = h) (snd (ticket_step hash now r t)) = None"
    using Cons.prems nr
    by (cases r) (auto simp: issue_def create_ticket_def purge_tickets_def find_row_append redeem_def redeem_ticket_def Let_def)
  then show ?case using Cons.IH Cons.prems(2) by (simp add: nr Let_def split_beta)
qed simp

subsection \<open>Properties\<close>

text \<open>
  C5. The lease table implements a lock that frees itself: to every sequence of requests it gives the answers of the lock, and its rows
  stand for the lock's state. So once a process is told it holds a lease, nobody else is told so before its term is
  over, unless it has renewed or released it.
\<close>

theorem lease_table_is_a_lock:
  assumes "lease_wf t"
  shows "fst (serve ask rs t) = fst (serve spec_ask rs (locks_of t)) \<and> locks_of (snd (serve ask rs t)) = snd (serve spec_ask rs (locks_of t)) \<and>
    (\<forall>t0 name ttl w n ttl' w'. fst (ask t0 (Hold name ttl w) t) \<and> 0 \<le> ttl \<and>
       (\<forall>(now, r) \<in> set rs. now \<le> t0 + seconds ttl \<and> r \<noteq> Release name w \<and> (\<forall>k. r \<noteq> Hold name k w)) \<and>
       n < length rs \<and> snd (rs ! n) = Hold name ttl' w' \<longrightarrow> \<not> fst (serve ask rs (snd (ask t0 (Hold name ttl w) t))) ! n)"
proof -
  have "\<not> fst (serve ask rs (snd (ask t0 (Hold name ttl w) t))) ! n"
    if "fst (ask t0 (Hold name ttl w) t)" "0 \<le> ttl" "\<forall>(now, r) \<in> set rs. now \<le> t0 + seconds ttl \<and> r \<noteq> Release name w \<and> (\<forall>k. r \<noteq> Hold name k w)"
      "n < length rs" "snd (rs ! n) = Hold name ttl' w'" for t0 name ttl w n ttl' w'
    by (rule lease_table.exclusive(2) [OF assms that])
  with serve_refines [OF assms, of rs] show ?thesis by blast
qed

text \<open>
  C20. A ticket works once: until it expires, whoever redeems it for its target gets the user it was issued to, whatever other
  tickets do meanwhile; for another target they get nobody; and after the first use, right or wrong, nobody gets anything.
\<close>

theorem ticket_works_once:
  assumes "find_row (\<lambda>k. tk_hash k = hash ticket) t = None" and "\<forall>(now, r) \<in> set rs. leaves_ticket hash (hash ticket) r \<and> now < stamp t0 TICKET_TTL"
    and "now < stamp t0 TICKET_TTL" and "\<forall>(now, r) \<in> set rs'. \<forall>k u g. r = Issue k u g \<longrightarrow> hash k \<noteq> hash ticket"
  shows "let t1 = snd (ticket_steps hash rs (snd (issue hash t0 ticket user_id target t)));
             t2 = snd (redeem hash now ticket wanted t1); t3 = snd (ticket_steps hash rs' t2)
         in fst (redeem hash now ticket wanted t1) = (if wanted = target then Some user_id else None) \<and> fst (redeem hash later ticket target t3) = None"
proof -
  let ?k = "\<lparr>tk_hash = hash ticket, tk_user_id = user_id, tk_target = target, tk_expires_at = stamp t0 TICKET_TTL\<rparr>"
  define t1 where "t1 = snd (ticket_steps hash rs (snd (issue hash t0 ticket user_id target t)))"
  have "find_row (\<lambda>k. tk_hash k = hash ticket) (purge_tickets t0 t) = None"
    using assms(1) by (auto simp: purge_tickets_def find_row_def find_None_iff set_delete_where)
  then have "find_row (\<lambda>k. tk_hash k = hash ticket) (snd (issue hash t0 ticket user_id target t)) = Some ?k"
    by (simp add: issue_def create_ticket_def find_row_append)
  then have l: "find_row (\<lambda>k. tk_hash k = hash ticket) t1 = Some ?k"
    unfolding t1_def by (rule steps_keep_live) (use assms(2) in simp)
  have "find_row (\<lambda>k. tk_hash k = hash ticket) (snd (redeem hash now ticket wanted t1)) = None"
    by (auto simp: redeem_def redeem_ticket_def Let_def find_row_def find_None_iff set_delete_where)
  then have "find_row (\<lambda>k. tk_hash k = hash ticket) (snd (ticket_steps hash rs' (snd (redeem hash now ticket wanted t1)))) = None"
    by (rule steps_keep_spent) (rule assms(4))
  moreover have "fst (redeem hash now ticket wanted t1) = (if wanted = target then Some user_id else None)"
    using l assms(3) by (simp add: redeem_def redeem_ticket_def stamp_def)
  ultimately show ?thesis unfolding Let_def t1_def by (simp add: redeem_def redeem_ticket_def)
qed

subsection \<open>Witnesses\<close>

definition demo_lease_requests :: "(time \<times> lease_request) list" where
  "demo_lease_requests = [(seconds 5, Hold ''expire'' 180 ''b''), (seconds 6, Release ''expire'' ''b''), (seconds 7, Hold ''expire'' 180 ''c'')]"

theorem lease_table_is_a_lock_witness:
  "lease_wf [] \<and> fst (ask 0 (Hold ''expire'' 180 ''a'') []) \<and> \<not> fst (serve ask demo_lease_requests (snd (ask 0 (Hold ''expire'' 180 ''a'') []))) ! 2"
proof -
  have h: "lease_wf []" by (simp add: lease_wf_def)
  have g: "fst (ask 0 (Hold ''expire'' 180 ''a'') [])" by code_simp
  have r: "\<forall>(now, r) \<in> set demo_lease_requests. now \<le> 0 + seconds 180 \<and> r \<noteq> Release ''expire'' ''a'' \<and> (\<forall>k. r \<noteq> Hold ''expire'' k ''a'')"
    by (simp add: demo_lease_requests_def seconds_def)
  have n: "2 < length demo_lease_requests" "snd (demo_lease_requests ! 2) = Hold ''expire'' 180 ''c''" by (simp_all add: demo_lease_requests_def)
  have "0 \<le> (180 :: int)" by simp
  with lease_table_is_a_lock [OF h, of demo_lease_requests] h g r n show ?thesis by blast
qed

theorem ticket_works_once_witness:
  "fst (redeem id 5 ''k1'' ''s1'' (snd (issue id 0 ''k1'' ''u1'' ''s1'' []))) = Some ''u1''"
  using ticket_works_once [of id "''k1''" "[]" "[]" 0 5 "[]" "''u1''" "''s1''" "''s1''"] by (simp add: stamp_def TICKET_TTL_def seconds_def Let_def)

end
