(* ===== verification/Pages.thy ===== *)
theory Pages
  imports Access
begin

section \<open>Pages of a list\<close>

text \<open>
  \<open>apps/server/pages.py\<close>: lists come in pages, newest first, each with a cursor for the next. A cursor is the \<open>(created_at, id)\<close>
  of the last row of the page, here that pair itself and not its base64 text. \<open>collect\<close> is a loop over the
  caller's query; \<open>None\<close> is a loop that does not end. The route that uses it here is the list of sandboxes.
\<close>

subsection \<open>Collecting a page\<close>

definition MAX_LIMIT :: nat where "MAX_LIMIT = 200"

record 'k params =
  pg_limit :: nat
  pg_cursor :: "'k option"

definition params_ok :: "'k params \<Rightarrow> bool" where
  "params_ok p \<longleftrightarrow> 1 \<le> pg_limit p \<and> pg_limit p \<le> MAX_LIMIT"

text \<open>The inner loop: the kept rows of a batch are appended until there is one more than the page takes.\<close>

fun scan :: "('r \<Rightarrow> bool) \<Rightarrow> nat \<Rightarrow> 'r list \<Rightarrow> 'r list \<Rightarrow> 'r list + 'r list" where
  "scan keep limit [] found = Inr found"
| "scan keep limit (r # rs) found =
     (if keep r then (if length (found @ [r]) > limit then Inl (found @ [r]) else scan keep limit rs (found @ [r]))
      else scan keep limit rs found)"

partial_function (option) collect_from :: "('k option \<Rightarrow> nat \<Rightarrow> 'r list) \<Rightarrow> ('r \<Rightarrow> bool) \<Rightarrow> ('r \<Rightarrow> 'k) \<Rightarrow> nat \<Rightarrow> 'k option \<Rightarrow> 'r list \<Rightarrow>
    ('r list \<times> 'k option) option" where
  "collect_from fetch keep key limit before found =
     (case scan keep limit (fetch before (limit + 1)) found of
        Inl page \<Rightarrow> Some (take limit page, Some (key (page ! (limit - 1))))
      | Inr page \<Rightarrow>
          if length (fetch before (limit + 1)) < limit + 1 then Some (page, None)
          else collect_from fetch keep key limit (Some (key (last (fetch before (limit + 1))))) page)"

declare collect_from.simps [code]

definition collect :: "('k option \<Rightarrow> nat \<Rightarrow> 'r list) \<Rightarrow> ('r \<Rightarrow> bool) \<Rightarrow> ('r \<Rightarrow> 'k) \<Rightarrow> 'k params \<Rightarrow> ('r list \<times> 'k option) option" where
  "collect fetch keep key params = collect_from fetch keep key (pg_limit params) (pg_cursor params) []"

subsection \<open>What is collected\<close>

definition below :: "'k::linorder option \<Rightarrow> 'k \<Rightarrow> bool" where
  "below before k = (case before of None \<Rightarrow> True | Some b \<Rightarrow> k < b)"

text \<open>
  A query that gives the first \<open>n\<close> rows below a key, of rows in strictly falling order of their keys. The page that \<open>collect\<close> makes of it
  is the beginning of the rows that are kept, however many batches it took.
\<close>

locale keyset =
  fixes fetch :: "'k::linorder option \<Rightarrow> nat \<Rightarrow> 'r list" and key :: "'r \<Rightarrow> 'k" and rows :: "'r list" and ok :: bool
  assumes falling: "ok \<Longrightarrow> sorted_wrt (\<lambda>a b. key b < key a) rows"
    and fetched: "fetch before n = take n (filter (\<lambda>r. below before (key r)) rows)"
begin

lemma scan_spec:
  "length found \<le> limit \<Longrightarrow> scan keep limit rs found =
     (if length (found @ filter keep rs) > limit then Inl (take (Suc limit) (found @ filter keep rs)) else Inr (found @ filter keep rs))"
proof (induction rs arbitrary: found)
  case (Cons r rs)
  show ?case
  proof (cases "keep r \<and> length found = limit")
    case False
    then show ?thesis using Cons.IH [of "found @ [r]"] Cons.IH [of found] Cons.prems by auto
  qed simp
qed simp

text \<open>The rows below the last of the first \<open>n\<close> are the rest.\<close>

lemma rest_below:
  assumes "sorted_wrt (\<lambda>a b. key b < key a) xs" and "n < length xs"
  shows "filter (\<lambda>r. key r < key (xs ! n)) xs = drop (Suc n) xs"
  using assms
proof (induction xs arbitrary: n)
  case (Cons x xs)
  show ?case
  proof (cases n)
    case 0
    then show ?thesis using Cons.prems by (auto simp: filter_id_conv)
  next
    case (Suc m)
    then have "key (xs ! m) < key x" "m < length xs" using Cons.prems by auto
    with Suc Cons show ?thesis by (auto dest: order.asym)
  qed
qed simp

lemma filter_below_below:
  assumes "below before (key r0)"
  shows "filter (\<lambda>r. below (Some (key r0)) (key r)) rows = filter (\<lambda>r. key r < key r0) (filter (\<lambda>r. below before (key r)) rows)"
  using assms by (auto simp: below_def filter_filter split: option.splits intro!: filter_cong)

lemma next_batch:
  assumes ok and "n < length (filter (\<lambda>r. below before (key r)) rows)"
  shows "filter (\<lambda>r. below (Some (key (filter (\<lambda>r. below before (key r)) rows ! n))) (key r)) rows = drop (Suc n) (filter (\<lambda>r. below before (key r)) rows)"
proof -
  let ?xs = "filter (\<lambda>r. below before (key r)) rows"
  have "?xs ! n \<in> set ?xs" using assms(2) by (rule nth_mem)
  then have b: "below before (key (?xs ! n))" by simp
  have "sorted_wrt (\<lambda>a b. key b < key a) ?xs" using falling [OF assms(1)] by (rule sorted_wrt_filter)
  from rest_below [OF this assms(2)] filter_below_below [OF b] show ?thesis by simp
qed

lemma filter_take_drop: "filter keep (take n xs) @ filter keep (drop n xs) = filter keep xs"
  by (simp flip: filter_append)

lemma collect_from_spec:
  assumes ok and "length found \<le> limit"
  shows "collect_from fetch keep key limit before found =
    (let all = found @ filter keep (filter (\<lambda>r. below before (key r)) rows)
     in Some (if length all > limit then (take limit all, Some (key (all ! (limit - 1)))) else (all, None)))"
  using assms(2)
proof (induction "length (filter (\<lambda>r. below before (key r)) rows)" arbitrary: before found rule: less_induct)
  case less
  let ?xs = "filter (\<lambda>r. below before (key r)) rows"
  have f: "fetch before (limit + 1) = take (Suc limit) ?xs" by (simp add: fetched)
  show ?case
  proof (cases "length (found @ filter keep (take (Suc limit) ?xs)) > limit \<or> length ?xs \<le> limit")
    case True
    show ?thesis
    proof (cases "length (found @ filter keep (take (Suc limit) ?xs)) > limit")
      case early: True
      have pre: "found @ filter keep ?xs = (found @ filter keep (take (Suc limit) ?xs)) @ filter keep (drop (Suc limit) ?xs)"
        by (simp only: append_assoc filter_take_drop)
      define a where "a = found @ filter keep (take (Suc limit) ?xs)"
      have l: "length a > limit" using early by (simp only: a_def)
      have "take limit (a @ d) = take limit (take (Suc limit) a)" "length (a @ d) > limit" "(a @ d) ! (limit - 1) = take (Suc limit) a ! (limit - 1)" for d
        using l by (auto simp: nth_append)
      then show ?thesis
        using l unfolding collect_from.simps [of fetch keep key limit before found] f scan_spec [OF less.prems] Let_def pre a_def [symmetric]
        by (simp only: if_True sum.case option.case prod.case)
    next
      case False
      with True have "length ?xs \<le> limit" by simp
      then show ?thesis
        using False unfolding collect_from.simps [of fetch keep key limit before found] f scan_spec [OF less.prems] Let_def by simp
    qed
  next
    case False
    let ?b = "Some (key (?xs ! limit))" and ?found = "found @ filter keep (take (Suc limit) ?xs)"
    have n: "limit < length ?xs" using False by simp
    have l: "last (take (Suc limit) ?xs) = ?xs ! limit" using n by (simp add: take_Suc_conv_app_nth)
    have nb: "filter (\<lambda>r. below ?b (key r)) rows = drop (Suc limit) ?xs" by (rule next_batch [OF assms(1) n])
    have "length (filter (\<lambda>r. below ?b (key r)) rows) < length ?xs" unfolding nb using n by simp
    then have "collect_from fetch keep key limit ?b ?found =
        (let all = ?found @ filter keep (filter (\<lambda>r. below ?b (key r)) rows)
         in Some (if length all > limit then (take limit all, Some (key (all ! (limit - 1)))) else (all, None)))"
      by (rule less.hyps) (use False in simp)
    moreover have "?found @ filter keep (drop (Suc limit) ?xs) = found @ filter keep ?xs"
      by (simp only: append_assoc filter_take_drop)
    moreover have "collect_from fetch keep key limit before found = collect_from fetch keep key limit ?b ?found"
      using False n l unfolding collect_from.simps [of fetch keep key limit before found] f scan_spec [OF less.prems] by simp
    ultimately show ?thesis by (simp only: nb)
  qed
qed

lemma collect_spec:
  "ok \<Longrightarrow> collect fetch keep key \<lparr>pg_limit = limit, pg_cursor = before\<rparr> =
    (let all = filter keep (filter (\<lambda>r. below before (key r)) rows)
     in Some (if length all > limit then (take limit all, Some (key (all ! (limit - 1)))) else (all, None)))"
  unfolding collect_def by (simp add: collect_from_spec)

end

text \<open>Following the cursors, at most \<open>n\<close> pages.\<close>

fun all_pages :: "('k option \<Rightarrow> ('r list \<times> 'k option) option) \<Rightarrow> nat \<Rightarrow> 'k option \<Rightarrow> 'r list list option" where
  "all_pages page 0 before = None"
| "all_pages page (Suc n) before =
     (case page before of
        None \<Rightarrow> None
      | Some (rs, None) \<Rightarrow> Some [rs]
      | Some (rs, Some k) \<Rightarrow> map_option (\<lambda>ps. rs # ps) (all_pages page n (Some k)))"

context keyset
begin

lemma kept_below:
  assumes ok and "n < length (filter keep (filter (\<lambda>r. below before (key r)) rows))"
  shows "filter keep (filter (\<lambda>r. below (Some (key (filter keep (filter (\<lambda>r. below before (key r)) rows) ! n))) (key r)) rows) =
    drop (Suc n) (filter keep (filter (\<lambda>r. below before (key r)) rows))"
proof -
  let ?xs = "filter (\<lambda>r. below before (key r)) rows"
  let ?k = "filter keep ?xs ! n"
  have "?k \<in> set (filter keep ?xs)" using assms(2) by (rule nth_mem)
  then have b: "below before (key ?k)" by simp
  have "sorted_wrt (\<lambda>a b. key b < key a) (filter keep ?xs)" by (intro sorted_wrt_filter falling assms(1))
  from rest_below [OF this assms(2)] show ?thesis
    unfolding filter_below_below [OF b] by (simp add: filter_filter conj_ac)
qed

lemma all_pages_concat:
  assumes ok and "0 < limit" and "length (filter keep (filter (\<lambda>r. below before (key r)) rows)) < n"
  shows "\<exists>ps. all_pages (\<lambda>c. collect fetch keep key \<lparr>pg_limit = limit, pg_cursor = c\<rparr>) n before = Some ps \<and>
    concat ps = filter keep (filter (\<lambda>r. below before (key r)) rows) \<and> (\<forall>p \<in> set ps. length p \<le> limit)"
  using assms(3)
proof (induction n arbitrary: before)
  case (Suc n)
  let ?all = "filter keep (filter (\<lambda>r. below before (key r)) rows)"
  show ?case
  proof (cases "length ?all > limit")
    case True
    let ?k = "Some (key (?all ! (limit - 1)))"
    have r: "filter keep (filter (\<lambda>r. below ?k (key r)) rows) = drop limit ?all"
      using kept_below [OF assms(1), of "limit - 1" keep before] True assms(2) by simp
    have "length (drop limit ?all) < n" using Suc.prems True assms(2) by (simp only: length_drop)
    from Suc.IH [of ?k, unfolded r, OF this]
    obtain ps where ps: "all_pages (\<lambda>c. collect fetch keep key \<lparr>pg_limit = limit, pg_cursor = c\<rparr>) n ?k = Some ps"
      "concat ps = drop limit ?all" "\<forall>p \<in> set ps. length p \<le> limit" by blast
    have "concat (take limit ?all # ps) = ?all" "\<forall>p \<in> set (take limit ?all # ps). length p \<le> limit" using ps(2,3) by auto
    moreover have "all_pages (\<lambda>c. collect fetch keep key \<lparr>pg_limit = limit, pg_cursor = c\<rparr>) (Suc n) before = Some (take limit ?all # ps)"
      using True ps(1) by (simp only: all_pages.simps collect_spec [OF assms(1)] Let_def if_True option.simps prod.simps)
    ultimately show ?thesis by blast
  next
    case False
    then show ?thesis by (simp add: collect_spec [OF assms(1)])
  qed
qed simp

end

subsection \<open>The list of sandboxes\<close>

definition page_sandboxes :: "sandbox tbl \<Rightarrow> string \<Rightarrow> (time \<times> string) option \<Rightarrow> nat \<Rightarrow> sandbox list" where
  "page_sandboxes t workspace_id before row_limit =
     take row_limit (rev (sort_key (\<lambda>s. (s_created_at s, s_id s))
       (filter (\<lambda>s. s_workspace_id s = workspace_id \<and> s_deleted_at s = None \<and> below before (s_created_at s, s_id s)) t)))"

definition listed_labels :: "member \<Rightarrow> 'h zoo \<Rightarrow> string \<Rightarrow> labels" where
  "listed_labels u z i =
     (case dict_get (labels_of_workspace (sbs z) (w_labels (q_world z)) (mb_workspace_id u)) i of None \<Rightarrow> [] | Some ls \<Rightarrow> ls)"

definition listed :: "labels \<Rightarrow> member \<Rightarrow> 'h zoo \<Rightarrow> sandbox \<Rightarrow> bool" where
  "listed wanted u z s \<longleftrightarrow> (mb_key_sandbox_id u = None \<or> mb_key_sandbox_id u = Some (s_id s)) \<and>
     matches (listed_labels u z (s_id s)) (Some wanted) \<and> matches (listed_labels u z (s_id s)) (mb_key_labels u)"

definition list_sandboxes :: "images \<Rightarrow> string list \<Rightarrow> (time \<times> string) params \<Rightarrow> member \<Rightarrow> 'h zoo \<Rightarrow>
    (sandbox_view list \<times> (time \<times> string) option) option res" where
  "list_sandboxes im label page u z =
     bindr (parse_filters label) (\<lambda>wanted.
       Inr (map_option (\<lambda>(rs, after). (map (\<lambda>s. view im s (get_active_job (q_jobs z) (s_id s)) (listed_labels u z (s_id s))) rs, after))
         (collect (page_sandboxes (sbs z) (mb_workspace_id u)) (listed wanted u z) (\<lambda>s. (s_created_at s, s_id s)) page)))"

subsection \<open>The query is a keyset query\<close>

definition newest_first :: "('r \<Rightarrow> time \<times> string) \<Rightarrow> 'r list \<Rightarrow> 'r list" where
  "newest_first key rs = rev (sort_key key rs)"

lemma newest_first_falling: "distinct (map key rs) \<Longrightarrow> sorted_wrt (\<lambda>a b. key b < key a) (newest_first key rs)"
proof -
  assume d: "distinct (map key rs)"
  have "sorted_wrt (\<lambda>a b. a < b) (map key (sort_key key rs))"
    using d by (simp add: strict_sorted_iff distinct_map)
  then show ?thesis by (simp add: newest_first_def sorted_wrt_rev sorted_wrt_map)
qed

lemma newest_first_filter: "filter p (newest_first key rs) = newest_first key (filter p rs)"
  by (simp add: newest_first_def filter_sort flip: rev_filter)

text \<open>The rows of such a query are told apart by their id.\<close>

lemma keyset_query:
  assumes "\<And>r. key r = (at' r, i r)"
  shows "keyset (\<lambda>before n. take n (newest_first key (filter (\<lambda>r. p r \<and> below before (key r)) rs))) key (newest_first key (filter p rs)) (distinct (map i rs))"
proof
  assume "distinct (map i rs)"
  then have "inj_on key (set rs)" "distinct rs" using assms by (auto simp: distinct_map inj_on_def)
  then have "distinct (map key (filter p rs))" by (auto simp: distinct_map inj_on_def)
  then show "sorted_wrt (\<lambda>a b. key b < key a) (newest_first key (filter p rs))" by (rule newest_first_falling)
next
  show "take n (newest_first key (filter (\<lambda>r. p r \<and> below before (key r)) rs)) = take n (filter (\<lambda>r. below before (key r)) (newest_first key (filter p rs)))" for before n
    by (simp add: newest_first_filter filter_filter conj_ac)
qed

definition own_sandboxes :: "string \<Rightarrow> sandbox tbl \<Rightarrow> sandbox list" where
  "own_sandboxes workspace_id t = newest_first (\<lambda>s. (s_created_at s, s_id s)) (filter (\<lambda>s. s_workspace_id s = workspace_id \<and> s_deleted_at s = None) t)"

interpretation sandbox_pages: keyset "page_sandboxes t workspace_id" "\<lambda>s. (s_created_at s, s_id s)" "own_sandboxes workspace_id t" "distinct (map s_id t)"
  for t workspace_id
proof -
  have "page_sandboxes t workspace_id = (\<lambda>before n. take n (newest_first (\<lambda>s. (s_created_at s, s_id s))
      (filter (\<lambda>s. (s_workspace_id s = workspace_id \<and> s_deleted_at s = None) \<and> below before (s_created_at s, s_id s)) t)))"
    by (simp add: page_sandboxes_def newest_first_def fun_eq_iff)
  then show "keyset (page_sandboxes t workspace_id) (\<lambda>s. (s_created_at s, s_id s)) (own_sandboxes workspace_id t) (distinct (map s_id t))"
    unfolding own_sandboxes_def by (simp only:) (rule keyset_query, rule refl)
qed

subsection \<open>Properties\<close>

text \<open>The pages of \<open>GET /sandboxes\<close>, from the first on, following the cursors.\<close>

definition sandbox_listing :: "images \<Rightarrow> string list \<Rightarrow> nat \<Rightarrow> member \<Rightarrow> 'h zoo \<Rightarrow> nat \<Rightarrow> sandbox_view list list option" where
  "sandbox_listing im label limit u z n =
     all_pages (\<lambda>c. case list_sandboxes im label \<lparr>pg_limit = limit, pg_cursor = c\<rparr> u z of Inl e \<Rightarrow> None | Inr p \<Rightarrow> p) n None"

lemma all_pages_map:
  "all_pages (\<lambda>c. map_option (\<lambda>(rs, after). (map f rs, after)) (page c)) n before = map_option (map (map f)) (all_pages page n before)"
  by (induction n arbitrary: before) (auto simp: option.map_comp comp_def split: option.splits prod.splits)

text \<open>
  C8. Every page of the sandboxes comes, and together the pages are the list: following the cursors of \<open>GET /sandboxes\<close>, with any size of page the route takes,
  label filter and key, ends, and the pages one after the other are the sandboxes of the workspace that the caller's
  key reaches and the filter matches, newest first, each once; no page is longer than asked for.
\<close>

theorem pages_are_the_list:
  assumes "distinct (map s_id (sbs z))" and "parse_filters label = Inr wanted" and "params_ok \<lparr>pg_limit = limit, pg_cursor = None :: (time \<times> string) option\<rparr>" and "length (sbs z) < n"
  shows "\<exists>ps. sandbox_listing im label limit u z n = Some ps \<and> (\<forall>p \<in> set ps. length p \<le> limit) \<and>
    concat ps = map (\<lambda>s. view im s (get_active_job (q_jobs z) (s_id s)) (listed_labels u z (s_id s)))
      (newest_first (\<lambda>s. (s_created_at s, s_id s))
        (filter (\<lambda>s. s_workspace_id s = mb_workspace_id u \<and> s_deleted_at s = None \<and> listed wanted u z s) (sbs z)))"
proof -
  let ?key = "\<lambda>s. (s_created_at s, s_id s)" and ?own = "own_sandboxes (mb_workspace_id u) (sbs z)"
  let ?v = "\<lambda>s. view im s (get_active_job (q_jobs z) (s_id s)) (listed_labels u z (s_id s))"
  have all: "filter (\<lambda>r. below None (?key r)) ?own = ?own" by (simp add: below_def)
  have "length ?own \<le> length (sbs z)" by (simp add: own_sandboxes_def newest_first_def)
  then have "length (filter (listed wanted u z) ?own) < n" using assms(4) length_filter_le [of "listed wanted u z" ?own] by linarith
  then obtain ps where ps: "all_pages (\<lambda>c. collect (page_sandboxes (sbs z) (mb_workspace_id u)) (listed wanted u z) ?key \<lparr>pg_limit = limit, pg_cursor = c\<rparr>) n None = Some ps"
      "concat ps = filter (listed wanted u z) ?own" "\<forall>p \<in> set ps. length p \<le> limit"
    using sandbox_pages.all_pages_concat [OF assms(1), where limit = limit and keep = "listed wanted u z" and workspace_id = "mb_workspace_id u" and before = None and n = n] assms(3)
    unfolding all by (auto simp: params_ok_def)
  have "sandbox_listing im label limit u z n = Some (map (map ?v) ps)"
    using ps(1) by (simp add: sandbox_listing_def list_sandboxes_def assms(2) all_pages_map)
  moreover have "filter (listed wanted u z) ?own = newest_first ?key
      (filter (\<lambda>s. s_workspace_id s = mb_workspace_id u \<and> s_deleted_at s = None \<and> listed wanted u z s) (sbs z))"
    by (simp add: own_sandboxes_def newest_first_filter filter_filter conj_ac)
  ultimately show ?thesis using ps(2,3) by (simp add: map_concat [symmetric])
qed

definition paged_images :: images where
  "paged_images = \<lparr>image_desktop = ''zoo-sandbox'', image_browser = ''zoo-sandbox-browser'', image_code = ''zoo-sandbox-code''\<rparr>"

definition paged_zoo :: "unit zoo" where
  "paged_zoo = demo_zoo\<lparr>q_world := (q_world demo_zoo)\<lparr>w_sandboxes :=
     [demo_sandbox, demo_sandbox\<lparr>s_id := ''s2'', s_created_at := 9\<rparr>, demo_sandbox\<lparr>s_id := ''s3'', s_created_at := 4\<rparr>]\<rparr>\<rparr>"

theorem pages_are_the_list_witness:
  "distinct (map s_id (sbs paged_zoo)) \<and>
   (\<exists>ps. sandbox_listing paged_images [] 1 (demo_key_member\<lparr>mb_key_sandbox_id := None\<rparr>) paged_zoo 4 = Some ps \<and> map s_id (sbs paged_zoo) = [''s1'', ''s2'', ''s3''] \<and>
     concat ps = map (\<lambda>s. view paged_images s (get_active_job (q_jobs paged_zoo) (s_id s)) (listed_labels (demo_key_member\<lparr>mb_key_sandbox_id := None\<rparr>) paged_zoo (s_id s)))
      (newest_first (\<lambda>s. (s_created_at s, s_id s))
        (filter (\<lambda>s. s_workspace_id s = mb_workspace_id demo_key_member \<and> s_deleted_at s = None \<and>
           listed [] (demo_key_member\<lparr>mb_key_sandbox_id := None\<rparr>) paged_zoo s) (sbs paged_zoo))))"
proof -
  have ids: "map s_id (sbs paged_zoo) = [''s1'', ''s2'', ''s3'']"
    by (simp add: paged_zoo_def demo_zoo_defs)
  have n: "length (sbs paged_zoo) < 4" by (simp add: paged_zoo_def demo_zoo_defs)
  have d: "distinct (map s_id (sbs paged_zoo))" unfolding ids by simp
  have f: "parse_filters [] = Inr []" by (simp add: parse_filters_def)
  from pages_are_the_list [OF d f _ n, of 1 paged_images "demo_key_member\<lparr>mb_key_sandbox_id := None\<rparr>"]
  show ?thesis using d ids by (auto simp: params_ok_def MAX_LIMIT_def)
qed

end
