(* ===== verification/Events.thy ===== *)
theory Events
  imports Access
begin

section \<open>Events\<close>

text \<open>
  \<open>apps/server/events.py\<close>: the events of a workspace, in pages and as a stream. A stream reads the table again and again
  while other transactions commit to it; a round of \<open>follow\<close> here takes the tables and the clock it finds, and the
  frames it has sent are kept in the state of the stream. Waiting for a notice and the text of a frame are left out: a round
  may come at any time.
\<close>

subsection \<open>The table\<close>

record event =
  e_id :: string
  e_seq :: int
  e_workspace_id :: string
  e_sandbox_id :: "string option"
  e_type :: string
  e_data :: json
  e_created_at :: time

definition event_of :: "string \<Rightarrow> string option \<Rightarrow> string option \<Rightarrow> event \<Rightarrow> bool" where
  "event_of workspace_id sandbox_id type e \<longleftrightarrow> e_workspace_id e = workspace_id \<and>
     (sandbox_id = None \<or> e_sandbox_id e = sandbox_id) \<and> (type = None \<or> Some (e_type e) = type)"

definition list_events :: "event tbl \<Rightarrow> string \<Rightarrow> int \<Rightarrow> string option \<Rightarrow> string option \<Rightarrow> nat \<Rightarrow> event list" where
  "list_events t workspace_id after_seq sandbox_id type row_limit =
     take row_limit (sort_key e_seq (filter (\<lambda>e. event_of workspace_id sandbox_id type e \<and> e_seq e > after_seq) t))"

definition list_late_events :: "event tbl \<Rightarrow> string \<Rightarrow> int \<Rightarrow> time \<Rightarrow> string option \<Rightarrow> string option \<Rightarrow> nat \<Rightarrow> event list" where
  "list_late_events t workspace_id upto_seq since sandbox_id type row_limit =
     take row_limit (sort_key e_seq
       (filter (\<lambda>e. event_of workspace_id sandbox_id type e \<and> e_seq e \<le> upto_seq \<and> e_created_at e \<ge> since) t))"

definition latest_event_seq :: "event tbl \<Rightarrow> string \<Rightarrow> int" where
  "latest_event_seq t workspace_id = (case map e_seq (filter (\<lambda>e. e_workspace_id e = workspace_id) t) of [] \<Rightarrow> 0 | q # qs \<Rightarrow> fold max qs q)"

definition purge_events :: "time \<Rightarrow> event tbl \<Rightarrow> event tbl" where
  "purge_events created_at = delete_where (\<lambda>e. e_created_at e < created_at)"

subsection \<open>What a member may see\<close>

record scope =
  sc_user :: member
  sc_known :: "(string, labels) dict"

definition open_scope :: "member \<Rightarrow> scope" where
  "open_scope u = \<lparr>sc_user = u, sc_known = []\<rparr>"

definition allows :: "label_row tbl \<Rightarrow> event \<Rightarrow> scope \<Rightarrow> bool \<times> scope" where
  "allows lt e sc =
     (case mb_key_sandbox_id (sc_user sc) of
        Some i \<Rightarrow> (e_sandbox_id e = Some i, sc)
      | None \<Rightarrow>
          (case mb_key_labels (sc_user sc) of
             None \<Rightarrow> (True, sc)
           | Some sel \<Rightarrow>
               (case e_sandbox_id e of
                  None \<Rightarrow> (False, sc)
                | Some i \<Rightarrow>
                    let sc1 = (if dict_get (sc_known sc) i = None then sc\<lparr>sc_known := dict_set i (labels_of lt i) (sc_known sc)\<rparr> else sc)
                    in (matches (the (dict_get (sc_known sc1) i)) (Some sel), sc1))))"

fun allowed_rows :: "label_row tbl \<Rightarrow> event list \<Rightarrow> scope \<Rightarrow> event list \<times> scope" where
  "allowed_rows lt [] sc = ([], sc)"
| "allowed_rows lt (e # es) sc =
     (case allows lt e sc of (ok, sc1) \<Rightarrow>
        case allowed_rows lt es sc1 of (rest, sc2) \<Rightarrow> (if ok then e # rest else rest, sc2))"

subsection \<open>Pages\<close>

definition PAGE :: nat where "PAGE = 200"
definition LATE_SECONDS :: int where "LATE_SECONDS = 60"

definition page :: "event tbl \<Rightarrow> label_row tbl \<Rightarrow> int \<Rightarrow> string option \<Rightarrow> string option \<Rightarrow> scope \<Rightarrow> (event list \<times> event list) \<times> scope" where
  "page t lt after sandbox_id type sc =
     (let rows = list_events t (mb_workspace_id (sc_user sc)) after sandbox_id type PAGE;
          (visible, sc1) = allowed_rows lt rows sc
      in ((rows, visible), sc1))"

definition late :: "time \<Rightarrow> event tbl \<Rightarrow> label_row tbl \<Rightarrow> int \<Rightarrow> string option \<Rightarrow> string option \<Rightarrow> scope \<Rightarrow> event list \<times> scope" where
  "late now t lt upto_seq sandbox_id type sc =
     allowed_rows lt (list_late_events t (mb_workspace_id (sc_user sc)) upto_seq (stamp now (- LATE_SECONDS)) sandbox_id type PAGE) sc"

definition furthest :: "int \<Rightarrow> event list \<Rightarrow> int" where
  "furthest after rows = fold max (map e_seq rows) after"

record event_view =
  ev_id :: string
  ev_seq :: int
  ev_type :: string
  ev_sandbox_id :: "string option"
  ev_data :: json
  ev_created_at :: time

definition event_response :: "event \<Rightarrow> event_view" where
  "event_response e = \<lparr>ev_id = e_id e, ev_seq = e_seq e, ev_type = e_type e, ev_sandbox_id = e_sandbox_id e,
     ev_data = e_data e, ev_created_at = e_created_at e\<rparr>"

definition list_events_route :: "event tbl \<Rightarrow> label_row tbl \<Rightarrow> int \<Rightarrow> string option \<Rightarrow> string option \<Rightarrow> member \<Rightarrow> event_view list \<times> int" where
  "list_events_route t lt after sandbox_id type u =
     (case page t lt after sandbox_id type (open_scope u) of ((rows, visible), _) \<Rightarrow> (map event_response visible, furthest after rows))"

subsection \<open>The stream\<close>

record stream =
  st_scope :: scope
  st_after :: int
  st_floor :: int
  st_sent :: "(int, time) dict"
  st_out :: "event list"

definition open_stream :: "member \<Rightarrow> int \<Rightarrow> stream" where
  "open_stream u after = \<lparr>st_scope = open_scope u, st_after = after, st_floor = after, st_sent = [], st_out = []\<rparr>"

definition frame_event :: "event \<Rightarrow> stream \<Rightarrow> stream" where
  "frame_event e st = st\<lparr>st_sent := dict_set (e_seq e) (e_created_at e) (st_sent st), st_out := st_out st @ [e]\<rparr>"

definition send_new :: "event \<Rightarrow> stream \<Rightarrow> stream" where
  "send_new e st = (if dict_get (st_sent st) (e_seq e) = None then frame_event e st else st)"

definition send_late :: "event \<Rightarrow> stream \<Rightarrow> stream" where
  "send_late e st = (if e_seq e > st_floor st \<and> dict_get (st_sent st) (e_seq e) = None then frame_event e st else st)"

text \<open>What a round finds: the clock when it reads and when it is done, and the tables.\<close>

record look =
  lk_now :: time
  lk_end :: time
  lk_events :: "event tbl"
  lk_labels :: "label_row tbl"

definition follow_round :: "string option \<Rightarrow> string option \<Rightarrow> look \<Rightarrow> stream \<Rightarrow> stream" where
  "follow_round sandbox_id type l st =
     (let (stragglers, sc1) = (if st_after st > st_floor st
            then late (lk_now l) (lk_events l) (lk_labels l) (st_after st) sandbox_id type (st_scope st) else ([], st_scope st));
          ((rows, visible), sc2) = page (lk_events l) (lk_labels l) (st_after st) sandbox_id type sc1;
          st1 = fold send_new visible (fold send_late stragglers st)
      in st1\<lparr>st_scope := sc2, st_after := furthest (st_after st) rows,
             st_sent := filter (\<lambda>(q, made). made \<ge> stamp (lk_end l) (- LATE_SECONDS)) (st_sent st1)\<rparr>)"

definition follow :: "string option \<Rightarrow> string option \<Rightarrow> member \<Rightarrow> int \<Rightarrow> look list \<Rightarrow> stream" where
  "follow sandbox_id type u after ls = fold (follow_round sandbox_id type) ls (open_stream u after)"

text \<open>\<open>str.isdigit\<close> and \<open>int\<close> of the text of a header, which is Latin-1: \<open>isdigit\<close> takes the superscript digits too.\<close>

definition is_digit :: "char \<Rightarrow> bool" where
  "is_digit c \<longleftrightarrow> (let n = of_char c :: nat in 48 \<le> n \<and> n \<le> 57 \<or> n = 178 \<or> n = 179 \<or> n = 185)"

definition py_int :: "string \<Rightarrow> int res" where
  "py_int s =
     (if \<not> list_all (\<lambda>c. 48 \<le> (of_char c :: nat) \<and> of_char c \<le> (57 :: nat)) s
      then Inl (ValueError (''invalid literal for int() with base 10: '' @ py_repr s))
      else Inr (fold (\<lambda>c n. 10 * n + (of_char c - 48)) s 0))"

definition stream_start :: "event tbl \<Rightarrow> string option \<Rightarrow> int option \<Rightarrow> member \<Rightarrow> int res" where
  "stream_start t last_event_id after u =
     (let other = (case after of Some n \<Rightarrow> n | None \<Rightarrow> latest_event_seq t (mb_workspace_id u))
      in case last_event_id of
           None \<Rightarrow> Inr other
         | Some h \<Rightarrow> if h \<noteq> [] \<and> list_all is_digit h then py_int h else Inr other)"

lemma superscript_header_raises: "\<exists>m. stream_start t (Some [char_of (178 :: nat)]) after u = Inl (ValueError m)"
  by (simp add: stream_start_def is_digit_def py_int_def)

subsection \<open>Sending\<close>

text \<open>
  The rows of the table never change and no two have the same \<open>seq\<close>, so a function of the \<open>seq\<close> gives every row that is ever in it.
\<close>

definition rows_of :: "(int \<Rightarrow> event) \<Rightarrow> event list \<Rightarrow> bool" where
  "rows_of row es \<longleftrightarrow> (\<forall>e \<in> set es. e = row (e_seq e))"

definition sender :: "(event \<Rightarrow> stream \<Rightarrow> stream) \<Rightarrow> bool" where
  "sender f \<longleftrightarrow> (\<forall>e st. f e st = st \<or> dict_get (st_sent st) (e_seq e) = None \<and> f e st = frame_event e st)"

lemma sender_send [simp]: "sender send_new" "sender send_late"
  by (auto simp: sender_def send_new_def send_late_def)

text \<open>What was sent is remembered with its time, until it is too old; \<open>covers\<close> says of which rows that is so.\<close>

definition remembers :: "(int \<Rightarrow> event) \<Rightarrow> stream \<Rightarrow> bool" where
  "remembers row st \<longleftrightarrow> wf_dict (st_sent st) \<and> rows_of row (st_out st) \<and>
     (\<forall>q a. dict_get (st_sent st) q = Some a \<longrightarrow> a = e_created_at (row q) \<and> q \<in> e_seq ` set (st_out st))"

definition covers :: "int set \<Rightarrow> stream \<Rightarrow> bool" where
  "covers S st \<longleftrightarrow> distinct (map e_seq (st_out st)) \<and> (\<forall>q \<in> S. q \<in> e_seq ` set (st_out st) \<longrightarrow> dict_get (st_sent st) q \<noteq> None)"

lemma frame_event_fields [simp]:
  "st_out (frame_event e st) = st_out st @ [e]" "st_after (frame_event e st) = st_after st" "st_floor (frame_event e st) = st_floor st"
  "st_scope (frame_event e st) = st_scope st" "dict_get (st_sent (frame_event e st)) = (dict_get (st_sent st))(e_seq e \<mapsto> e_created_at e)"
  by (simp_all add: frame_event_def update_conv')

lemma remembers_frame: "remembers row st \<Longrightarrow> e = row (e_seq e) \<Longrightarrow> remembers row (frame_event e st)"
  by (auto simp: remembers_def rows_of_def frame_event_def update_conv')

lemma covers_frame: "covers S st \<Longrightarrow> e_seq e \<in> S \<Longrightarrow> dict_get (st_sent st) (e_seq e) = None \<Longrightarrow> covers S (frame_event e st)"
  by (auto simp: covers_def)

lemma sender_step:
  assumes "sender f" "remembers row st" "covers S st" "e = row (e_seq e)" "e_seq e \<in> S"
  shows "remembers row (f e st) \<and> covers S (f e st)"
  using assms remembers_frame [OF assms(2,4)] covers_frame [OF assms(3,5)] unfolding sender_def by metis

lemma sender_grows:
  assumes "sender f"
  shows "set (st_out (f e st)) \<subseteq> insert e (set (st_out st))" "set (st_out st) \<subseteq> set (st_out (f e st))"
    "st_after (f e st) = st_after st" "st_floor (f e st) = st_floor st" "st_scope (f e st) = st_scope st"
    "dict_get (st_sent st) q \<noteq> None \<Longrightarrow> dict_get (st_sent (f e st)) q \<noteq> None"
    "e' \<in> set (st_out (f e st)) \<Longrightarrow> e' \<in> set (st_out st) \<or> dict_get (st_sent (f e st)) (e_seq e') \<noteq> None"
proof -
  consider "f e st = st" | "f e st = frame_event e st" using assms unfolding sender_def by metis
  note c = this
  show "set (st_out (f e st)) \<subseteq> insert e (set (st_out st))" using c by cases auto
  show "set (st_out st) \<subseteq> set (st_out (f e st))" using c by cases auto
  show "st_after (f e st) = st_after st" using c by cases auto
  show "st_floor (f e st) = st_floor st" using c by cases auto
  show "st_scope (f e st) = st_scope st" using c by cases auto
  show "dict_get (st_sent st) q \<noteq> None \<Longrightarrow> dict_get (st_sent (f e st)) q \<noteq> None" using c by cases auto
  show "e' \<in> set (st_out (f e st)) \<Longrightarrow> e' \<in> set (st_out st) \<or> dict_get (st_sent (f e st)) (e_seq e') \<noteq> None" using c by cases auto
qed

lemma fold_sender:
  assumes "sender f" "remembers row st" "covers S st" "rows_of row es" "e_seq ` set es \<subseteq> S"
  shows "remembers row (fold f es st) \<and> covers S (fold f es st)"
  using assms(2-)
proof (induction es arbitrary: st)
  case (Cons e es)
  then have "remembers row (f e st) \<and> covers S (f e st)" by (intro sender_step [OF assms(1)]) (auto simp: rows_of_def)
  then show ?case using Cons.IH [of "f e st"] Cons.prems by (auto simp: rows_of_def)
qed simp

lemma fold_sender_grows:
  assumes "sender f"
  shows "set (st_out (fold f es st)) \<subseteq> set es \<union> set (st_out st) \<and> set (st_out st) \<subseteq> set (st_out (fold f es st)) \<and>
    st_after (fold f es st) = st_after st \<and> st_floor (fold f es st) = st_floor st \<and> st_scope (fold f es st) = st_scope st \<and>
    (\<forall>q. dict_get (st_sent st) q \<noteq> None \<longrightarrow> dict_get (st_sent (fold f es st)) q \<noteq> None) \<and>
    (\<forall>e' \<in> set (st_out (fold f es st)). e' \<in> set (st_out st) \<or> dict_get (st_sent (fold f es st)) (e_seq e') \<noteq> None)"
proof (induction es arbitrary: st)
  case (Cons e es)
  note g = sender_grows [OF assms, where e = e and st = st] and IH = Cons.IH [of "f e st"]
  have later: "dict_get (st_sent (f e st)) q \<noteq> None \<Longrightarrow> dict_get (st_sent (fold f es (f e st))) q \<noteq> None" for q using IH by simp
  have "set (st_out (fold f es (f e st))) \<subseteq> set (e # es) \<union> set (st_out st)" using IH g(1) by auto
  moreover have "set (st_out st) \<subseteq> set (st_out (fold f es (f e st)))" using IH g(2) by (meson subset_trans)
  moreover have "\<forall>q. dict_get (st_sent st) q \<noteq> None \<longrightarrow> dict_get (st_sent (fold f es (f e st))) q \<noteq> None" using later g(6) by blast
  moreover have "\<forall>e' \<in> set (st_out (fold f es (f e st))). e' \<in> set (st_out st) \<or> dict_get (st_sent (fold f es (f e st))) (e_seq e') \<noteq> None"
    using IH later g(7) by metis
  ultimately show ?case using IH g(3-5) by simp
qed simp

lemma fold_send_new: "e \<in> set es \<Longrightarrow> dict_get (st_sent (fold send_new es st)) (e_seq e) \<noteq> None"
proof (induction es arbitrary: st)
  case (Cons x es)
  show ?case
  proof (cases "e = x")
    case True
    have "dict_get (st_sent (send_new x st)) (e_seq x) \<noteq> None" by (simp add: send_new_def)
    then show ?thesis using True fold_sender_grows [OF sender_send(1), of es "send_new x st"] by simp
  next
    case False
    then show ?thesis using Cons by simp
  qed
qed simp

lemma fold_send_late: "e \<in> set es \<Longrightarrow> e_seq e > st_floor st \<Longrightarrow> dict_get (st_sent (fold send_late es st)) (e_seq e) \<noteq> None"
proof (induction es arbitrary: st)
  case (Cons x es)
  have fl: "st_floor (send_late x st) = st_floor st" by (rule sender_grows(4)) simp
  show ?case
  proof (cases "e = x")
    case True
    have "dict_get (st_sent (send_late x st)) (e_seq x) \<noteq> None" using True Cons.prems by (simp add: send_late_def)
    then show ?thesis using True fold_sender_grows [OF sender_send(2), of es "send_late x st"] by simp
  next
    case False
    then show ?thesis using Cons fl by simp
  qed
qed simp

subsection \<open>A round\<close>

lemma allowed_rows_sub: "set (fst (allowed_rows lt es sc)) \<subseteq> set es"
proof (induction es arbitrary: sc)
  case (Cons e es)
  then show ?case by (simp split: prod.splits) (metis fst_conv subset_insertI2 insert_mono)
qed simp

lemma set_list_events: "e \<in> set (list_events t w a sb ty n) \<Longrightarrow> e \<in> set t \<and> event_of w sb ty e \<and> e_seq e > a"
  by (auto simp: list_events_def dest: in_set_takeD)

lemma set_list_late_events:
  "e \<in> set (list_late_events t w a since sb ty n) \<Longrightarrow> e \<in> set t \<and> event_of w sb ty e \<and> e_seq e \<le> a \<and> e_created_at e \<ge> since"
  by (auto simp: list_late_events_def dest: in_set_takeD)

lemma furthest_ge: "after \<le> furthest after rows" "e \<in> set rows \<Longrightarrow> e_seq e \<le> furthest after rows"
proof -
  have "after \<le> fold max qs after \<and> (\<forall>q \<in> set qs. q \<le> fold max qs after)" for qs :: "int list"
    by (induction qs arbitrary: after) (force simp: max_def)+
  then show "after \<le> furthest after rows" "e \<in> set rows \<Longrightarrow> e_seq e \<le> furthest after rows" by (auto simp: furthest_def)
qed

lemma furthest_in: "furthest after rows = after \<or> (\<exists>e \<in> set rows. e_seq e = furthest after rows)"
proof -
  have "fold max qs after = after \<or> fold max qs after \<in> set qs" for qs :: "int list"
    by (induction qs arbitrary: after) (force simp: max_def)+
  then show ?thesis by (force simp: furthest_def)
qed

definition stragglers :: "string option \<Rightarrow> string option \<Rightarrow> look \<Rightarrow> stream \<Rightarrow> event list \<times> scope" where
  "stragglers sandbox_id type l st = (if st_after st > st_floor st
     then late (lk_now l) (lk_events l) (lk_labels l) (st_after st) sandbox_id type (st_scope st) else ([], st_scope st))"

definition news :: "string option \<Rightarrow> string option \<Rightarrow> look \<Rightarrow> stream \<Rightarrow> (event list \<times> event list) \<times> scope" where
  "news sandbox_id type l st = page (lk_events l) (lk_labels l) (st_after st) sandbox_id type (snd (stragglers sandbox_id type l st))"

definition sends :: "string option \<Rightarrow> string option \<Rightarrow> look \<Rightarrow> stream \<Rightarrow> stream" where
  "sends sandbox_id type l st = fold send_new (snd (fst (news sandbox_id type l st))) (fold send_late (fst (stragglers sandbox_id type l st)) st)"

lemma follow_round_parts:
  "follow_round sb ty l st = (sends sb ty l st)\<lparr>st_scope := snd (news sb ty l st),
     st_after := furthest (st_after st) (fst (fst (news sb ty l st))),
     st_sent := filter (\<lambda>(q, made). made \<ge> stamp (lk_end l) (- LATE_SECONDS)) (st_sent (sends sb ty l st))\<rparr>"
  by (simp add: follow_round_def sends_def news_def stragglers_def Let_def split_beta)

lemma set_stragglers:
  "e \<in> set (fst (stragglers sb ty l st)) \<Longrightarrow>
     e \<in> set (lk_events l) \<and> e_seq e \<le> st_after st \<and> e_created_at e \<ge> stamp (lk_now l) (- LATE_SECONDS)"
  by (auto simp: stragglers_def late_def split: if_splits dest!: subsetD [OF allowed_rows_sub] dest: set_list_late_events)

lemma set_news:
  "set (snd (fst (news sb ty l st))) \<subseteq> set (fst (fst (news sb ty l st)))"
  "e \<in> set (fst (fst (news sb ty l st))) \<Longrightarrow> e \<in> set (lk_events l) \<and> e_seq e > st_after st"
  using allowed_rows_sub by (auto simp: news_def page_def Let_def split_beta dest: set_list_events)

definition stream_inv :: "(int \<Rightarrow> event) \<Rightarrow> time \<Rightarrow> stream \<Rightarrow> bool" where
  "stream_inv row now st \<longleftrightarrow> remembers row st \<and> distinct (map e_seq (st_out st)) \<and> (\<forall>e \<in> set (st_out st). e_seq e \<le> st_after st) \<and>
     (\<forall>e \<in> set (st_out st). e_created_at e \<ge> stamp now (- LATE_SECONDS) \<longrightarrow> dict_get (st_sent st) (e_seq e) \<noteq> None)"

text \<open>The rows a round may send are covered before it, and so each is sent at most once.\<close>

lemma sends_inv:
  assumes "stream_inv row now st" "now \<le> lk_now l" "rows_of row (lk_events l)"
  shows "remembers row (sends sb ty l st) \<and>
    covers {q. q > st_after st \<or> e_created_at (row q) \<ge> stamp (lk_now l) (- LATE_SECONDS)} (sends sb ty l st)"
proof -
  let ?S = "{q. q > st_after st \<or> e_created_at (row q) \<ge> stamp (lk_now l) (- LATE_SECONDS)}"
  have r: "remembers row st" and out: "rows_of row (st_out st)" using assms(1) by (auto simp: stream_inv_def remembers_def)
  have "dict_get (st_sent st) q \<noteq> None" if "q \<in> ?S" and q: "q \<in> e_seq ` set (st_out st)" for q
  proof -
    obtain e where e: "e \<in> set (st_out st)" "q = e_seq e" using q by blast
    have "\<not> q > st_after st" using assms(1) e by (fastforce simp: stream_inv_def)
    then have "e_created_at e \<ge> stamp (lk_now l) (- LATE_SECONDS)" using that(1) e out by (auto simp: rows_of_def)
    then have "e_created_at e \<ge> stamp now (- LATE_SECONDS)" using assms(2) by (simp add: stamp_def)
    then show ?thesis using assms(1) e by (simp add: stream_inv_def)
  qed
  then have c: "covers ?S st" using assms(1) by (simp add: covers_def stream_inv_def)
  have rows: "rows_of row (fst (stragglers sb ty l st))" "rows_of row (snd (fst (news sb ty l st)))"
    using assms(3) set_stragglers set_news unfolding rows_of_def by blast+
  have "e_seq ` set (fst (stragglers sb ty l st)) \<subseteq> ?S" using set_stragglers assms(3) unfolding rows_of_def by fastforce
  from fold_sender [OF sender_send(2) r c rows(1) this]
  have one: "remembers row (fold send_late (fst (stragglers sb ty l st)) st)" "covers ?S (fold send_late (fst (stragglers sb ty l st)) st)" by auto
  have "e_seq ` set (snd (fst (news sb ty l st))) \<subseteq> ?S" using set_news by blast
  from fold_sender [OF sender_send(1) one rows(2) this] show ?thesis by (simp add: sends_def)
qed

lemma sends_grows:
  "set (st_out (sends sb ty l st)) \<subseteq> set (snd (fst (news sb ty l st))) \<union> set (fst (stragglers sb ty l st)) \<union> set (st_out st)"
  "set (st_out st) \<subseteq> set (st_out (sends sb ty l st))"
  "e \<in> set (st_out (sends sb ty l st)) \<Longrightarrow> e \<in> set (st_out st) \<or> dict_get (st_sent (sends sb ty l st)) (e_seq e) \<noteq> None"
  "dict_get (st_sent st) q \<noteq> None \<Longrightarrow> dict_get (st_sent (sends sb ty l st)) q \<noteq> None"
proof -
  define mid where "mid = fold send_late (fst (stragglers sb ty l st)) st"
  have s: "sends sb ty l st = fold send_new (snd (fst (news sb ty l st))) mid" by (simp add: sends_def mid_def)
  note a = fold_sender_grows [OF sender_send(2), of "fst (stragglers sb ty l st)" st, folded mid_def]
    and b = fold_sender_grows [OF sender_send(1), of "snd (fst (news sb ty l st))" mid, folded s]
  show "set (st_out (sends sb ty l st)) \<subseteq> set (snd (fst (news sb ty l st))) \<union> set (fst (stragglers sb ty l st)) \<union> set (st_out st)"
    using a b by blast
  show "set (st_out st) \<subseteq> set (st_out (sends sb ty l st))" using a b by (meson subset_trans)
  show "dict_get (st_sent st) q \<noteq> None \<Longrightarrow> dict_get (st_sent (sends sb ty l st)) q \<noteq> None" using a b by simp
  show "e \<in> set (st_out (sends sb ty l st)) \<Longrightarrow> e \<in> set (st_out st) \<or> dict_get (st_sent (sends sb ty l st)) (e_seq e) \<noteq> None"
    using a b by metis
qed

lemma follow_round_inv:
  assumes "stream_inv row now st" "now \<le> lk_now l" "lk_now l \<le> lk_end l" "rows_of row (lk_events l)"
  shows "stream_inv row (lk_end l) (follow_round sb ty l st)"
proof -
  let ?st = "sends sb ty l st"
  note i = sends_inv [OF assms(1,2,4), of sb ty]
  have kept: "dict_get (filter (\<lambda>(q, made). made \<ge> stamp (lk_end l) (- LATE_SECONDS)) (st_sent ?st)) q =
      (case dict_get (st_sent ?st) q of Some a \<Rightarrow> if a \<ge> stamp (lk_end l) (- LATE_SECONDS) then Some a else None | None \<Rightarrow> None)" for q
    using i by (intro dict_get_filter) (simp add: remembers_def)
  have "dict_get (filter (\<lambda>(q, made). made \<ge> stamp (lk_end l) (- LATE_SECONDS)) (st_sent ?st)) (e_seq e) \<noteq> None"
    if "e \<in> set (st_out ?st)" "e_created_at e \<ge> stamp (lk_end l) (- LATE_SECONDS)" for e
  proof -
    have "e_created_at e \<ge> stamp now (- LATE_SECONDS)" using that(2) assms(2,3) by (simp add: stamp_def)
    then have "dict_get (st_sent ?st) (e_seq e) \<noteq> None"
      using sends_grows(3) [OF that(1)] sends_grows(4) assms(1) by (auto simp: stream_inv_def)
    moreover have "e = row (e_seq e)" using i that(1) by (simp add: remembers_def rows_of_def)
    ultimately have "dict_get (st_sent ?st) (e_seq e) = Some (e_created_at e)" using i unfolding remembers_def by (metis not_None_eq)
    then show ?thesis using that(2) by (simp add: kept)
  qed
  moreover have "e_seq e \<le> furthest (st_after st) (fst (fst (news sb ty l st)))" if sent: "e \<in> set (st_out ?st)" for e
  proof -
    consider "e \<in> set (fst (fst (news sb ty l st)))" | "e_seq e \<le> st_after st"
      using subsetD [OF sends_grows(1) sent] subsetD [OF set_news(1)] set_stragglers [of e sb ty l st] assms(1) unfolding stream_inv_def by blast
    then show ?thesis using furthest_ge [where after = "st_after st"] by cases (auto intro: order_trans)
  qed
  moreover have "remembers row (follow_round sb ty l st)"
    using i unfolding follow_round_parts remembers_def by (simp add: distinct_map_filter kept split: option.split)
  ultimately show ?thesis
    using i unfolding stream_inv_def by (simp add: follow_round_parts covers_def)
qed

text \<open>The looks of a stream at rising times, at tables with the rows of one history.\<close>

fun looks_ok :: "(int \<Rightarrow> event) \<Rightarrow> time \<Rightarrow> look list \<Rightarrow> bool" where
  "looks_ok row now [] = True"
| "looks_ok row now (l # ls) \<longleftrightarrow> now \<le> lk_now l \<and> lk_now l \<le> lk_end l \<and> rows_of row (lk_events l) \<and> looks_ok row (lk_end l) ls"

definition clock_after :: "time \<Rightarrow> look list \<Rightarrow> time" where
  "clock_after now ls = (if ls = [] then now else lk_end (last ls))"

lemma looks_ok_append: "looks_ok row now (ls @ ms) \<longleftrightarrow> looks_ok row now ls \<and> looks_ok row (clock_after now ls) ms"
  by (induction ls arbitrary: now) (auto simp: clock_after_def)

lemma follow_rounds_inv:
  "stream_inv row now st \<Longrightarrow> looks_ok row now ls \<Longrightarrow> stream_inv row (clock_after now ls) (fold (follow_round sb ty) ls st)"
proof (induction ls arbitrary: now st)
  case (Cons l ls)
  then have "stream_inv row (lk_end l) (follow_round sb ty l st)" by (intro follow_round_inv [of row now]) auto
  then have "stream_inv row (clock_after (lk_end l) ls) (fold (follow_round sb ty) ls (follow_round sb ty l st))" using Cons.IH Cons.prems(2) by simp
  then show ?case by (simp add: clock_after_def split: if_splits)
qed (simp add: clock_after_def)

lemma stream_inv_open: "stream_inv row now (open_stream u after)"
  by (simp add: stream_inv_def open_stream_def remembers_def rows_of_def)

subsection \<open>What a stream does not miss\<close>

definition sees :: "label_row tbl \<Rightarrow> member \<Rightarrow> event \<Rightarrow> bool" where
  "sees lt u e = fst (allows lt e (open_scope u))"

definition scope_ok :: "label_row tbl \<Rightarrow> member \<Rightarrow> scope \<Rightarrow> bool" where
  "scope_ok lt u sc \<longleftrightarrow> sc_user sc = u \<and> (\<forall>i ls. dict_get (sc_known sc) i = Some ls \<longrightarrow> ls = labels_of lt i)"

lemma allows_scope_ok: "scope_ok lt u sc \<Longrightarrow> fst (allows lt e sc) = sees lt u e \<and> scope_ok lt u (snd (allows lt e sc))"
  by (auto simp: scope_ok_def sees_def allows_def open_scope_def Let_def update_conv' split: option.splits)

lemma allowed_rows_scope_ok:
  "scope_ok lt u sc \<Longrightarrow> fst (allowed_rows lt es sc) = filter (sees lt u) es \<and> scope_ok lt u (snd (allowed_rows lt es sc))"
proof (induction es arbitrary: sc)
  case (Cons e es)
  obtain ok sc1 where a: "allows lt e sc = (ok, sc1)" by fastforce
  obtain rest sc2 where b: "allowed_rows lt es sc1 = (rest, sc2)" by fastforce
  have "ok = sees lt u e" "scope_ok lt u sc1" using allows_scope_ok [OF Cons.prems, of e] by (simp_all add: a)
  then show ?case using Cons.IH [of sc1] by (simp add: a b)
qed simp

lemma list_events_upto:
  assumes "e \<in> set t" "event_of w sb ty e" "e_seq e > a" "rows_of row t" "e_seq e \<le> furthest a (list_events t w a sb ty n)"
  shows "e \<in> set (list_events t w a sb ty n)"
proof (rule ccontr)
  let ?s = "sort_key e_seq (filter (\<lambda>e. event_of w sb ty e \<and> e_seq e > a) t)"
  assume no: "e \<notin> set (list_events t w a sb ty n)"
  have "e \<in> set ?s" using assms(1-3) by simp
  then have "e \<in> set (take n ?s) \<union> set (drop n ?s)" by (metis append_take_drop_id set_append)
  then have d: "e \<in> set (drop n ?s)" using no by (simp add: list_events_def)
  obtain r where r: "r \<in> set (take n ?s)" "e_seq r \<ge> e_seq e"
    using furthest_in [of a "list_events t w a sb ty n"] assms(3,5) unfolding list_events_def by fastforce
  have "sorted (map e_seq (take n ?s) @ map e_seq (drop n ?s))" by (simp flip: map_append)
  then have "e_seq r \<le> e_seq e" using r(1) d by (auto simp: sorted_append)
  then have "e_seq r = e_seq e" using r(2) by simp
  moreover have "r \<in> set t" using r(1) by (auto dest: in_set_takeD)
  ultimately have "r = e" using assms(1,4) unfolding rows_of_def by metis
  then show False using r(1) no by (simp add: list_events_def)
qed

text \<open>An event that a stream opened at \<open>start\<close> is to send.\<close>

definition watched :: "string option \<Rightarrow> string option \<Rightarrow> label_row tbl \<Rightarrow> member \<Rightarrow> int \<Rightarrow> event \<Rightarrow> bool" where
  "watched sandbox_id type lt u start e \<longleftrightarrow> event_of (mb_workspace_id u) sandbox_id type e \<and> sees lt u e \<and> e_seq e > start"

definition on_watch :: "label_row tbl \<Rightarrow> member \<Rightarrow> int \<Rightarrow> stream \<Rightarrow> bool" where
  "on_watch lt u start st \<longleftrightarrow> scope_ok lt u (st_scope st) \<and> st_floor st = start"

lemma on_watch_parts:
  assumes "on_watch lt u start st" "lk_labels l = lt"
  shows "scope_ok lt u (snd (stragglers sb ty l st))"
    "fst (stragglers sb ty l st) = (if st_after st > st_floor st then filter (sees lt u)
       (list_late_events (lk_events l) (mb_workspace_id u) (st_after st) (stamp (lk_now l) (- LATE_SECONDS)) sb ty PAGE) else [])"
    "scope_ok lt u (snd (news sb ty l st))"
    "fst (fst (news sb ty l st)) = list_events (lk_events l) (mb_workspace_id u) (st_after st) sb ty PAGE"
    "snd (fst (news sb ty l st)) = filter (sees lt u) (list_events (lk_events l) (mb_workspace_id u) (st_after st) sb ty PAGE)"
proof -
  have sc: "scope_ok lt u (st_scope st)" and u: "sc_user (st_scope st) = u" using assms(1) by (auto simp: on_watch_def scope_ok_def)
  note late = allowed_rows_scope_ok [OF sc]
  show one: "scope_ok lt u (snd (stragglers sb ty l st))" using late sc assms(2) by (simp add: stragglers_def late_def)
  show "fst (stragglers sb ty l st) = (if st_after st > st_floor st then filter (sees lt u)
       (list_late_events (lk_events l) (mb_workspace_id u) (st_after st) (stamp (lk_now l) (- LATE_SECONDS)) sb ty PAGE) else [])"
    using late u assms(2) by (simp add: stragglers_def late_def)
  have u1: "sc_user (snd (stragglers sb ty l st)) = u" using one by (simp add: scope_ok_def)
  note new = allowed_rows_scope_ok [OF one]
  show "scope_ok lt u (snd (news sb ty l st))" using new assms(2) by (simp add: news_def page_def Let_def split_beta)
  show "fst (fst (news sb ty l st)) = list_events (lk_events l) (mb_workspace_id u) (st_after st) sb ty PAGE"
    using u1 by (simp add: news_def page_def Let_def split_beta)
  show "snd (fst (news sb ty l st)) = filter (sees lt u) (list_events (lk_events l) (mb_workspace_id u) (st_after st) sb ty PAGE)"
    using new u1 assms(2) by (simp add: news_def page_def Let_def split_beta)
qed

lemma on_watch_round: "on_watch lt u start st \<Longrightarrow> lk_labels l = lt \<Longrightarrow> on_watch lt u start (follow_round sb ty l st)"
  using on_watch_parts(3) [of lt u start st l sb ty] fold_sender_grows [OF sender_send(1)] fold_sender_grows [OF sender_send(2)]
  by (simp add: on_watch_def follow_round_parts sends_def)

lemma on_watch_after:
  "on_watch lt u start st \<Longrightarrow> lk_labels l = lt \<Longrightarrow>
     st_after (follow_round sb ty l st) = furthest (st_after st) (list_events (lk_events l) (mb_workspace_id u) (st_after st) sb ty PAGE)"
  by (simp add: follow_round_parts on_watch_parts(4))

lemma remembered_out: "remembers row st \<Longrightarrow> dict_get (st_sent st) (e_seq e) \<noteq> None \<Longrightarrow> e = row (e_seq e) \<Longrightarrow> e \<in> set (st_out st)"
  unfolding remembers_def rows_of_def by (metis image_iff not_None_eq)

lemma round_sends_news:
  assumes inv: "stream_inv row now st" "now \<le> lk_now l" "rows_of row (lk_events l)" and w: "on_watch lt u start st" "lk_labels l = lt"
    and e: "e \<in> set (lk_events l)" "watched sb ty lt u start e" "e_seq e > st_after st" "e_seq e \<le> st_after (follow_round sb ty l st)"
  shows "e \<in> set (st_out (follow_round sb ty l st))"
proof -
  note parts = on_watch_parts [OF w, of sb ty]
  have "e_seq e \<le> furthest (st_after st) (list_events (lk_events l) (mb_workspace_id u) (st_after st) sb ty PAGE)"
    using e(4) by (simp add: on_watch_after [OF w])
  with e(1-3) inv(3) have "e \<in> set (snd (fst (news sb ty l st)))"
    unfolding parts(5) by (auto simp: watched_def intro!: list_events_upto)
  then have "dict_get (st_sent (sends sb ty l st)) (e_seq e) \<noteq> None" unfolding sends_def by (rule fold_send_new)
  moreover have "e = row (e_seq e)" using inv(3) e(1) by (simp add: rows_of_def)
  ultimately have "e \<in> set (st_out (sends sb ty l st))" using remembered_out sends_inv [OF inv] by blast
  then show ?thesis by (simp add: follow_round_parts)
qed

lemma round_sends_late:
  assumes inv: "stream_inv row now st" "now \<le> lk_now l" "rows_of row (lk_events l)" and w: "on_watch lt u start st" "lk_labels l = lt"
    and e: "e \<in> set (lk_events l)" "watched sb ty lt u start e" "e_seq e \<le> st_after st" "e_created_at e \<ge> stamp (lk_now l) (- LATE_SECONDS)"
    and room: "length (list_late_events (lk_events l) (mb_workspace_id u) (st_after st) (stamp (lk_now l) (- LATE_SECONDS)) sb ty PAGE) < PAGE"
  shows "e \<in> set (st_out (follow_round sb ty l st))"
proof -
  note parts = on_watch_parts [OF w, of sb ty]
  have fl: "st_floor st < e_seq e" using w(1) e(2) by (simp add: on_watch_def watched_def)
  have "list_late_events (lk_events l) (mb_workspace_id u) (st_after st) (stamp (lk_now l) (- LATE_SECONDS)) sb ty PAGE =
      sort_key e_seq (filter (\<lambda>e. event_of (mb_workspace_id u) sb ty e \<and> e_seq e \<le> st_after st \<and> e_created_at e \<ge> stamp (lk_now l) (- LATE_SECONDS)) (lk_events l))"
    using room unfolding list_late_events_def by simp
  then have "e \<in> set (fst (stragglers sb ty l st))" using e fl unfolding parts(2) by (auto simp: watched_def)
  then have "dict_get (st_sent (fold send_late (fst (stragglers sb ty l st)) st)) (e_seq e) \<noteq> None" using fl by (rule fold_send_late)
  then have "dict_get (st_sent (sends sb ty l st)) (e_seq e) \<noteq> None" unfolding sends_def using fold_sender_grows [OF sender_send(1)] by blast
  moreover have "e = row (e_seq e)" using inv(3) e(1) by (simp add: rows_of_def)
  ultimately have "e \<in> set (st_out (sends sb ty l st))" using remembered_out sends_inv [OF inv] by blast
  then show ?thesis by (simp add: follow_round_parts)
qed

lemma round_keeps_out: "e \<in> set (st_out st) \<Longrightarrow> e \<in> set (st_out (follow_round sb ty l st))"
  using sends_grows(2) by (fastforce simp: follow_round_parts)

lemma on_watch_rounds: "on_watch lt u start st \<Longrightarrow> \<forall>l \<in> set ls. lk_labels l = lt \<Longrightarrow> on_watch lt u start (fold (follow_round sb ty) ls st)"
  by (induction ls arbitrary: st) (auto intro: on_watch_round)

lemma on_watch_open: "on_watch lt u start (open_stream u start)"
  by (simp add: on_watch_def scope_ok_def open_stream_def open_scope_def)

text \<open>Once an event has been there to be read, it is sent or still ahead.\<close>

lemma rounds_pass_nothing:
  assumes "stream_inv row now st" "looks_ok row now ls" "on_watch lt u start st" "\<forall>l \<in> set ls. lk_labels l = lt \<and> e \<in> set (lk_events l)"
    "watched sb ty lt u start e" "e \<in> set (st_out st) \<or> e_seq e > st_after st"
  shows "e \<in> set (st_out (fold (follow_round sb ty) ls st)) \<or> e_seq e > st_after (fold (follow_round sb ty) ls st)"
  using assms
proof (induction ls arbitrary: now st)
  case (Cons l ls)
  have "e \<in> set (st_out (follow_round sb ty l st))" if "e_seq e \<le> st_after (follow_round sb ty l st)"
    using round_sends_news [OF Cons.prems(1) _ _ Cons.prems(3), where l = l and e = e and sb = sb and ty = ty] round_keeps_out [of e st sb ty l] Cons.prems that by auto
  then have "e \<in> set (st_out (follow_round sb ty l st)) \<or> e_seq e > st_after (follow_round sb ty l st)" by fastforce
  then show ?case
    using Cons.IH [OF follow_round_inv [OF Cons.prems(1)] _ on_watch_round [OF Cons.prems(3)]] Cons.prems by simp
qed simp

lemma furthest_not_full:
  assumes "e \<in> set t" "event_of w sb ty e" "e_seq e > a" "length (list_events t w a sb ty n) < n"
  shows "e_seq e \<le> furthest a (list_events t w a sb ty n)"
proof -
  have "list_events t w a sb ty n = sort_key e_seq (filter (\<lambda>e. event_of w sb ty e \<and> e_seq e > a) t)"
    using assms(4) unfolding list_events_def by simp
  then have "e \<in> set (list_events t w a sb ty n)" using assms(1-3) by simp
  then show ?thesis by (rule furthest_ge(2))
qed

subsection \<open>Properties\<close>


definition demo_event :: "int \<Rightarrow> event" where
  "demo_event q = \<lparr>e_id = py_str q, e_seq = q, e_workspace_id = ''w1'', e_sandbox_id = Some ''s1'', e_type = ''sandbox.state'', e_data = JNull, e_created_at = 0\<rparr>"

definition demo_watcher :: member where
  "demo_watcher = \<lparr>mb_id = ''u1'', mb_email = ''a@b.c'', mb_workspace_id = ''w1'', mb_role = Viewer, mb_key_id = None, mb_key_sandbox_id = None, mb_key_labels = None\<rparr>"

definition demo_look :: "time \<Rightarrow> int list \<Rightarrow> look" where
  "demo_look now qs = \<lparr>lk_now = now, lk_end = now, lk_events = map demo_event qs, lk_labels = []\<rparr>"

lemma demo_event_simps [simp]:
  "e_seq (demo_event q) = q" "e_created_at (demo_event q) = 0" "event_of ''w1'' None None (demo_event q)" "rows_of demo_event (map demo_event qs)"
  by (simp_all add: demo_event_def event_of_def rows_of_def)

lemma demo_look_simps [simp]:
  "lk_labels (demo_look now qs) = []" "lk_events (demo_look now qs) = map demo_event qs" "lk_now (demo_look now qs) = now" "lk_end (demo_look now qs) = now"
  by (simp_all add: demo_look_def)

lemma demo_watcher_simps [simp]: "mb_workspace_id demo_watcher = ''w1''" "sees lt demo_watcher e"
  by (simp_all add: demo_watcher_def sees_def allows_def open_scope_def)


lemma late_beyond_page:
  assumes "sorted (map key xs)" "length (filter (\<lambda>x. key x < key e) xs) \<ge> n"
  shows "e \<notin> set (take n xs)"
proof
  assume "e \<in> set (take n xs)"
  then obtain i where i: "i < n" "i < length xs" "xs ! i = e" by (auto simp: in_set_conv_nth)
  have "\<forall>y \<in> set (drop i xs). key e \<le> key y"
    using assms(1) i by (auto simp: in_set_conv_nth sorted_iff_nth_mono)
  then have "filter (\<lambda>x. key x < key e) (drop i xs) = []" by (auto simp: filter_empty_conv not_less)
  then have "filter (\<lambda>x. key x < key e) xs = filter (\<lambda>x. key x < key e) (take i xs)" by (metis append_Nil2 append_take_drop_id filter_append)
  then show False using assms(2) i length_filter_le [of "\<lambda>x. key x < key e" "take i xs"] by simp
qed

text \<open>
  In a busy workspace a stream loses events that commit late: the look back reads the first \<open>PAGE\<close> events of the last
  \<open>LATE_SECONDS\<close>, so a look does not send an event that commits after the stream has passed it when \<open>PAGE\<close> events of that time have a
  lower \<open>seq\<close>, although it is recent.
\<close>

theorem busy_stream_loses_late_events:
  assumes "e_seq e \<le> st_after st" "e \<notin> set (st_out st)"
    "length (filter (\<lambda>x. event_of (mb_workspace_id (sc_user (st_scope st))) sb ty x \<and> e_created_at x \<ge> stamp (lk_now l) (- LATE_SECONDS) \<and> e_seq x < e_seq e) (lk_events l)) \<ge> PAGE"
  shows "e \<notin> set (st_out (follow_round sb ty l st))"
proof -
  let ?w = "mb_workspace_id (sc_user (st_scope st))" and ?since = "stamp (lk_now l) (- LATE_SECONDS)"
  let ?xs = "sort_key e_seq (filter (\<lambda>x. event_of ?w sb ty x \<and> e_seq x \<le> st_after st \<and> e_created_at x \<ge> ?since) (lk_events l))"
  have "filter (\<lambda>x. e_seq x < e_seq e) ?xs = sort_key e_seq (filter (\<lambda>x. event_of ?w sb ty x \<and> e_created_at x \<ge> ?since \<and> e_seq x < e_seq e) (lk_events l))"
    using assms(1) by (auto simp: filter_sort intro!: arg_cong [where f = "sort_key e_seq"] filter_cong)
  then have "e \<notin> set (take PAGE ?xs)"
    using assms(3) by (intro late_beyond_page [where key = e_seq]) simp_all
  moreover have "set (fst (stragglers sb ty l st)) \<subseteq> set (take PAGE ?xs)"
    unfolding stragglers_def late_def list_late_events_def using allowed_rows_sub [of "lk_labels l" "take PAGE ?xs" "st_scope st"] by simp
  ultimately have "e \<notin> set (fst (stragglers sb ty l st))" by blast
  moreover have "e \<notin> set (snd (fst (news sb ty l st)))" using set_news(1) set_news(2) [of e sb ty l st] assms(1) by fastforce
  ultimately have "e \<notin> set (st_out (sends sb ty l st))" using sends_grows(1) [of sb ty l st] assms(2) by blast
  then show ?thesis by (simp add: follow_round_parts)
qed

lemma round_sends_rows: "e \<in> set (st_out (follow_round sb ty l st)) \<Longrightarrow> e \<in> set (st_out st) \<or> e \<in> set (lk_events l)"
  using sends_grows(1) [of sb ty l st] set_news(1) [of sb ty l st] set_news(2) [of e sb ty l st] set_stragglers [of e sb ty l st]
  by (auto simp: follow_round_parts)

abbreviation crowd :: "int list" where
  "crowd \<equiv> map int [1..<201]"

lemma busy_after: "202 \<le> st_after (follow None None demo_watcher 0 [demo_look 1 crowd, demo_look 2 (crowd @ [202])])"
proof -
  define s1 where "s1 = follow_round None None (demo_look 1 crowd) (open_stream demo_watcher 0)"
  have w0: "on_watch [] demo_watcher 0 (open_stream demo_watcher 0)" by (rule on_watch_open)
  have w1: "on_watch [] demo_watcher 0 s1" unfolding s1_def by (rule on_watch_round [OF w0]) simp
  have "list_events (map demo_event crowd) ''w1'' 0 None None PAGE = sort_key e_seq (map demo_event crowd)"
    by (simp add: list_events_def PAGE_def filter_map comp_def)
  then have "demo_event 200 \<in> set (list_events (map demo_event crowd) ''w1'' 0 None None PAGE)" by (auto simp: image_iff intro: bexI [of _ 200])
  from furthest_ge(2) [OF this, of 0] have a: "200 \<le> st_after s1"
    unfolding s1_def on_watch_after [OF w0 demo_look_simps(1)] by (simp add: open_stream_def del: map_map)
  let ?l = "demo_look 2 (crowd @ [202])"
  have out: "follow None None demo_watcher 0 [demo_look 1 crowd, ?l] = follow_round None None ?l s1" by (simp add: follow_def s1_def)
  have after: "st_after (follow_round None None ?l s1) = furthest (st_after s1) (list_events (map demo_event (crowd @ [202])) ''w1'' (st_after s1) None None PAGE)"
    unfolding on_watch_after [OF w1 demo_look_simps(1)] by simp
  show ?thesis
  proof (cases "st_after s1 < 202")
    case True
    have "filter (\<lambda>e. event_of ''w1'' None None e \<and> e_seq e > st_after s1) (map demo_event crowd) = []"
      using a by (auto simp: filter_empty_conv)
    then have "length (list_events (map demo_event (crowd @ [202])) ''w1'' (st_after s1) None None PAGE) < PAGE"
      by (simp add: list_events_def PAGE_def del: upt_rec_numeral)
    from furthest_not_full [OF _ _ _ this, of "demo_event 202"] show ?thesis using True unfolding out after by simp
  next
    case False
    then show ?thesis using furthest_ge(1) [of "st_after s1"] unfolding out after by (meson not_less order_trans)
  qed
qed

theorem busy_stream_loses_late_events_witness:
  "demo_event 201 \<notin> set (st_out (follow None None demo_watcher 0 [demo_look 1 crowd, demo_look 2 (crowd @ [202]), demo_look 3 (crowd @ [202, 201])]))"
proof -
  let ?st = "follow None None demo_watcher 0 [demo_look 1 crowd, demo_look 2 (crowd @ [202])]" and ?l = "demo_look 3 (crowd @ [202, 201])"
  have w: "on_watch [] demo_watcher 0 ?st" unfolding follow_def by (intro on_watch_rounds on_watch_open) simp
  have "demo_event 201 \<notin> set (lk_events (demo_look 2 (crowd @ [202])))" "demo_event 201 \<notin> set (lk_events (demo_look 1 crowd))"
    by (auto dest: arg_cong [where f = e_seq])
  moreover have "st_out (open_stream demo_watcher 0) = []" by (simp add: open_stream_def)
  ultimately have "demo_event 201 \<notin> set (st_out ?st)"
    unfolding follow_def fold.simps comp_def id_def by (metis round_sends_rows empty_iff list.set(1))
  moreover have "length (filter (\<lambda>x. event_of (mb_workspace_id (sc_user (st_scope ?st))) None None x \<and>
      e_created_at x \<ge> stamp (lk_now ?l) (- LATE_SECONDS) \<and> e_seq x < e_seq (demo_event 201)) (lk_events ?l)) \<ge> PAGE"
    using w by (simp add: on_watch_def scope_ok_def PAGE_def stamp_def LATE_SECONDS_def seconds_def filter_map comp_def del: upt_rec_numeral)
  ultimately show ?thesis
    using busy_stream_loses_late_events [of "demo_event 201" ?st None None ?l] busy_after by (simp add: follow_def)
qed

end
