(* ===== verification/Idempotency.thy ===== *)
theory Idempotency
  imports Jobs Errors
begin

section \<open>Idempotency keys\<close>

text \<open>
  \<open>apps/server/idempotency.py\<close>: a \<open>POST\<close> with an \<open>Idempotency-Key\<close> runs once and its repeats get the first response. The
  middleware is split where it waits for the application: \<open>arrive\<close> is what it does before (it answers or starts a
  run) and \<open>run_ends\<close> what it does after, so requests and runs interleave. Headers and bodies are bytes, those of a header
  ASCII; the digest is an argument.
\<close>

subsection \<open>The table\<close>

record idempotency_key =
  ik_owner :: string
  ik_key :: string
  ik_method :: string
  ik_path :: string
  ik_request_hash :: string
  ik_status :: "int option"
  ik_content_type :: "string option"
  ik_response :: "string option"
  ik_created_at :: time

abbreviation of_key :: "string \<Rightarrow> string \<Rightarrow> idempotency_key \<Rightarrow> bool" where
  "of_key owner key r \<equiv> ik_owner r = owner \<and> ik_key r = key"

definition claim_idempotency_key :: "time \<Rightarrow> string \<Rightarrow> string \<Rightarrow> string \<Rightarrow> string \<Rightarrow> string \<Rightarrow> idempotency_key tbl \<Rightarrow>
    (idempotency_key \<times> bool) \<times> idempotency_key tbl" where
  "claim_idempotency_key now owner key method path request_hash t =
     (case find_row (of_key owner key) t of
        Some r \<Rightarrow> ((r, False), t)
      | None \<Rightarrow>
          let r = \<lparr>ik_owner = owner, ik_key = key, ik_method = method, ik_path = path, ik_request_hash = request_hash,
                ik_status = None, ik_content_type = None, ik_response = None, ik_created_at = now\<rparr>
          in ((r, True), t @ [r]))"

definition finish_idempotency_key :: "int \<Rightarrow> string option \<Rightarrow> string \<Rightarrow> string \<Rightarrow> string \<Rightarrow> idempotency_key tbl \<Rightarrow> idempotency_key tbl" where
  "finish_idempotency_key status content_type response owner key =
     update_where (of_key owner key) (\<lambda>r. r\<lparr>ik_status := Some status, ik_content_type := content_type, ik_response := Some response\<rparr>)"

definition release_idempotency_key :: "string \<Rightarrow> string \<Rightarrow> idempotency_key tbl \<Rightarrow> idempotency_key tbl" where
  "release_idempotency_key owner key = delete_where (of_key owner key)"

definition purge_idempotency_keys :: "time \<Rightarrow> idempotency_key tbl \<Rightarrow> idempotency_key tbl" where
  "purge_idempotency_keys created_at = delete_where (\<lambda>r. ik_created_at r < created_at)"

definition MAX_KEY :: nat where "MAX_KEY = 255"
definition MAX_RESPONSE :: nat where "MAX_RESPONSE = 1048576"
definition ABANDONED_SECONDS :: int where "ABANDONED_SECONDS = 600"
definition RETENTION_SECONDS :: int where "RETENTION_SECONDS = 24 * 3600"

definition claim_key :: "time \<Rightarrow> string \<Rightarrow> string \<Rightarrow> string \<Rightarrow> string \<Rightarrow> string \<Rightarrow> idempotency_key tbl \<Rightarrow>
    (idempotency_key \<times> bool) \<times> idempotency_key tbl" where
  "claim_key now owner key method path request_hash t =
     (case claim_idempotency_key now owner key method path request_hash t of
        ((r, inserted), t1) \<Rightarrow>
          if \<not> inserted \<and> ik_status r = None \<and> now - ik_created_at r > seconds ABANDONED_SECONDS
          then claim_idempotency_key now owner key method path request_hash (release_idempotency_key owner key t1)
          else ((r, inserted), t1))"

definition purge_keys :: "time \<Rightarrow> idempotency_key tbl \<Rightarrow> idempotency_key tbl" where
  "purge_keys now = purge_idempotency_keys (stamp now (- RETENTION_SECONDS))"

subsection \<open>The middleware\<close>

record post_request =
  rq_http :: bool
  rq_method :: string
  rq_path :: string
  rq_headers :: "(string, string) dict"
  rq_body :: string
  rq_whole :: bool

definition header :: "string \<Rightarrow> post_request \<Rightarrow> string" where
  "header name rq = (case dict_get (rq_headers rq) name of Some v \<Rightarrow> v | None \<Rightarrow> [])"

definition request_key :: "post_request \<Rightarrow> string" where
  "request_key rq = strip (header ''idempotency-key'' rq)"

definition request_owner :: "(string \<Rightarrow> string) \<Rightarrow> post_request \<Rightarrow> string" where
  "request_owner sha256 rq =
     sha256 (header ''authorization'' rq @ ''|'' @ header ''x-zoo-workspace'' rq @ ''|'' @ header ''cookie'' rq)"

definition request_hash :: "(string \<Rightarrow> string) \<Rightarrow> post_request \<Rightarrow> string" where
  "request_hash sha256 rq = sha256 (''POST '' @ rq_path rq @ [char_of (10 :: nat)] @ rq_body rq)"

text \<open>Where a request goes: on to the application without a key, nowhere, an error, a kept response, or a run.\<close>

datatype answer =
    Passed
  | Gone
  | Refused int error_body
  | Replayed int "string option" string
  | Started string string

definition refuse :: "(string \<Rightarrow> string) \<Rightarrow> string \<Rightarrow> post_request \<Rightarrow> string \<Rightarrow> string \<Rightarrow> answer" where
  "refuse sha256 DOCS_URL rq code message =
     Refused (case zoo_status code of Some s \<Rightarrow> s | None \<Rightarrow> 500)
       (body DOCS_URL code message None (if header ''x-request-id'' rq \<noteq> [] then header ''x-request-id'' rq else take 16 (sha256 (request_key rq))))"

definition arrive :: "(string \<Rightarrow> string) \<Rightarrow> string \<Rightarrow> time \<Rightarrow> post_request \<Rightarrow> idempotency_key tbl \<Rightarrow> answer \<times> idempotency_key tbl" where
  "arrive sha256 DOCS_URL now rq t =
     (let key = request_key rq; owner = request_owner sha256 rq; h = request_hash sha256 rq
      in if \<not> rq_http rq \<or> rq_method rq \<noteq> ''POST'' \<or> key = [] then (Passed, t)
         else if length key > MAX_KEY then (refuse sha256 DOCS_URL rq ''validation_failed'' (''Idempotency-Key is at most '' @ py_str (int MAX_KEY) @ '' characters''), t)
         else if \<not> rq_whole rq then (Gone, t)
         else (case claim_key now owner key ''POST'' (rq_path rq) h t of
            ((r, inserted), t1) \<Rightarrow>
              if inserted then (Started owner key, t1)
              else if ik_request_hash r \<noteq> h
              then (refuse sha256 DOCS_URL rq ''idempotency_key_reused'' ''this Idempotency-Key was used for a different request'', t1)
              else (case ik_status r of
                  None \<Rightarrow> (refuse sha256 DOCS_URL rq ''idempotency_key_in_progress'' ''a request with this Idempotency-Key is running'', t1)
                | Some s \<Rightarrow> (Replayed s (case ik_content_type r of Some [] \<Rightarrow> None | c \<Rightarrow> c) (case ik_response r of Some b \<Rightarrow> b | None \<Rightarrow> []), t1))))"

text \<open>What the application sent before it returned or raised.\<close>

record app_response =
  ar_status :: int
  ar_content_type :: "string option"
  ar_chunks :: "string list"
  ar_raised :: bool

text \<open>Whether bytes are UTF-8.\<close>

definition byte_in :: "char \<Rightarrow> nat \<Rightarrow> nat \<Rightarrow> bool" where
  "byte_in c a b \<longleftrightarrow> a \<le> of_char c \<and> of_char c \<le> b"

fun utf8 :: "string \<Rightarrow> bool" where
  "utf8 [] = True"
| "utf8 (a # s) =
     (if byte_in a 0 127 then utf8 s
      else case s of
          [] \<Rightarrow> False
        | b # s1 \<Rightarrow>
            if byte_in a 194 223 then byte_in b 128 191 \<and> utf8 s1
            else (case s1 of
                [] \<Rightarrow> False
              | c # s2 \<Rightarrow>
                  if byte_in a 224 239
                  then byte_in b (if byte_in a 224 224 then 160 else 128) (if byte_in a 237 237 then 159 else 191) \<and> byte_in c 128 191 \<and> utf8 s2
                  else (case s2 of
                      [] \<Rightarrow> False
                    | d # s3 \<Rightarrow>
                        byte_in a 240 244 \<and> byte_in b (if byte_in a 240 240 then 144 else 128) (if byte_in a 244 244 then 143 else 191) \<and>
                        byte_in c 128 191 \<and> byte_in d 128 191 \<and> utf8 s3)))"

definition kept :: "app_response \<Rightarrow> bool" where
  "kept a \<longleftrightarrow> \<not> ar_raised a \<and> ar_status a < 500 \<and> length (concat (ar_chunks a)) \<le> MAX_RESPONSE \<and>
     take 17 (case ar_content_type a of Some c \<Rightarrow> c | None \<Rightarrow> []) \<noteq> ''text/event-stream'' \<and> utf8 (concat (ar_chunks a))"

definition run_ends :: "string \<Rightarrow> string \<Rightarrow> app_response \<Rightarrow> idempotency_key tbl \<Rightarrow> idempotency_key tbl" where
  "run_ends owner key a t =
     (if kept a then finish_idempotency_key (ar_status a) (ar_content_type a) (concat (ar_chunks a)) owner key t
      else release_idempotency_key owner key t)"

subsection \<open>Requests and runs in any order\<close>

record run =
  rn_owner :: string
  rn_key :: string
  rn_hash :: string
  rn_since :: time

record idem =
  id_now :: time
  id_keys :: "idempotency_key tbl"
  id_runs :: "run list"

datatype idem_action = Request post_request | Ends string string app_response | Purge

definition idem_act :: "(string \<Rightarrow> string) \<Rightarrow> string \<Rightarrow> time \<Rightarrow> idem_action \<Rightarrow> idem \<Rightarrow> answer option \<times> idem" where
  "idem_act sha256 DOCS_URL now a s =
     (case a of
        Request rq \<Rightarrow>
          (case arrive sha256 DOCS_URL now rq (id_keys s) of (ans, t) \<Rightarrow>
             (Some ans, s\<lparr>id_now := now, id_keys := t, id_runs := (case ans of
                Started owner key \<Rightarrow> id_runs s @ [\<lparr>rn_owner = owner, rn_key = key, rn_hash = request_hash sha256 rq, rn_since = now\<rparr>]
              | _ \<Rightarrow> id_runs s)\<rparr>))
      | Ends owner key resp \<Rightarrow>
          (None, s\<lparr>id_now := now, id_keys := run_ends owner key resp (id_keys s),
             id_runs := filter (\<lambda>r. \<not> (rn_owner r = owner \<and> rn_key r = key)) (id_runs s)\<rparr>)
      | Purge \<Rightarrow> (None, s\<lparr>id_now := now, id_keys := purge_keys now (id_keys s)\<rparr>))"

text \<open>The clock does not go back, a run that ends is running, and no run takes longer than \<open>ABANDONED_SECONDS\<close>.\<close>

definition idem_able :: "time \<Rightarrow> idem_action \<Rightarrow> idem \<Rightarrow> bool" where
  "idem_able now a s \<longleftrightarrow> id_now s \<le> now \<and> (\<forall>r \<in> set (id_runs s). now \<le> stamp (rn_since r) ABANDONED_SECONDS) \<and>
     (case a of Ends owner key _ \<Rightarrow> (\<exists>r \<in> set (id_runs s). rn_owner r = owner \<and> rn_key r = key) | _ \<Rightarrow> True)"

definition idem_step :: "(string \<Rightarrow> string) \<Rightarrow> string \<Rightarrow> idem \<Rightarrow> idem \<Rightarrow> bool" where
  "idem_step sha256 DOCS_URL s s' \<longleftrightarrow> (\<exists>now a. idem_able now a s \<and> s' = snd (idem_act sha256 DOCS_URL now a s))"

definition idem_start :: "idem \<Rightarrow> bool" where
  "idem_start s \<longleftrightarrow> id_keys s = [] \<and> id_runs s = []"

text \<open>The rows without a response are the claims of the runs.\<close>

definition idem_inv :: "idem \<Rightarrow> bool" where
  "idem_inv s \<longleftrightarrow> distinct (map (\<lambda>r. (ik_owner r, ik_key r)) (id_keys s)) \<and> distinct (map (\<lambda>r. (rn_owner r, rn_key r)) (id_runs s)) \<and>
     (\<forall>r \<in> set (id_runs s). \<exists>row \<in> set (id_keys s). of_key (rn_owner r) (rn_key r) row \<and> ik_status row = None \<and>
        ik_created_at row = rn_since r \<and> ik_request_hash row = rn_hash r) \<and>
     (\<forall>row \<in> set (id_keys s). ik_status row = None \<longrightarrow>
        (\<exists>r \<in> set (id_runs s). of_key (rn_owner r) (rn_key r) row \<and> ik_created_at row = rn_since r))"

lemma idem_rowD:
  "idem_inv s \<Longrightarrow> row \<in> set (id_keys s) \<Longrightarrow> of_key o' k row \<Longrightarrow> row' \<in> set (id_keys s) \<Longrightarrow> of_key o' k row' \<Longrightarrow> row' = row"
  unfolding idem_inv_def distinct_map inj_on_def by auto

lemma find_of_key: "idem_inv s \<Longrightarrow> row \<in> set (id_keys s) \<Longrightarrow> of_key o' k row \<Longrightarrow> find_row (of_key o' k) (id_keys s) = Some row"
proof -
  assume a: "idem_inv s" "row \<in> set (id_keys s)" "of_key o' k row"
  then obtain r where r: "find_row (of_key o' k) (id_keys s) = Some r" using find_row_NoneD [of "of_key o' k" "id_keys s" row] by (cases "find_row (of_key o' k) (id_keys s)") auto
  then show ?thesis using find_row_SomeD [OF r] idem_rowD [OF a] by blast
qed

text \<open>No claim is taken for abandoned, so a claim either finds the row of its key or adds one.\<close>

lemma claim_key_prompt:
  assumes "idem_inv s" "idem_able now a s"
  shows "claim_key now o' k m p h (id_keys s) = claim_idempotency_key now o' k m p h (id_keys s)"
proof (cases "find_row (of_key o' k) (id_keys s)")
  case (Some row)
  have "\<not> now - ik_created_at row > seconds ABANDONED_SECONDS" if "ik_status row = None"
    using that assms find_row_SomeD [OF Some] unfolding idem_inv_def idem_able_def stamp_def by fastforce
  then show ?thesis using Some by (auto simp: claim_key_def claim_idempotency_key_def)
qed (simp add: claim_key_def claim_idempotency_key_def Let_def)

lemma arrive_cases:
  assumes "idem_inv s" "idem_able now a s"
  obtains (stays) ans where "arrive sha256 DOCS_URL now rq (id_keys s) = (ans, id_keys s)" "\<forall>o' k. ans \<noteq> Started o' k"
  | (starts) row where "arrive sha256 DOCS_URL now rq (id_keys s) = (Started (ik_owner row) (ik_key row), id_keys s @ [row])"
      "find_row (of_key (ik_owner row) (ik_key row)) (id_keys s) = None" "ik_status row = None" "ik_created_at row = now"
      "ik_request_hash row = request_hash sha256 rq"
proof -
  let ?o = "request_owner sha256 rq" and ?k = "request_key rq"
  have c: "claim_key now ?o ?k m p h (id_keys s) = claim_idempotency_key now ?o ?k m p h (id_keys s)" for m p h
    by (rule claim_key_prompt [OF assms])
  show thesis
  proof (cases "\<not> rq_http rq \<or> rq_method rq \<noteq> ''POST'' \<or> ?k = [] \<or> length ?k > MAX_KEY \<or> \<not> rq_whole rq")
    case True
    then show thesis by (intro stays [of "fst (arrive sha256 DOCS_URL now rq (id_keys s))"]) (auto simp: arrive_def Let_def refuse_def)
  next
    case False
    show thesis
    proof (cases "find_row (of_key ?o ?k) (id_keys s)")
      case None
      show thesis by (rule starts [of "fst (fst (claim_idempotency_key now ?o ?k ''POST'' (rq_path rq) (request_hash sha256 rq) (id_keys s)))"])
        (use None False c in \<open>simp_all add: arrive_def Let_def claim_idempotency_key_def\<close>)
    next
      case (Some row)
      then show thesis using False c
        by (intro stays [of "fst (arrive sha256 DOCS_URL now rq (id_keys s))"])
          (auto simp: arrive_def Let_def claim_idempotency_key_def refuse_def split: option.splits)
    qed
  qed
qed

lemma idem_request_inv:
  assumes "idem_inv s" "idem_able now (Request rq) s"
  shows "idem_inv (snd (idem_act sha256 DOCS_URL now (Request rq) s))"
  using assms
proof (cases rule: arrive_cases [where ?sha256.0 = sha256 and DOCS_URL = DOCS_URL and rq = rq])
  case (stays ans)
  then have "snd (idem_act sha256 DOCS_URL now (Request rq) s) = s\<lparr>id_now := now\<rparr>" by (cases ans) (simp_all add: idem_act_def)
  then show ?thesis using assms(1) by (simp add: idem_inv_def)
next
  case (starts row)
  let ?run = "\<lparr>rn_owner = ik_owner row, rn_key = ik_key row, rn_hash = request_hash sha256 rq, rn_since = now\<rparr>"
  have new: "\<forall>r \<in> set (id_keys s). \<not> of_key (ik_owner row) (ik_key row) r" using find_row_NoneD [OF starts(2)] by blast
  then have "\<forall>r \<in> set (id_runs s). (rn_owner r, rn_key r) \<noteq> (ik_owner row, ik_key row)" using assms(1) unfolding idem_inv_def by fastforce
  then have "distinct (map (\<lambda>r. (rn_owner r, rn_key r)) (id_runs s @ [?run]))" using assms(1) by (auto simp: idem_inv_def)
  moreover have "distinct (map (\<lambda>r. (ik_owner r, ik_key r)) (id_keys s @ [row]))" using assms(1) new by (auto simp: idem_inv_def)
  ultimately show ?thesis using assms(1) starts unfolding idem_inv_def idem_act_def by auto
qed

lemma idem_ends_inv:
  assumes "idem_inv s"
  shows "idem_inv (snd (idem_act sha256 DOCS_URL now (Ends o' k a) s))"
proof -
  have d: "distinct (map (\<lambda>r. (ik_owner r, ik_key r)) (run_ends o' k a (id_keys s)))"
    using assms by (auto simp: idem_inv_def run_ends_def finish_idempotency_key_def release_idempotency_key_def map_update_where delete_where_def distinct_map_filter)
  have rows: "row \<in> set (run_ends o' k a (id_keys s)) \<and> ik_status row = None \<longleftrightarrow> row \<in> set (id_keys s) \<and> ik_status row = None \<and> \<not> of_key o' k row" for row
    by (auto simp: run_ends_def finish_idempotency_key_def release_idempotency_key_def set_update_where set_delete_where split: if_splits)
  let ?runs = "filter (\<lambda>r. \<not> (rn_owner r = o' \<and> rn_key r = k)) (id_runs s)"
  have "\<exists>row \<in> set (run_ends o' k a (id_keys s)). of_key (rn_owner r) (rn_key r) row \<and> ik_status row = None \<and>
      ik_created_at row = rn_since r \<and> ik_request_hash row = rn_hash r" if left: "r \<in> set ?runs" for r
  proof -
    obtain row where "row \<in> set (id_keys s)" "of_key (rn_owner r) (rn_key r) row" "ik_status row = None"
      "ik_created_at row = rn_since r" "ik_request_hash row = rn_hash r" using assms left unfolding idem_inv_def by auto
    moreover from this have "row \<in> set (run_ends o' k a (id_keys s))" using rows [of row] left by auto
    ultimately show ?thesis by blast
  qed
  moreover have "\<exists>r \<in> set ?runs. of_key (rn_owner r) (rn_key r) row \<and> ik_created_at row = rn_since r"
    if "row \<in> set (run_ends o' k a (id_keys s))" "ik_status row = None" for row
  proof -
    have "row \<in> set (id_keys s)" "\<not> of_key o' k row" using rows [of row] that by auto
    then show ?thesis using assms that(2) unfolding idem_inv_def by fastforce
  qed
  moreover have "distinct (map (\<lambda>r. (rn_owner r, rn_key r)) ?runs)" using assms by (simp add: idem_inv_def distinct_map_filter)
  ultimately show ?thesis using d by (simp add: idem_inv_def idem_act_def)
qed

lemma idem_purge_inv:
  assumes "idem_inv s" "idem_able now Purge s"
  shows "idem_inv (snd (idem_act sha256 DOCS_URL now Purge s))"
proof -
  have "\<not> rn_since r < stamp now (- RETENTION_SECONDS)" if "r \<in> set (id_runs s)" for r
    using assms(2) that by (auto simp: idem_able_def stamp_def RETENTION_SECONDS_def ABANDONED_SECONDS_def seconds_def)
  moreover have "distinct (map (\<lambda>r. (ik_owner r, ik_key r)) (purge_keys now (id_keys s)))"
    using assms(1) by (simp add: idem_inv_def purge_keys_def purge_idempotency_keys_def delete_where_def distinct_map_filter)
  moreover have "set (purge_keys now (id_keys s)) = {row \<in> set (id_keys s). \<not> ik_created_at row < stamp now (- RETENTION_SECONDS)}"
    by (simp add: purge_keys_def purge_idempotency_keys_def set_delete_where)
  ultimately show ?thesis using assms(1) unfolding idem_inv_def idem_act_def by fastforce
qed

interpretation retries: transition_system idem_start "idem_step sha256 DOCS_URL" idem_inv
  for sha256 DOCS_URL
proof
  show "idem_start s \<Longrightarrow> idem_inv s" for s by (simp add: idem_start_def idem_inv_def)
  show "idem_inv t" if s: "idem_inv s" and st: "idem_step sha256 DOCS_URL s t" for s t
  proof -
    obtain now a where a: "idem_able now a s" "t = snd (idem_act sha256 DOCS_URL now a s)" using st unfolding idem_step_def by blast
    then show ?thesis
      by (cases a) (use s in \<open>auto intro: idem_request_inv idem_ends_inv idem_purge_inv\<close>)
  qed
qed

text \<open>A kept response stays until it is purged.\<close>

lemma kept_row_stays:
  assumes "idem_inv s" "idem_able now a s" "row \<in> set (id_keys s)" "ik_status row = Some st" "now \<le> stamp (ik_created_at row) RETENTION_SECONDS"
  shows "row \<in> set (id_keys (snd (idem_act sha256 DOCS_URL now a s)))"
proof (cases a)
  case (Request rq)
  have "set (id_keys s) \<subseteq> set (snd (arrive sha256 DOCS_URL now rq (id_keys s)))"
    by (rule arrive_cases [OF assms(1,2), of sha256 DOCS_URL rq]) auto
  then show ?thesis using Request assms(3) by (auto simp: idem_act_def split: prod.splits)
next
  case (Ends o' k resp)
  then obtain r where "r \<in> set (id_runs s)" "rn_owner r = o'" "rn_key r = k" using assms(2) by (auto simp: idem_able_def)
  then obtain row' where "row' \<in> set (id_keys s)" "of_key o' k row'" "ik_status row' = None" using assms(1) unfolding idem_inv_def by metis
  then have "\<not> of_key o' k row" using idem_rowD [OF assms(1), of row' o' k row] assms(3,4) by auto
  then show ?thesis using Ends assms(3)
    by (auto simp: idem_act_def run_ends_def finish_idempotency_key_def release_idempotency_key_def set_update_where set_delete_where)
next
  case Purge
  then show ?thesis using assms(3,5) by (auto simp: idem_act_def purge_keys_def purge_idempotency_keys_def set_delete_where stamp_def RETENTION_SECONDS_def seconds_def)
qed

lemma idem_now: "id_now (snd (idem_act sha256 DOCS_URL now a s)) = now"
  by (cases a) (simp_all add: idem_act_def split: prod.split)

lemma kept_row_stays_steps:
  assumes "(idem_step sha256 DOCS_URL)\<^sup>*\<^sup>* s s'" "idem_inv s" "row \<in> set (id_keys s)" "ik_status row = Some st" "id_now s' \<le> stamp (ik_created_at row) RETENTION_SECONDS"
  shows "row \<in> set (id_keys s')"
  using assms
proof (induction rule: rtranclp_induct)
  case (step y z)
  obtain now a where a: "idem_able now a y" "z = snd (idem_act sha256 DOCS_URL now a y)" using step.hyps(2) unfolding idem_step_def by blast
  have z: "id_now z = now" by (simp add: a(2) idem_now)
  have "id_now y \<le> now" using a(1) by (simp add: idem_able_def)
  then have "row \<in> set (id_keys y)" using step.IH step.prems z by simp
  moreover have "idem_inv y" by (rule retries.steps_inv [OF step.hyps(1) step.prems(1)])
  ultimately show ?case using kept_row_stays [OF _ a(1)] step.prems z a(2) by simp
qed

subsection \<open>Properties\<close>

definition keyed_post :: "post_request \<Rightarrow> bool" where
  "keyed_post rq \<longleftrightarrow> rq_http rq \<and> rq_method rq = ''POST'' \<and> request_key rq \<noteq> [] \<and> length (request_key rq) \<le> MAX_KEY \<and> rq_whole rq"

lemma arrive_replays:
  assumes "idem_inv s" "idem_able now a s" "keyed_post rq" "row \<in> set (id_keys s)" "of_key (request_owner sha256 rq) (request_key rq) row"
    "ik_status row = Some st" "ik_content_type row = c" "ik_response row = Some b"
  shows "arrive sha256 DOCS_URL now rq (id_keys s) =
    (if ik_request_hash row = request_hash sha256 rq then Replayed st (case c of Some [] \<Rightarrow> None | c \<Rightarrow> c) b
     else refuse sha256 DOCS_URL rq ''idempotency_key_reused'' ''this Idempotency-Key was used for a different request'', id_keys s)"
  using assms(3,6-8) find_of_key [OF assms(1,4,5)] claim_key_prompt [OF assms(1,2), of "request_owner sha256 rq" "request_key rq"]
  by (auto simp: arrive_def Let_def keyed_post_def claim_idempotency_key_def)

text \<open>
  C12. A retried request runs once. Whatever requests, ends of runs and purges come in whatever order, when no run takes longer than
  \<open>ABANDONED_SECONDS\<close>: no two requests with the same caller and key run at the same time; and after a run whose
  response is kept, for \<open>RETENTION_SECONDS\<close> from its start, every request of that caller with that key starts no run and gets that
  response when it is the same request, and a 409 otherwise.
\<close>

theorem retried_request_runs_once:
  assumes "idem_start s0" "(idem_step sha256 DOCS_URL)\<^sup>*\<^sup>* s0 s" "run \<in> set (id_runs s)"
    and ends: "idem_able now (Ends (rn_owner run) (rn_key run) a) s" "kept a"
    and later: "(idem_step sha256 DOCS_URL)\<^sup>*\<^sup>* (snd (idem_act sha256 DOCS_URL now (Ends (rn_owner run) (rn_key run) a) s)) s'"
    and again: "idem_able now' (Request rq) s'" "keyed_post rq" "request_owner sha256 rq = rn_owner run" "request_key rq = rn_key run"
      "now' \<le> stamp (rn_since run) RETENTION_SECONDS"
  shows "distinct (map (\<lambda>r. (rn_owner r, rn_key r)) (id_runs s)) \<and>
    idem_act sha256 DOCS_URL now' (Request rq) s' =
      (Some (if rn_hash run = request_hash sha256 rq
             then Replayed (ar_status a) (case ar_content_type a of Some [] \<Rightarrow> None | c \<Rightarrow> c) (concat (ar_chunks a))
             else refuse sha256 DOCS_URL rq ''idempotency_key_reused'' ''this Idempotency-Key was used for a different request''),
       s'\<lparr>id_now := now'\<rparr>)"
proof -
  let ?s1 = "snd (idem_act sha256 DOCS_URL now (Ends (rn_owner run) (rn_key run) a) s)"
  have i: "idem_inv s" by (rule retries.reachable_inv [OF assms(1,2)])
  have i1: "idem_inv ?s1" by (rule idem_ends_inv [OF i])
  have i': "idem_inv s'" by (rule retries.steps_inv [OF later i1])
  obtain row where row: "row \<in> set (id_keys s)" "of_key (rn_owner run) (rn_key run) row" "ik_created_at row = rn_since run" "ik_request_hash row = rn_hash run"
    using i assms(3) unfolding idem_inv_def by metis
  let ?row = "row\<lparr>ik_status := Some (ar_status a), ik_content_type := ar_content_type a, ik_response := Some (concat (ar_chunks a))\<rparr>"
  have "?row \<in> set (id_keys ?s1)"
    using row(1,2) ends(2) by (force simp: idem_act_def run_ends_def finish_idempotency_key_def set_update_where)
  then have "?row \<in> set (id_keys s')"
    using again(1,5) row(3) by (intro kept_row_stays_steps [OF later i1]) (auto simp: idem_able_def)
  then have "arrive sha256 DOCS_URL now' rq (id_keys s') =
      (if rn_hash run = request_hash sha256 rq then Replayed (ar_status a) (case ar_content_type a of Some [] \<Rightarrow> None | c \<Rightarrow> c) (concat (ar_chunks a))
       else refuse sha256 DOCS_URL rq ''idempotency_key_reused'' ''this Idempotency-Key was used for a different request'', id_keys s')"
    using arrive_replays [OF i' again(1,2), of ?row sha256] row again(3,4) by simp
  moreover have "distinct (map (\<lambda>r. (rn_owner r, rn_key r)) (id_runs s))" using i by (simp add: idem_inv_def)
  ultimately show ?thesis by (simp add: idem_act_def refuse_def)
qed

definition demo_post :: post_request where
  "demo_post = \<lparr>rq_http = True, rq_method = ''POST'', rq_path = ''/sandboxes'', rq_headers = [(''idempotency-key'', '' k1 ''), (''authorization'', ''Bearer zoo_1'')],
     rq_body = ''{}'', rq_whole = True\<rparr>"

definition demo_idle :: idem where
  "demo_idle = \<lparr>id_now = 0, id_keys = [], id_runs = []\<rparr>"

definition demo_created :: app_response where
  "demo_created = \<lparr>ar_status = 201, ar_content_type = Some ''application/json'', ar_chunks = [''{'', ''}''], ar_raised = False\<rparr>"

lemma demo_post_simps:
  "keyed_post demo_post" "request_key demo_post = ''k1''" "request_owner (\<lambda>b. b) demo_post = ''Bearer zoo_1||''" "kept demo_created"
  by (simp_all add: keyed_post_def demo_post_def request_key_def header_def strip_def is_space_def MAX_KEY_def request_owner_def
      kept_def demo_created_def MAX_RESPONSE_def byte_in_def)

theorem retried_request_runs_once_witness:
  "fst (idem_act (\<lambda>b. b) ''docs'' 3 (Request demo_post)
     (snd (idem_act (\<lambda>b. b) ''docs'' 2 (Ends ''Bearer zoo_1||'' ''k1'' demo_created) (snd (idem_act (\<lambda>b. b) ''docs'' 1 (Request demo_post) demo_idle))))) =
   Some (Replayed 201 (Some ''application/json'') ''{}'')"
proof -
  let ?s = "snd (idem_act (\<lambda>b. b) ''docs'' 1 (Request demo_post) demo_idle)"
  let ?run = "\<lparr>rn_owner = ''Bearer zoo_1||'', rn_key = ''k1'', rn_hash = request_hash (\<lambda>b. b) demo_post, rn_since = 1\<rparr>"
  have start: "idem_start demo_idle" "idem_inv demo_idle" "idem_able 1 (Request demo_post) demo_idle"
    by (simp_all add: idem_start_def idem_inv_def idem_able_def demo_idle_def)
  then have steps: "(idem_step (\<lambda>b. b) ''docs'')\<^sup>*\<^sup>* demo_idle ?s" unfolding idem_step_def by blast
  have runs: "id_runs ?s = [?run]" "id_now ?s = 1"
    using demo_post_simps by (auto simp: idem_act_def arrive_def Let_def claim_key_def claim_idempotency_key_def keyed_post_def demo_idle_def)
  have ends: "idem_able 2 (Ends ''Bearer zoo_1||'' ''k1'' demo_created) ?s"
    using runs by (simp add: idem_able_def stamp_def ABANDONED_SECONDS_def seconds_def)
  have "idem_able 3 (Request demo_post) (snd (idem_act (\<lambda>b. b) ''docs'' 2 (Ends ''Bearer zoo_1||'' ''k1'' demo_created) ?s))"
    using runs by (simp add: idem_act_def idem_able_def)
  then show ?thesis
    using retried_request_runs_once [OF start(1) steps, of ?run 2 demo_created _ 3 demo_post] runs ends demo_post_simps
    by (simp add: stamp_def RETENTION_SECONDS_def seconds_def demo_created_def)
qed

text \<open>
  A run that was given up still acts on its key: when it takes longer than \<open>ABANDONED_SECONDS\<close> a repeat of the request starts a
  second run, and when the first then fails it releases the claim of the second, so that the next repeat runs a third time
  while the second runs.
\<close>

theorem given_up_run_frees_the_key:
  assumes "keyed_post rq" "\<forall>r \<in> set t. \<not> of_key (request_owner sha256 rq) (request_key rq) r"
    and "now1 > stamp now0 ABANDONED_SECONDS" "\<not> kept a"
  shows "(let started = Started (request_owner sha256 rq) (request_key rq);
              (first, t0) = arrive sha256 DOCS_URL now0 rq t;
              (second, t1) = arrive sha256 DOCS_URL now1 rq t0;
              t2 = run_ends (request_owner sha256 rq) (request_key rq) a t1;
              (third, t3) = arrive sha256 DOCS_URL now2 rq t2
          in first = started \<and> second = started \<and> third = started)"
proof -
  let ?k = "of_key (request_owner sha256 rq) (request_key rq)"
  have t: "find_row ?k t = None" "delete_where ?k t = t"
    using assms(2) by (auto simp: find_row_def find_None_iff delete_where_def)
  have start: "arrive sha256 DOCS_URL now rq t = (Started (request_owner sha256 rq) (request_key rq),
      snd (claim_idempotency_key now (request_owner sha256 rq) (request_key rq) ''POST'' (rq_path rq) (request_hash sha256 rq) t))" for now
    using assms(1) t(1) by (auto simp: arrive_def Let_def keyed_post_def claim_key_def claim_idempotency_key_def)
  have again: "arrive sha256 DOCS_URL now1 rq (snd (claim_idempotency_key now0 (request_owner sha256 rq) (request_key rq) ''POST'' (rq_path rq) (request_hash sha256 rq) t)) =
      arrive sha256 DOCS_URL now1 rq t"
    using assms(1,3) t
    by (auto simp: arrive_def Let_def keyed_post_def claim_key_def claim_idempotency_key_def find_row_append release_idempotency_key_def stamp_def delete_where_def)
  have "run_ends (request_owner sha256 rq) (request_key rq) a
      (snd (claim_idempotency_key now1 (request_owner sha256 rq) (request_key rq) ''POST'' (rq_path rq) (request_hash sha256 rq) t)) = t"
    using assms(4) t by (simp add: run_ends_def release_idempotency_key_def claim_idempotency_key_def Let_def delete_where_def)
  then show ?thesis using start again by (simp add: Let_def)
qed

theorem given_up_run_frees_the_key_witness:
  "fst (arrive (\<lambda>b. b) ''docs'' (seconds 602) demo_post (run_ends ''Bearer zoo_1||'' ''k1'' (demo_created\<lparr>ar_status := 503\<rparr>)
     (snd (arrive (\<lambda>b. b) ''docs'' (seconds 601) demo_post (snd (arrive (\<lambda>b. b) ''docs'' 0 demo_post [])))))) = Started ''Bearer zoo_1||'' ''k1''"
  using given_up_run_frees_the_key [OF demo_post_simps(1), of "[]" "\<lambda>b. b" 0 "seconds 601" "demo_created\<lparr>ar_status := 503\<rparr>" "''docs''" "seconds 602"]
  by (simp add: demo_post_simps(2,3) Let_def split_beta stamp_def ABANDONED_SECONDS_def seconds_def kept_def)

end
