(* ===== verification/Webhooks.thy ===== *)
theory Webhooks
  imports Events Idempotency Security
begin

section \<open>Webhooks\<close>

text \<open>
  \<open>apps/server/webhooks.py\<close> and the triggers of the schema that write events and their deliveries: each event a webhook wants gets a
  delivery row in the transaction of the event; workers claim due deliveries for \<open>LEASE_SECONDS\<close>, post them and record what came of it.
  Arguments are \<open>urlparse\<close>, the resolver, \<open>is_global\<close>, \<open>httpx.post\<close>, the digest, \<open>json.dumps\<close> and the ids the database draws
  for rows, as a function of their \<open>seq\<close>. The requests are the ones FastAPI has validated. The posts are kept in a log for the
  statements.
\<close>

subsection \<open>Rows and queries\<close>

record webhook =
  wh_id :: string
  wh_workspace_id :: string
  wh_url :: string
  wh_secret_ciphertext :: string
  wh_types :: "string list"
  wh_label_selector :: "labels option"
  wh_enabled :: bool
  wh_created_by :: string
  wh_created_at :: time

datatype delivery_status = Pending | Delivered | Undelivered

record webhook_delivery =
  wd_id :: string
  wd_seq :: int
  wd_webhook_id :: string
  wd_event_id :: string
  wd_status :: delivery_status
  wd_attempts :: int
  wd_next_attempt_at :: time
  wd_last_error :: "string option"
  wd_response_status :: "int option"
  wd_created_at :: time
  wd_delivered_at :: "time option"

record 'h feed =
  fd_events :: "event tbl"
  fd_event_seq :: int
  fd_webhooks :: "webhook tbl"
  fd_deliveries :: "webhook_delivery tbl"
  fd_delivery_seq :: int
  fd_world :: "'h world"
  fd_posts :: "(string \<times> bool) list"

record uuids =
  uu_event :: "int \<Rightarrow> string"
  uu_delivery :: "int \<Rightarrow> string"

definition get_webhook :: "string \<Rightarrow> webhook tbl \<Rightarrow> webhook option" where
  "get_webhook i = find_row (\<lambda>w. wh_id w = i)"

definition get_event :: "string \<Rightarrow> event tbl \<Rightarrow> event option" where
  "get_event i = find_row (\<lambda>e. e_id e = i)"

definition has_workspace :: "'h feed \<Rightarrow> string \<Rightarrow> bool" where
  "has_workspace f i \<longleftrightarrow> i \<in> ws_id ` set (w_workspaces (fd_world f))"

subsection \<open>The triggers\<close>

definition insert_event :: "uuids \<Rightarrow> time \<Rightarrow> string \<Rightarrow> string option \<Rightarrow> string \<Rightarrow> json \<Rightarrow> 'h feed \<Rightarrow> event \<times> 'h feed" where
  "insert_event uu now workspace sandbox kind payload f =
     (let e = \<lparr>e_id = uu_event uu (fd_event_seq f), e_seq = fd_event_seq f, e_workspace_id = workspace, e_sandbox_id = sandbox,
            e_type = kind, e_data = payload, e_created_at = now\<rparr>
      in (e, f\<lparr>fd_events := fd_events f @ [e], fd_event_seq := fd_event_seq f + 1\<rparr>))"

text \<open>The condition of \<open>webhook_deliveries_for\<close>. Its event types never include the two of webhooks, so their events make no more deliveries.\<close>

definition wants :: "label_row tbl \<Rightarrow> event \<Rightarrow> webhook \<Rightarrow> bool" where
  "wants lt e w \<longleftrightarrow> wh_workspace_id w = e_workspace_id e \<and> wh_enabled w \<and> e_type e \<notin> {''webhook.test'', ''webhook.delivery''} \<and>
     (wh_types w = [] \<or> e_type e \<in> set (wh_types w)) \<and>
     (case wh_label_selector w of None \<Rightarrow> True | Some sel \<Rightarrow>
        \<forall>(k, v) \<in> set sel. \<exists>l \<in> set lt. e_sandbox_id e = Some (l_sandbox_id l) \<and> l_key l = k \<and> l_value l = v)"

definition delivery_text :: "delivery_status \<Rightarrow> string" where
  "delivery_text s = (case s of Pending \<Rightarrow> ''pending'' | Delivered \<Rightarrow> ''delivered'' | Undelivered \<Rightarrow> ''failed'')"

definition delivery_event :: "uuids \<Rightarrow> time \<Rightarrow> webhook_delivery \<Rightarrow> 'h feed \<Rightarrow> 'h feed" where
  "delivery_event uu now d f =
     (case get_webhook (wd_webhook_id d) (fd_webhooks f) of
        None \<Rightarrow> f
      | Some h \<Rightarrow>
          if has_workspace f (wh_workspace_id h)
          then snd (insert_event uu now (wh_workspace_id h) None ''webhook.delivery''
                 (JObj [(''webhook_id'', JStr (wd_webhook_id d)), (''delivery_id'', JStr (wd_id d)),
                        (''status'', JStr (delivery_text (wd_status d))), (''attempts'', JInt (wd_attempts d))]) f)
          else f)"

definition create_webhook_delivery :: "uuids \<Rightarrow> time \<Rightarrow> string \<Rightarrow> string \<Rightarrow> 'h feed \<Rightarrow> 'h feed" where
  "create_webhook_delivery uu now webhook_id event_id f =
     (let d = \<lparr>wd_id = uu_delivery uu (fd_delivery_seq f), wd_seq = fd_delivery_seq f, wd_webhook_id = webhook_id, wd_event_id = event_id,
            wd_status = Pending, wd_attempts = 0, wd_next_attempt_at = now, wd_last_error = None, wd_response_status = None,
            wd_created_at = now, wd_delivered_at = None\<rparr>
      in delivery_event uu now d (f\<lparr>fd_deliveries := fd_deliveries f @ [d], fd_delivery_seq := fd_delivery_seq f + 1\<rparr>))"

definition zoo_event :: "uuids \<Rightarrow> time \<Rightarrow> string \<Rightarrow> string option \<Rightarrow> string \<Rightarrow> json \<Rightarrow> 'h feed \<Rightarrow> 'h feed" where
  "zoo_event uu now workspace sandbox kind payload f =
     (case insert_event uu now workspace sandbox kind payload f of (e, f1) \<Rightarrow>
        fold (\<lambda>w. create_webhook_delivery uu now (wh_id w) (e_id e)) (filter (wants (w_labels (fd_world f1)) e) (fd_webhooks f1)) f1)"

subsection \<open>Deliveries\<close>

definition WEBHOOK_BACKOFF :: "int list" where "WEBHOOK_BACKOFF = [60, 300, 1800, 7200, 21600]"
definition BATCH :: nat where "BATCH = 20"
definition LEASE_SECONDS :: int where "LEASE_SECONDS = 120"

definition claim_webhook_deliveries :: "time \<Rightarrow> int \<Rightarrow> nat \<Rightarrow> webhook_delivery tbl \<Rightarrow> webhook_delivery list \<times> webhook_delivery tbl" where
  "claim_webhook_deliveries now lease row_limit t =
     (let due = take row_limit (sort_key wd_seq (filter (\<lambda>d. wd_status d = Pending \<and> wd_next_attempt_at d \<le> now) t));
          lend = (\<lambda>d. d\<lparr>wd_next_attempt_at := stamp now lease\<rparr>)
      in (map lend due, update_where (\<lambda>d. wd_id d \<in> wd_id ` set due) lend t))"

definition finish_row :: "time \<Rightarrow> delivery_status \<Rightarrow> int \<Rightarrow> time \<Rightarrow> string option \<Rightarrow> int option \<Rightarrow> webhook_delivery \<Rightarrow> webhook_delivery" where
  "finish_row now status attempts next_attempt_at last_error response_status d =
     d\<lparr>wd_status := status, wd_attempts := attempts, wd_next_attempt_at := next_attempt_at, wd_last_error := last_error,
       wd_response_status := response_status, wd_delivered_at := (if status = Delivered then Some now else None)\<rparr>"

definition delivery_shown :: "webhook_delivery \<Rightarrow> delivery_status \<times> int \<times> string option \<times> int option \<times> time option" where
  "delivery_shown d = (wd_status d, wd_attempts d, wd_last_error d, wd_response_status d, wd_delivered_at d)"

definition finish_webhook_delivery :: "uuids \<Rightarrow> time \<Rightarrow> delivery_status \<Rightarrow> int \<Rightarrow> time \<Rightarrow> string option \<Rightarrow> int option \<Rightarrow> string \<Rightarrow> 'h feed \<Rightarrow> 'h feed" where
  "finish_webhook_delivery uu now status attempts next_attempt_at last_error response_status i f =
     (let set_row = finish_row now status attempts next_attempt_at last_error response_status
      in fold (delivery_event uu now)
           (map set_row (filter (\<lambda>d. wd_id d = i \<and> delivery_shown (set_row d) \<noteq> delivery_shown d) (fd_deliveries f)))
           (f\<lparr>fd_deliveries := update_where (\<lambda>d. wd_id d = i) set_row (fd_deliveries f)\<rparr>))"

definition purge_webhook_deliveries :: "time \<Rightarrow> webhook_delivery tbl \<Rightarrow> webhook_delivery tbl" where
  "purge_webhook_deliveries created_at = delete_where (\<lambda>d. wd_status d \<noteq> Pending \<and> wd_created_at d < created_at)"

text \<open>What the world outside answers. \<open>httpx\<close> documents \<open>InvalidURL\<close> as no \<open>HTTPError\<close>.\<close>

record post_call =
  pc_url :: string
  pc_event :: event_view
  pc_workspace_id :: string
  pc_timestamp :: string
  pc_signature :: string

datatype posted = Answered int string | HTTPError string string | InvalidURL string

record net =
  nt_allow_private :: bool
  nt_urlparse :: "string \<Rightarrow> (string \<times> string option \<times> int option res) res"
  nt_getaddrinfo :: "string \<Rightarrow> int \<Rightarrow> string + string list"
  nt_is_global :: "string \<Rightarrow> bool"
  nt_post :: "post_call \<Rightarrow> posted"
  nt_hmac :: "string \<Rightarrow> string \<Rightarrow> string"
  nt_dumps :: "event_view \<Rightarrow> string \<Rightarrow> string"
  nt_ciphers :: ciphers
  nt_kms :: kms_env
  nt_uuids :: uuids

definition check_url :: "net \<Rightarrow> string \<Rightarrow> unit res" where
  "check_url N url =
     bindr (nt_urlparse N url) (\<lambda>(scheme, host, port).
     case (if scheme \<in> {''http'', ''https''} then host else None) of
       None \<Rightarrow> Inl (ValueError ''the URL must be http:// or https:// with a host'')
     | Some h \<Rightarrow>
         if h = [] then Inl (ValueError ''the URL must be http:// or https:// with a host'')
         else if nt_allow_private N then Inr ()
         else bindr port (\<lambda>p.
           case nt_getaddrinfo N h (case p of Some n \<Rightarrow> if n \<noteq> 0 then n else if scheme = ''https'' then 443 else 80
                                            | None \<Rightarrow> if scheme = ''https'' then 443 else 80) of
             Inl e \<Rightarrow> Inl (ValueError (''couldn't resolve '' @ h @ '': '' @ e))
           | Inr found \<Rightarrow>
               (case find (\<lambda>ip. \<not> nt_is_global N ip) found of
                  None \<Rightarrow> Inr ()
                | Some ip \<Rightarrow> Inl (ValueError (h @ '' resolves to '' @ ip @ '', which isn't a public address'')))))"

definition sign :: "net \<Rightarrow> string \<Rightarrow> string \<Rightarrow> string \<Rightarrow> string" where
  "sign N secret timestamp text = ''v1='' @ nt_hmac N secret (timestamp @ ''.'' @ text)"

text \<open>Posting an event: the exception that is not caught, or the status, code and error, whether it was posted, and the world.\<close>

datatype crash = Uncaught exc | BadURL string

definition post_event :: "net \<Rightarrow> time \<Rightarrow> webhook \<Rightarrow> event \<Rightarrow> 'h world \<Rightarrow>
    crash + ((delivery_status \<times> int option \<times> string option) \<times> bool \<times> 'h world)" where
  "post_event N now w e wd =
     (let timestamp = py_str (now div 1000000); text = nt_dumps N (event_response e) (e_workspace_id e)
      in case bindr (check_url N (wh_url w)) (\<lambda>_. decrypt (nt_ciphers N) (nt_kms N) (wh_secret_ciphertext w) wd) of
           Inl (ValueError m) \<Rightarrow> Inr ((Undelivered, None, Some (if m = [] then ''ValueError'' else take 500 m)), False, wd)
         | Inl x \<Rightarrow> Inl (Uncaught x)
         | Inr (secret, wd1) \<Rightarrow>
             (case nt_post N \<lparr>pc_url = wh_url w, pc_event = event_response e, pc_workspace_id = e_workspace_id e, pc_timestamp = timestamp,
                     pc_signature = sign N secret timestamp text\<rparr> of
                Answered code answer \<Rightarrow>
                  if 200 \<le> code \<and> code < 300 then Inr ((Delivered, Some code, None), True, wd1)
                  else Inr ((Undelivered, Some code, Some (''HTTP '' @ py_str code @ '': '' @ take 300 answer)), True, wd1)
              | HTTPError cls m \<Rightarrow> Inr ((Undelivered, None, Some (if m = [] then cls else take 500 m)), True, wd1)
              | InvalidURL m \<Rightarrow> Inl (BadURL m)))"

text \<open>One turn of the loop of \<open>deliver_due\<close>, with the clock when it posts and when it records the result; in the loop the clock is a function of the delivery.\<close>

definition deliver_one :: "net \<Rightarrow> time \<Rightarrow> time \<Rightarrow> webhook_delivery \<Rightarrow> 'h feed \<Rightarrow> crash option \<times> 'h feed" where
  "deliver_one N at_post now d f =
     (let attempts = wd_attempts d + 1;
          finish = (\<lambda>status code err g. (None, finish_webhook_delivery (nt_uuids N) now status attempts
            (if status = Pending then stamp now (WEBHOOK_BACKOFF ! nat (attempts - 1)) else now) err code (wd_id d) g))
      in case (get_webhook (wd_webhook_id d) (fd_webhooks f), get_event (wd_event_id d) (fd_events f)) of
           (Some w, Some e) \<Rightarrow>
             if wh_enabled w
             then (case post_event N at_post w e (fd_world f) of
                 Inl c \<Rightarrow> (Some c, f)
               | Inr ((status, code, err), posted, wd1) \<Rightarrow>
                   finish (if status \<noteq> Delivered \<and> attempts \<le> int (length WEBHOOK_BACKOFF) then Pending else status) code err
                     (f\<lparr>fd_world := wd1, fd_posts := fd_posts f @ (if posted then [(wd_id d, status = Delivered)] else [])\<rparr>))
             else finish Undelivered None (Some ''the webhook was disabled or removed'') f
         | _ \<Rightarrow> finish Undelivered None (Some ''the webhook was disabled or removed'') f)"

fun deliver_rows :: "net \<Rightarrow> (string \<Rightarrow> time \<times> time) \<Rightarrow> webhook_delivery list \<Rightarrow> 'h feed \<Rightarrow> crash option \<times> 'h feed" where
  "deliver_rows N clock [] f = (None, f)"
| "deliver_rows N clock (d # ds) f =
     (case deliver_one N (fst (clock (wd_id d))) (snd (clock (wd_id d))) d f of
        (Some c, f1) \<Rightarrow> (Some c, f1)
      | (None, f1) \<Rightarrow> deliver_rows N clock ds f1)"

definition claim_due :: "time \<Rightarrow> 'h feed \<Rightarrow> webhook_delivery list \<times> 'h feed" where
  "claim_due now f =
     (case claim_webhook_deliveries now LEASE_SECONDS BATCH (fd_deliveries f) of (due, t) \<Rightarrow> (due, f\<lparr>fd_deliveries := t\<rparr>))"

definition deliver_due :: "net \<Rightarrow> time \<Rightarrow> (string \<Rightarrow> time \<times> time) \<Rightarrow> 'h feed \<Rightarrow> (crash + nat) \<times> 'h feed" where
  "deliver_due N now clock f =
     (case claim_due now f of (due, f1) \<Rightarrow>
        case deliver_rows N clock due f1 of (Some c, f2) \<Rightarrow> (Inl c, f2) | (None, f2) \<Rightarrow> (Inr (length due), f2))"

subsection \<open>Routes\<close>

definition SECRET_PREFIX :: string where "SECRET_PREFIX = ''whsec_''"

record webhook_request =
  hr_url :: string
  hr_types :: "string list"
  hr_label_selector :: "labels option"
  hr_enabled :: bool

record webhook_view =
  hv_id :: string
  hv_url :: string
  hv_types :: "string list"
  hv_label_selector :: "labels option"
  hv_enabled :: bool
  hv_created_at :: time

definition webhook_response :: "webhook \<Rightarrow> webhook_view" where
  "webhook_response w = \<lparr>hv_id = wh_id w, hv_url = wh_url w, hv_types = wh_types w, hv_label_selector = wh_label_selector w,
     hv_enabled = wh_enabled w, hv_created_at = wh_created_at w\<rparr>"

definition valid_url :: "net \<Rightarrow> string \<Rightarrow> unit res" where
  "valid_url N url = (case check_url N url of Inl (ValueError m) \<Rightarrow> Inl (HTTPException 422 m) | r \<Rightarrow> r)"

definition owned_webhook :: "string \<Rightarrow> member \<Rightarrow> 'h feed \<Rightarrow> webhook res" where
  "owned_webhook i u f =
     (case get_webhook i (fd_webhooks f) of
        None \<Rightarrow> Inl (HTTPException 404 ''webhook not found'')
      | Some w \<Rightarrow> if wh_workspace_id w \<noteq> mb_workspace_id u then Inl (HTTPException 404 ''webhook not found'') else Inr w)"

definition selector_of :: "webhook_request \<Rightarrow> labels option" where
  "selector_of p = (case hr_label_selector p of Some [] \<Rightarrow> None | s \<Rightarrow> s)"

definition list_webhooks :: "member \<Rightarrow> 'h feed \<Rightarrow> webhook_view list res" where
  "list_webhooks u f =
     bindr (require u Admin) (\<lambda>_. Inr (map webhook_response
       (sort_key wh_created_at (filter (\<lambda>w. wh_workspace_id w = mb_workspace_id u) (fd_webhooks f)))))"

definition create_webhook :: "net \<Rightarrow> entropy \<Rightarrow> time \<Rightarrow> string \<Rightarrow> string \<Rightarrow> webhook_request \<Rightarrow> member \<Rightarrow> 'h feed \<Rightarrow>
    ((webhook_view \<times> string) \<times> 'h feed) res" where
  "create_webhook N en now i token p u f =
     bindr (valid_url N (hr_url p)) (\<lambda>_.
     bindr (encrypt (nt_ciphers N) (nt_kms N) en now (SECRET_PREFIX @ token) (mb_workspace_id u) (fd_world f)) (\<lambda>(cipher, wd).
       let w = \<lparr>wh_id = i, wh_workspace_id = mb_workspace_id u, wh_url = hr_url p, wh_secret_ciphertext = cipher, wh_types = hr_types p,
             wh_label_selector = selector_of p, wh_enabled = hr_enabled p, wh_created_by = mb_id u, wh_created_at = now\<rparr>
       in Inr ((webhook_response w, SECRET_PREFIX @ token), f\<lparr>fd_webhooks := fd_webhooks f @ [w], fd_world := wd\<rparr>)))"

definition update_webhook :: "net \<Rightarrow> string \<Rightarrow> webhook_request \<Rightarrow> member \<Rightarrow> 'h feed \<Rightarrow> (webhook_view \<times> 'h feed) res" where
  "update_webhook N i p u f =
     bindr (owned_webhook i u f) (\<lambda>_.
     bindr (valid_url N (hr_url p)) (\<lambda>_.
       let f1 = f\<lparr>fd_webhooks := update_where (\<lambda>w. wh_id w = i)
                 (\<lambda>w. w\<lparr>wh_url := hr_url p, wh_types := hr_types p, wh_label_selector := selector_of p, wh_enabled := hr_enabled p\<rparr>) (fd_webhooks f)\<rparr>
       in case get_webhook i (fd_webhooks f1) of None \<Rightarrow> Inl AssertionError | Some w \<Rightarrow> Inr (webhook_response w, f1)))"

text \<open>The deliveries go with their webhook, as the foreign key says.\<close>

definition delete_webhook :: "string \<Rightarrow> member \<Rightarrow> 'h feed \<Rightarrow> (unit \<times> 'h feed) res" where
  "delete_webhook i u f =
     bindr (owned_webhook i u f) (\<lambda>w. Inr ((), f\<lparr>fd_webhooks := delete_where (\<lambda>v. wh_id v = wh_id w) (fd_webhooks f),
       fd_deliveries := delete_where (\<lambda>d. wd_webhook_id d = wh_id w) (fd_deliveries f)\<rparr>))"

definition latest_workspace_event :: "event tbl \<Rightarrow> string \<Rightarrow> string \<Rightarrow> event option" where
  "latest_workspace_event t workspace_id type =
     (case rev (sort_key e_seq (filter (\<lambda>e. e_workspace_id e = workspace_id \<and> e_type e = type) t)) of [] \<Rightarrow> None | e # _ \<Rightarrow> Some e)"

definition test_webhook :: "net \<Rightarrow> time \<Rightarrow> string \<Rightarrow> member \<Rightarrow> 'h feed \<Rightarrow> (string \<times> 'h feed) res" where
  "test_webhook N now i u f =
     bindr (owned_webhook i u f) (\<lambda>w.
       let f1 = zoo_event (nt_uuids N) now (mb_workspace_id u) None ''webhook.test'' (JObj [(''webhook_id'', JStr (wh_id w))]) f
       in case latest_workspace_event (fd_events f1) (mb_workspace_id u) ''webhook.test'' of
            None \<Rightarrow> Inl AssertionError
          | Some e \<Rightarrow> Inr (e_id e, create_webhook_delivery (nt_uuids N) now (wh_id w) (e_id e) f1))"

text \<open>\<open>events.purge\<close>, which also forgets the idempotency keys; the deliveries of a purged event go with it.\<close>

definition purge_feed :: "int \<Rightarrow> time \<Rightarrow> idempotency_key tbl \<Rightarrow> 'h feed \<Rightarrow> idempotency_key tbl \<times> 'h feed" where
  "purge_feed retention now keys f =
     (let evs = purge_events (stamp now (- retention)) (fd_events f);
          ds = delete_where (\<lambda>d. wd_event_id d \<in> e_id ` set (fd_events f) - e_id ` set evs) (fd_deliveries f)
      in (purge_keys now keys, f\<lparr>fd_events := evs, fd_deliveries := purge_webhook_deliveries (stamp now (- retention)) ds\<rparr>))"

subsection \<open>Workers in any order\<close>

text \<open>
  What the workers hold: the rows as they were claimed, with the time of the claim. A worker takes the deliveries of its claim in turn, and drops the rest when one
  raises. The other requests change events, webhooks and rows that are not held.
\<close>

record 'h hub =
  hb_now :: time
  hb_feed :: "'h feed"
  hb_hands :: "(string \<times> webhook_delivery \<times> time) list"

datatype hub_action =
    ClaimDue string
  | DeliverNext string time
  | Emit string "string option" string json
  | Create entropy string string webhook_request member
  | Update string webhook_request member
  | Delete string member
  | Test string member
  | PurgeFeed int

definition or_same :: "'h feed \<Rightarrow> ('a \<times> 'h feed) res \<Rightarrow> 'h feed" where
  "or_same f r = (case r of Inl e \<Rightarrow> f | Inr (x, f1) \<Rightarrow> f1)"

definition feed_act :: "net \<Rightarrow> time \<Rightarrow> hub_action \<Rightarrow> 'h feed \<Rightarrow> 'h feed" where
  "feed_act N now a f =
     (case a of
        Emit ws sb ty data \<Rightarrow> zoo_event (nt_uuids N) now ws sb ty data f
      | Create en i token p u \<Rightarrow> or_same f (create_webhook N en now i token p u f)
      | Update i p u \<Rightarrow> or_same f (update_webhook N i p u f)
      | Delete i u \<Rightarrow> or_same f (delete_webhook i u f)
      | Test i u \<Rightarrow> or_same f (test_webhook N now i u f)
      | PurgeFeed retention \<Rightarrow> snd (purge_feed retention now [] f)
      | _ \<Rightarrow> f)"

definition hub_act :: "net \<Rightarrow> time \<Rightarrow> hub_action \<Rightarrow> 'h hub \<Rightarrow> 'h hub" where
  "hub_act N now a h =
     (case a of
        ClaimDue wk \<Rightarrow>
          (case claim_due now (hb_feed h) of (due, f1) \<Rightarrow>
             h\<lparr>hb_now := now, hb_feed := f1, hb_hands := hb_hands h @ map (\<lambda>d. (wk, d, now)) due\<rparr>)
      | DeliverNext wk at_post \<Rightarrow>
          (case find (\<lambda>(w, _). w = wk) (hb_hands h) of
             None \<Rightarrow> h\<lparr>hb_now := now\<rparr>
           | Some (w, d, c) \<Rightarrow>
               (case deliver_one N at_post now d (hb_feed h) of (crashed, f1) \<Rightarrow>
                  h\<lparr>hb_now := now, hb_feed := f1, hb_hands := (if crashed = None then remove1 (w, d, c) (hb_hands h)
                     else filter (\<lambda>(w, _). w \<noteq> wk) (hb_hands h))\<rparr>))
      | _ \<Rightarrow> h\<lparr>hb_now := now, hb_feed := feed_act N now a (hb_feed h)\<rparr>)"

text \<open>The clock does not go back, and what a worker holds is dealt with before its lease ends.\<close>

definition hub_able :: "time \<Rightarrow> 'h hub \<Rightarrow> bool" where
  "hub_able now h \<longleftrightarrow> hb_now h \<le> now \<and> (\<forall>(w, d, c) \<in> set (hb_hands h). now < stamp c LEASE_SECONDS)"

definition hub_step :: "net \<Rightarrow> 'h hub \<Rightarrow> 'h hub \<Rightarrow> bool" where
  "hub_step N h h' \<longleftrightarrow> (\<exists>now a. hub_able now h \<and> h' = hub_act N now a h)"

definition hub_start :: "'h hub \<Rightarrow> bool" where
  "hub_start h \<longleftrightarrow> fd_deliveries (hb_feed h) = [] \<and> hb_hands h = [] \<and> fd_posts (hb_feed h) = []"

subsection \<open>What keeps a delivery from being sent twice\<close>

definition tries :: "'h feed \<Rightarrow> string \<Rightarrow> int" where
  "tries f i = int (length (filter (\<lambda>(j, _). j = i) (fd_posts f)))"

definition row_ok :: "(int \<Rightarrow> string) \<Rightarrow> int \<Rightarrow> webhook_delivery \<Rightarrow> bool" where
  "row_ok did n d \<longleftrightarrow> wd_id d = did (wd_seq d) \<and> wd_seq d < n \<and> 0 \<le> wd_attempts d \<and> wd_attempts d \<le> int (length WEBHOOK_BACKOFF) + 1 \<and>
     (wd_status d = Pending \<longrightarrow> wd_attempts d \<le> int (length WEBHOOK_BACKOFF))"

text \<open>Of the table and the log: ids are unique, no delivery was posted more often than its row says, and one that succeeded is delivered.\<close>

definition feed_inv :: "(int \<Rightarrow> string) \<Rightarrow> 'h feed \<Rightarrow> bool" where
  "feed_inv did f \<longleftrightarrow> distinct (map wd_id (fd_deliveries f)) \<and> (\<forall>d \<in> set (fd_deliveries f). row_ok did (fd_delivery_seq f) d \<and> tries f (wd_id d) \<le> wd_attempts d) \<and>
     (\<forall>(i, won) \<in> set (fd_posts f). \<exists>q < fd_delivery_seq f. i = did q) \<and> (\<forall>i. tries f i \<le> int (length WEBHOOK_BACKOFF) + 1) \<and>
     distinct (map fst (filter snd (fd_posts f))) \<and>
     (\<forall>d \<in> set (fd_deliveries f). (wd_id d, True) \<in> set (fd_posts f) \<longrightarrow> wd_status d = Delivered)"

definition held_ok :: "(int \<Rightarrow> string) \<Rightarrow> 'h feed \<Rightarrow> string \<times> webhook_delivery \<times> time \<Rightarrow> bool" where
  "held_ok did f = (\<lambda>(w, d, c). row_ok did (fd_delivery_seq f) d \<and> wd_status d = Pending \<and> tries f (wd_id d) \<le> wd_attempts d \<and>
     (wd_id d, True) \<notin> set (fd_posts f) \<and>
     (\<forall>r \<in> set (fd_deliveries f). wd_id r = wd_id d \<longrightarrow> wd_status r = Pending \<and> wd_attempts r = wd_attempts d \<and> wd_next_attempt_at r = stamp c LEASE_SECONDS))"

definition hub_inv :: "(int \<Rightarrow> string) \<Rightarrow> 'h hub \<Rightarrow> bool" where
  "hub_inv did h \<longleftrightarrow> feed_inv did (hb_feed h) \<and> distinct (map (\<lambda>(w, d, c). wd_id d) (hb_hands h)) \<and> (\<forall>x \<in> set (hb_hands h). held_ok did (hb_feed h) x)"

text \<open>A change that only drops rows and adds new ones, and leaves the log.\<close>

definition ids_ok :: "(int \<Rightarrow> string) \<Rightarrow> 'h feed \<Rightarrow> bool" where
  "ids_ok did f \<longleftrightarrow> distinct (map wd_id (fd_deliveries f)) \<and> (\<forall>d \<in> set (fd_deliveries f). wd_id d = did (wd_seq d) \<and> wd_seq d < fd_delivery_seq f)"

definition new_row :: "'h feed \<Rightarrow> webhook_delivery \<Rightarrow> bool" where
  "new_row f d \<longleftrightarrow> fd_delivery_seq f \<le> wd_seq d \<and> wd_status d = Pending \<and> wd_attempts d = 0"

definition grows :: "(int \<Rightarrow> string) \<Rightarrow> 'h feed \<Rightarrow> 'h feed \<Rightarrow> bool" where
  "grows did f f' \<longleftrightarrow> fd_posts f' = fd_posts f \<and> fd_delivery_seq f \<le> fd_delivery_seq f' \<and> (ids_ok did f \<longrightarrow> ids_ok did f') \<and>
     (\<forall>d \<in> set (fd_deliveries f'). d \<in> set (fd_deliveries f) \<or> new_row f d)"

lemma grows_refl [simp]: "grows did f f"
  by (simp add: grows_def)

lemma grows_trans: "grows did f g \<Longrightarrow> grows did g h \<Longrightarrow> grows did f h"
proof -
  assume a: "grows did f g" "grows did g h"
  have "d \<in> set (fd_deliveries f) \<or> new_row f d" if "d \<in> set (fd_deliveries h)" for d
    using a that unfolding grows_def new_row_def by fastforce
  then show ?thesis using a by (simp add: grows_def)
qed

lemma grows_fold: "(\<And>x g. grows did g (k x g)) \<Longrightarrow> grows did f (fold k xs f)"
  by (induction xs arbitrary: f) (auto intro: grows_trans)

lemma grows_same: "fd_posts f' = fd_posts f \<Longrightarrow> fd_delivery_seq f' = fd_delivery_seq f \<Longrightarrow> fd_deliveries f' = fd_deliveries f \<Longrightarrow> grows did f f'"
  by (simp add: grows_def ids_ok_def)

lemma grows_drop:
  "fd_posts f' = fd_posts f \<Longrightarrow> fd_delivery_seq f' = fd_delivery_seq f \<Longrightarrow> fd_deliveries f' = delete_where p (fd_deliveries f) \<Longrightarrow> grows did f f'"
  by (auto simp: grows_def ids_ok_def set_delete_where) (simp add: delete_where_def distinct_map_filter)

lemma insert_event_fields [simp]:
  "fd_posts (snd (insert_event uu now ws sb ty j f)) = fd_posts f" "fd_deliveries (snd (insert_event uu now ws sb ty j f)) = fd_deliveries f"
  "fd_delivery_seq (snd (insert_event uu now ws sb ty j f)) = fd_delivery_seq f" "fd_world (snd (insert_event uu now ws sb ty j f)) = fd_world f"
  "fd_webhooks (snd (insert_event uu now ws sb ty j f)) = fd_webhooks f"
  by (simp_all add: insert_event_def Let_def)

lemma delivery_event_fields [simp]:
  "fd_posts (delivery_event uu now d f) = fd_posts f" "fd_deliveries (delivery_event uu now d f) = fd_deliveries f"
  "fd_delivery_seq (delivery_event uu now d f) = fd_delivery_seq f" "fd_world (delivery_event uu now d f) = fd_world f"
  "fd_webhooks (delivery_event uu now d f) = fd_webhooks f"
  by (simp_all add: delivery_event_def split: option.split)

lemma grows_create:
  assumes "inj (uu_delivery uu)"
  shows "grows (uu_delivery uu) f (create_webhook_delivery uu now i e f)"
proof -
  let ?d = "\<lparr>wd_id = uu_delivery uu (fd_delivery_seq f), wd_seq = fd_delivery_seq f, wd_webhook_id = i, wd_event_id = e,
    wd_status = Pending, wd_attempts = 0, wd_next_attempt_at = now, wd_last_error = None, wd_response_status = None,
    wd_created_at = now, wd_delivered_at = None\<rparr>"
  have f: "fd_deliveries (create_webhook_delivery uu now i e f) = fd_deliveries f @ [?d]"
    "fd_delivery_seq (create_webhook_delivery uu now i e f) = fd_delivery_seq f + 1" "fd_posts (create_webhook_delivery uu now i e f) = fd_posts f"
    by (simp_all add: create_webhook_delivery_def Let_def)
  have "uu_delivery uu (fd_delivery_seq f) \<notin> wd_id ` set (fd_deliveries f)" if "ids_ok (uu_delivery uu) f"
  proof
    assume "uu_delivery uu (fd_delivery_seq f) \<in> wd_id ` set (fd_deliveries f)"
    then obtain d where "d \<in> set (fd_deliveries f)" "wd_id d = uu_delivery uu (fd_delivery_seq f)" by auto
    then show False using that inj_eq [OF assms, of "wd_seq d" "fd_delivery_seq f"] by (force simp: ids_ok_def)
  qed
  then have "ids_ok (uu_delivery uu) (create_webhook_delivery uu now i e f)" if "ids_ok (uu_delivery uu) f"
    using that by (auto simp: ids_ok_def f)
  then show ?thesis by (simp add: grows_def f new_row_def)
qed

lemma grows_zoo_event:
  assumes "inj (uu_delivery uu)"
  shows "grows (uu_delivery uu) f (zoo_event uu now ws sb ty j f)"
proof -
  have "grows (uu_delivery uu) f (snd (insert_event uu now ws sb ty j f))" by (rule grows_same) simp_all
  then show ?thesis unfolding zoo_event_def split_beta by (rule grows_trans) (rule grows_fold, rule grows_create [OF assms])
qed

lemma grows_feed_act:
  assumes "inj (uu_delivery (nt_uuids N))"
  shows "grows (uu_delivery (nt_uuids N)) f (feed_act N now a f)"
proof (cases a)
  case (Emit ws sb ty data)
  then show ?thesis using grows_zoo_event [OF assms] by (simp add: feed_act_def)
next
  case (Create en i token p u)
  then show ?thesis
    by (auto simp: feed_act_def or_same_def create_webhook_def Let_def bindr_def intro!: grows_same split: sum.split prod.split)
next
  case (Update i p u)
  then show ?thesis
    by (auto simp: feed_act_def or_same_def update_webhook_def Let_def bindr_def intro!: grows_same split: sum.split option.split)
next
  case (Delete i u)
  then show ?thesis
    by (auto simp: feed_act_def or_same_def delete_webhook_def bindr_def intro!: grows_drop split: sum.split)
next
  case (Test i u)
  show ?thesis
  proof (cases "owned_webhook i u f")
    case (Inr w)
    let ?f1 = "zoo_event (nt_uuids N) now (mb_workspace_id u) None ''webhook.test'' (JObj [(''webhook_id'', JStr (wh_id w))]) f"
    show ?thesis
      using Test Inr grows_trans [OF grows_zoo_event [OF assms] grows_create [OF assms]]
      by (cases "latest_workspace_event (fd_events ?f1) (mb_workspace_id u) ''webhook.test''") (simp_all add: feed_act_def or_same_def test_webhook_def Let_def)
  qed (simp add: Test feed_act_def or_same_def test_webhook_def)
next
  case (PurgeFeed retention)
  have "feed_act N now a f = f\<lparr>fd_events := purge_events (stamp now (- retention)) (fd_events f),
      fd_deliveries := delete_where (\<lambda>d. wd_event_id d \<in> e_id ` set (fd_events f) - e_id ` set (purge_events (stamp now (- retention)) (fd_events f)) \<or>
        wd_status d \<noteq> Pending \<and> wd_created_at d < stamp now (- retention)) (fd_deliveries f)\<rparr>"
    using PurgeFeed by (simp add: feed_act_def purge_feed_def Let_def purge_webhook_deliveries_def delete_where_def)
  then show ?thesis by (auto intro!: grows_drop)
qed (simp_all add: feed_act_def)

lemma feed_inv_ids: "feed_inv did f \<Longrightarrow> ids_ok did f"
  by (simp add: feed_inv_def ids_ok_def row_ok_def)

lemma row_ok_later: "row_ok did n d \<Longrightarrow> n \<le> m \<Longrightarrow> row_ok did m d"
  by (simp add: row_ok_def)

lemma feed_inv_rowD:
  "feed_inv did f \<Longrightarrow> d \<in> set (fd_deliveries f) \<Longrightarrow>
     row_ok did (fd_delivery_seq f) d \<and> tries f (wd_id d) \<le> wd_attempts d \<and> ((wd_id d, True) \<in> set (fd_posts f) \<longrightarrow> wd_status d = Delivered)"
  by (simp add: feed_inv_def)

text \<open>A new id was never posted.\<close>

lemma fresh_id:
  assumes "feed_inv did f" "inj did" "fd_delivery_seq f \<le> q"
  shows "(did q, won) \<notin> set (fd_posts f)" "tries f (did q) = 0"
proof -
  show no: "(did q, won) \<notin> set (fd_posts f)" for won
  proof
    assume "(did q, won) \<in> set (fd_posts f)"
    then obtain p where "p < fd_delivery_seq f" "did q = did p" using assms(1) unfolding feed_inv_def by blast
    then show False using inj_eq [OF assms(2), of q p] assms(3) by simp
  qed
  then have "filter (\<lambda>(j, _). j = did q) (fd_posts f) = []" by (auto simp: filter_empty_conv)
  then show "tries f (did q) = 0" by (simp add: tries_def)
qed

lemma tries_same: "fd_posts g = fd_posts f \<Longrightarrow> tries g = tries f"
  by (simp add: tries_def fun_eq_iff)

lemma grows_feed_inv:
  assumes "grows did f g" "feed_inv did f" "inj did"
  shows "feed_inv did g"
proof -
  have p: "fd_posts g = fd_posts f" and n: "fd_delivery_seq f \<le> fd_delivery_seq g" and ids: "ids_ok did g"
    using assms(1) feed_inv_ids [OF assms(2)] by (auto simp: grows_def)
  have "row_ok did (fd_delivery_seq g) d \<and> tries f (wd_id d) \<le> wd_attempts d \<and> ((wd_id d, True) \<in> set (fd_posts f) \<longrightarrow> wd_status d = Delivered)"
    if d: "d \<in> set (fd_deliveries g)" for d
  proof (cases "d \<in> set (fd_deliveries f)")
    case True
    then show ?thesis using assms(2) n by (auto simp: feed_inv_def intro: row_ok_later)
  next
    case False
    then have new: "new_row f d" using assms(1) d by (auto simp: grows_def)
    have i: "wd_id d = did (wd_seq d)" "wd_seq d < fd_delivery_seq g" using ids d by (auto simp: ids_ok_def)
    then show ?thesis using new fresh_id [OF assms(2,3), of "wd_seq d"] by (simp add: new_row_def row_ok_def)
  qed
  moreover have "\<exists>q < fd_delivery_seq g. i = did q" if won: "(i, won) \<in> set (fd_posts f)" for i won
  proof -
    obtain q where "q < fd_delivery_seq f" "i = did q" using won assms(2) unfolding feed_inv_def by blast
    then show ?thesis using n by (auto intro: less_le_trans)
  qed
  ultimately show ?thesis using assms(2) ids unfolding feed_inv_def tries_same [OF p] p ids_ok_def by auto
qed

lemma grows_held:
  assumes "grows did f g" "held_ok did f x" "inj did" "ids_ok did g"
  shows "held_ok did g x"
proof -
  obtain w d c where x: "x = (w, d, c)" by (cases x)
  have p: "fd_posts g = fd_posts f" and n: "fd_delivery_seq f \<le> fd_delivery_seq g" using assms(1) by (auto simp: grows_def)
  have d: "row_ok did (fd_delivery_seq f) d" using assms(2) by (simp add: x held_ok_def)
  have "r \<in> set (fd_deliveries f)" if r: "r \<in> set (fd_deliveries g)" "wd_id r = wd_id d" for r
  proof (rule ccontr)
    assume "r \<notin> set (fd_deliveries f)"
    then have "fd_delivery_seq f \<le> wd_seq r" using assms(1) r(1) by (auto simp: grows_def new_row_def)
    moreover have "did (wd_seq r) = did (wd_seq d)" using r d assms(4) by (simp add: ids_ok_def row_ok_def)
    ultimately show False using inj_eq [OF assms(3), of "wd_seq r" "wd_seq d"] d by (simp add: row_ok_def)
  qed
  then show ?thesis using assms(2) row_ok_later [OF d n] unfolding held_ok_def x tries_same [OF p] p by auto
qed

text \<open>A claim changes only when the rows it takes are tried again.\<close>

lemma claim_due_parts:
  assumes "claim_due now f = (due, g)"
  shows "fd_posts g = fd_posts f" "fd_delivery_seq g = fd_delivery_seq f"
    "fd_deliveries g = update_where (\<lambda>d. wd_id d \<in> wd_id ` set due) (\<lambda>d. d\<lparr>wd_next_attempt_at := stamp now LEASE_SECONDS\<rparr>) (fd_deliveries f)"
    "d \<in> set due \<Longrightarrow> \<exists>r \<in> set (fd_deliveries f). d = r\<lparr>wd_next_attempt_at := stamp now LEASE_SECONDS\<rparr> \<and> wd_status r = Pending \<and> wd_next_attempt_at r \<le> now"
    "distinct (map wd_id (fd_deliveries f)) \<Longrightarrow> distinct (map wd_id due)"
proof -
  define rows where "rows = take BATCH (sort_key wd_seq (filter (\<lambda>d. wd_status d = Pending \<and> wd_next_attempt_at d \<le> now) (fd_deliveries f)))"
  define lend :: "webhook_delivery \<Rightarrow> webhook_delivery" where "lend = (\<lambda>d. d\<lparr>wd_next_attempt_at := stamp now LEASE_SECONDS\<rparr>)"
  have ids: "map wd_id (map lend rows) = map wd_id rows" by (simp add: lend_def)
  then have idset: "wd_id ` set due = wd_id ` set rows" if "due = map lend rows" using that by (metis list.set_map)
  have c: "due = map lend rows" "g = f\<lparr>fd_deliveries := update_where (\<lambda>d. wd_id d \<in> wd_id ` set rows) lend (fd_deliveries f)\<rparr>"
    using assms by (auto simp: claim_due_def claim_webhook_deliveries_def rows_def lend_def Let_def)
  show "fd_posts g = fd_posts f" "fd_delivery_seq g = fd_delivery_seq f" by (simp_all add: c(2))
  show "fd_deliveries g = update_where (\<lambda>d. wd_id d \<in> wd_id ` set due) (\<lambda>d. d\<lparr>wd_next_attempt_at := stamp now LEASE_SECONDS\<rparr>) (fd_deliveries f)"
    unfolding idset [OF c(1)] by (simp add: c(2) lend_def)
  have sub: "set rows \<subseteq> {r \<in> set (fd_deliveries f). wd_status r = Pending \<and> wd_next_attempt_at r \<le> now}"
    using set_take_subset unfolding rows_def by fastforce
  show "d \<in> set due \<Longrightarrow> \<exists>r \<in> set (fd_deliveries f). d = r\<lparr>wd_next_attempt_at := stamp now LEASE_SECONDS\<rparr> \<and> wd_status r = Pending \<and> wd_next_attempt_at r \<le> now"
    using sub by (auto simp: c(1) lend_def)
  assume "distinct (map wd_id (fd_deliveries f))"
  then have "distinct (map wd_id rows)"
    unfolding rows_def take_map [symmetric] by (intro distinct_take distinct_map_sort distinct_map_filter)
  then show "distinct (map wd_id due)" unfolding c(1) ids .
qed

lemma hub_claim_inv:
  assumes inv: "hub_inv did h" and able: "hub_able now h"
  shows "hub_inv did (hub_act N now (ClaimDue wk) h)"
proof -
  obtain due g where cl: "claim_due now (hb_feed h) = (due, g)" by fastforce
  note c = claim_due_parts [OF cl] and f = inv [unfolded hub_inv_def, THEN conjunct1]
  let ?lend = "\<lambda>d :: webhook_delivery. d\<lparr>wd_next_attempt_at := stamp now LEASE_SECONDS\<rparr>"
  have distinct: "distinct (map wd_id (fd_deliveries (hb_feed h)))" using f by (simp add: feed_inv_def)
  have rows: "r \<in> set (fd_deliveries g) \<Longrightarrow> \<exists>r0 \<in> set (fd_deliveries (hb_feed h)). r = (if wd_id r0 \<in> wd_id ` set due then ?lend r0 else r0)" for r
    unfolding c(3) by (auto simp: set_update_where)
  have "distinct (map wd_id (fd_deliveries g))" unfolding c(3) using distinct by (simp add: map_update_where)
  moreover have "row_ok did (fd_delivery_seq g) r \<and> tries g (wd_id r) \<le> wd_attempts r \<and> ((wd_id r, True) \<in> set (fd_posts g) \<longrightarrow> wd_status r = Delivered)"
    if g: "r \<in> set (fd_deliveries g)" for r
  proof -
    obtain r0 where r0: "r0 \<in> set (fd_deliveries (hb_feed h))" "r = (if wd_id r0 \<in> wd_id ` set due then ?lend r0 else r0)" using rows [OF g] by blast
    have "wd_id r = wd_id r0" "wd_seq r = wd_seq r0" "wd_status r = wd_status r0" "wd_attempts r = wd_attempts r0" by (simp_all add: r0(2))
    moreover from this have "row_ok did n r = row_ok did n r0" for n by (simp add: row_ok_def)
    ultimately show ?thesis using feed_inv_rowD [OF f r0(1)] by (simp add: c(1,2) tries_same [OF c(1)])
  qed
  ultimately have fg: "feed_inv did g" using f by (simp add: feed_inv_def c(1,2) tries_same [OF c(1)])
  have apart: "wd_id d \<noteq> wd_id e" if d: "d \<in> set due" and e: "(w, e, t) \<in> set (hb_hands h)" for d w e t
  proof
    assume eq: "wd_id d = wd_id e"
    obtain r where r: "r \<in> set (fd_deliveries (hb_feed h))" "d = ?lend r" "wd_next_attempt_at r \<le> now" using c(4) [OF d] by blast
    have "wd_next_attempt_at r = stamp t LEASE_SECONDS" using inv e r eq unfolding hub_inv_def held_ok_def by fastforce
    moreover have "now < stamp t LEASE_SECONDS" using able e by (auto simp: hub_able_def)
    ultimately show False using r(3) by simp
  qed
  have old: "held_ok did g x" if x: "x \<in> set (hb_hands h)" for x
  proof -
    obtain w e t where xe: "x = (w, e, t)" by (cases x)
    have "wd_status r = Pending \<and> wd_attempts r = wd_attempts e \<and> wd_next_attempt_at r = stamp t LEASE_SECONDS"
      if r: "r \<in> set (fd_deliveries g)" "wd_id r = wd_id e" for r
    proof -
      obtain r0 where r0: "r0 \<in> set (fd_deliveries (hb_feed h))" "r = (if wd_id r0 \<in> wd_id ` set due then ?lend r0 else r0)" using rows [OF r(1)] by blast
      have "wd_id r0 = wd_id e" using r0(2) r(2) by (auto split: if_splits)
      then have "wd_id r0 \<notin> wd_id ` set due" using apart x xe by fastforce
      then show ?thesis using inv x r0 r(2) unfolding hub_inv_def held_ok_def xe by fastforce
    qed
    then show ?thesis using inv x unfolding hub_inv_def held_ok_def xe by (auto simp: c(1,2) tries_same [OF c(1)])
  qed
  have new: "held_ok did g (wk, d, now)" if d: "d \<in> set due" for d
  proof -
    obtain r where r: "r \<in> set (fd_deliveries (hb_feed h))" "d = ?lend r" "wd_status r = Pending" using c(4) [OF d] by blast
    have "r1 = d" if r1: "r1 \<in> set (fd_deliveries g)" "wd_id r1 = wd_id d" for r1
    proof -
      obtain r0 where r0: "r0 \<in> set (fd_deliveries (hb_feed h))" "r1 = (if wd_id r0 \<in> wd_id ` set due then ?lend r0 else r0)" using rows [OF r1(1)] by blast
      have "wd_id r0 = wd_id r" using r0(2) r1(2) r(2) by (auto split: if_splits)
      then have "r0 = r" using distinct r0(1) r(1) by (meson distinct_map inj_onD)
      moreover have "wd_id r = wd_id d" by (simp add: r(2))
      then have "wd_id r \<in> wd_id ` set due" using d by simp
      ultimately show ?thesis using r0(2) r(2) by simp
    qed
    moreover have "row_ok did (fd_delivery_seq g) d \<and> tries g (wd_id d) \<le> wd_attempts d \<and> (wd_id d, True) \<notin> set (fd_posts g)"
      using feed_inv_rowD [OF f r(1)] r(2,3) by (auto simp: row_ok_def c(1,2) tries_same [OF c(1)])
    moreover have "wd_status d = Pending" "wd_next_attempt_at d = stamp now LEASE_SECONDS" by (simp_all add: r(2,3))
    ultimately show ?thesis unfolding held_ok_def by blast
  qed
  have "distinct (map (\<lambda>(w, d, t). wd_id d) (hb_hands h @ map (\<lambda>d. (wk, d, now)) due))"
    using inv c(5) [OF distinct] apart by (fastforce simp: hub_inv_def comp_def)
  then show ?thesis using fg old new by (auto simp: hub_inv_def hub_act_def cl)
qed

text \<open>A turn of a worker changes the row it holds and no other, and posts it at most once.\<close>

lemma finish_fields [simp]:
  "fd_posts (finish_webhook_delivery uu now st n next err code i f) = fd_posts f"
  "fd_delivery_seq (finish_webhook_delivery uu now st n next err code i f) = fd_delivery_seq f"
  "fd_deliveries (finish_webhook_delivery uu now st n next err code i f) =
     update_where (\<lambda>d. wd_id d = i) (finish_row now st n next err code) (fd_deliveries f)"
proof -
  have "fd_posts (fold (delivery_event uu now) ds g) = fd_posts g \<and> fd_delivery_seq (fold (delivery_event uu now) ds g) = fd_delivery_seq g \<and>
      fd_deliveries (fold (delivery_event uu now) ds g) = fd_deliveries g" for ds and g :: "'a feed"
    by (induction ds arbitrary: g) simp_all
  then show "fd_posts (finish_webhook_delivery uu now st n next err code i f) = fd_posts f"
    "fd_delivery_seq (finish_webhook_delivery uu now st n next err code i f) = fd_delivery_seq f"
    "fd_deliveries (finish_webhook_delivery uu now st n next err code i f) = update_where (\<lambda>d. wd_id d = i) (finish_row now st n next err code) (fd_deliveries f)"
    by (simp_all add: finish_webhook_delivery_def Let_def)
qed

definition recorded :: "time \<Rightarrow> webhook_delivery \<Rightarrow> 'h feed \<Rightarrow> 'h feed \<Rightarrow> bool" where
  "recorded now d f g \<longleftrightarrow> fd_delivery_seq g = fd_delivery_seq f \<and>
     (\<exists>st next err code ps. fd_deliveries g = update_where (\<lambda>r. wd_id r = wd_id d) (finish_row now st (wd_attempts d + 1) next err code) (fd_deliveries f) \<and>
        fd_posts g = fd_posts f @ ps \<and> (ps = [] \<or> (\<exists>won. ps = [(wd_id d, won)] \<and> (won \<longrightarrow> st = Delivered))) \<and>
        (st = Pending \<longrightarrow> wd_attempts d + 1 \<le> int (length WEBHOOK_BACKOFF)))"

lemma recorded_finish:
  assumes "fd_delivery_seq f1 = fd_delivery_seq f" "fd_deliveries f1 = fd_deliveries f" "fd_posts f1 = fd_posts f @ ps"
    "ps = [] \<or> (\<exists>won. ps = [(wd_id d, won)] \<and> (won \<longrightarrow> st = Delivered))" "st = Pending \<Longrightarrow> wd_attempts d + 1 \<le> int (length WEBHOOK_BACKOFF)"
  shows "recorded now d f (finish_webhook_delivery uu now st (wd_attempts d + 1) next err code (wd_id d) f1)"
  unfolding recorded_def using assms by (intro conjI exI [of _ st] exI [of _ "next"] exI [of _ err] exI [of _ code] exI [of _ ps]) simp_all

lemma post_event_not_pending: "post_event N now w e wd = Inr ((Pending, code, err), posted, wd1) \<Longrightarrow> False"
  by (auto simp: post_event_def Let_def split: sum.splits exc.splits posted.splits if_splits prod.splits)

lemma deliver_one_recorded: "deliver_one N p now d f = (None, g) \<Longrightarrow> recorded now d f g"
  by (auto simp: deliver_one_def Let_def split: option.splits if_splits sum.splits prod.splits intro!: recorded_finish dest: post_event_not_pending)

lemma deliver_one_crashed: "deliver_one N p now d f = (Some c, g) \<Longrightarrow> g = f"
  by (auto simp: deliver_one_def Let_def split: option.splits if_splits sum.splits prod.splits)

lemma tries_append: "fd_posts g = fd_posts f @ ps \<Longrightarrow> tries g i = tries f i + int (length (filter (\<lambda>(j, _). j = i) ps))"
  by (simp add: tries_def)

lemma recorded_feed_inv:
  assumes "recorded now d f g" "feed_inv did f" "held_ok did f (w, d, c)"
  shows "feed_inv did g"
proof -
  obtain st nxt err code ps where g: "fd_delivery_seq g = fd_delivery_seq f"
      "fd_deliveries g = update_where (\<lambda>r. wd_id r = wd_id d) (finish_row now st (wd_attempts d + 1) nxt err code) (fd_deliveries f)"
      "fd_posts g = fd_posts f @ ps" "ps = [] \<or> (\<exists>won. ps = [(wd_id d, won)] \<and> (won \<longrightarrow> st = Delivered))"
      "st = Pending \<longrightarrow> wd_attempts d + 1 \<le> int (length WEBHOOK_BACKOFF)"
    using assms(1) unfolding recorded_def by blast
  have d: "row_ok did (fd_delivery_seq f) d" "wd_attempts d \<le> int (length WEBHOOK_BACKOFF)" "tries f (wd_id d) \<le> wd_attempts d" "(wd_id d, True) \<notin> set (fd_posts f)"
    using assms(3) by (auto simp: held_ok_def row_ok_def)
  have t: "tries g i = tries f i" if "i \<noteq> wd_id d" for i using g(4) that by (auto simp: tries_append [OF g(3)])
  have td: "tries g (wd_id d) \<le> tries f (wd_id d) + 1" using g(4) by (auto simp: tries_append [OF g(3)])
  have "row_ok did (fd_delivery_seq g) r \<and> tries g (wd_id r) \<le> wd_attempts r \<and> ((wd_id r, True) \<in> set (fd_posts g) \<longrightarrow> wd_status r = Delivered)"
    if r: "r \<in> set (fd_deliveries g)" for r
  proof -
    obtain r0 where r0: "r0 \<in> set (fd_deliveries f)" "r = (if wd_id r0 = wd_id d then finish_row now st (wd_attempts d + 1) nxt err code r0 else r0)"
      using r unfolding g(2) set_update_where by blast
    show ?thesis
    proof (cases "wd_id r0 = wd_id d")
      case True
      then have f: "wd_id r = wd_id d" "wd_seq r = wd_seq r0" "wd_attempts r = wd_attempts d + 1" "wd_status r = st"
        using r0(2) by (simp_all add: finish_row_def)
      moreover have "(wd_id d, True) \<in> set (fd_posts g) \<longrightarrow> st = Delivered" using g(3,4) d(4) by auto
      ultimately show ?thesis using feed_inv_rowD [OF assms(2) r0(1)] True d td g(1,5) by (auto simp: row_ok_def)
    next
      case False
      then have "(wd_id r0, True) \<in> set (fd_posts g) \<longleftrightarrow> (wd_id r0, True) \<in> set (fd_posts f)" using g(3,4) by auto
      then show ?thesis using False r0 feed_inv_rowD [OF assms(2) r0(1)] t g(1) by simp
    qed
  qed
  moreover have "distinct (map wd_id (fd_deliveries g))"
    unfolding g(2) using assms(2) by (simp add: map_update_where finish_row_def feed_inv_def)
  moreover have "\<exists>q < fd_delivery_seq g. i = did q" if "(i, won) \<in> set (fd_posts g)" for i won
    using that g(1,3,4) d(1) assms(2) by (auto simp: feed_inv_def row_ok_def)
  moreover have "tries g i \<le> int (length WEBHOOK_BACKOFF) + 1" for i
    using t [of i] td d(2,3) assms(2) by (cases "i = wd_id d") (auto simp: feed_inv_def)
  moreover have "distinct (map fst (filter snd (fd_posts g)))"
    using g(3,4) d(4) assms(2) by (force simp: feed_inv_def)
  ultimately show ?thesis unfolding feed_inv_def by auto
qed

lemma recorded_held:
  assumes "recorded now d f g" "held_ok did f (w', d', c')" "wd_id d' \<noteq> wd_id d"
  shows "held_ok did g (w', d', c')"
proof -
  obtain st nxt err code ps where g: "fd_delivery_seq g = fd_delivery_seq f"
      "fd_deliveries g = update_where (\<lambda>r. wd_id r = wd_id d) (finish_row now st (wd_attempts d + 1) nxt err code) (fd_deliveries f)"
      "fd_posts g = fd_posts f @ ps" "ps = [] \<or> (\<exists>won. ps = [(wd_id d, won)])"
    using assms(1) unfolding recorded_def by blast
  have "tries g (wd_id d') = tries f (wd_id d')" "(wd_id d', True) \<in> set (fd_posts g) \<longleftrightarrow> (wd_id d', True) \<in> set (fd_posts f)"
    using g(3,4) assms(3) by (auto simp: tries_append [OF g(3)])
  moreover have "r \<in> set (fd_deliveries f)" if "r \<in> set (fd_deliveries g)" "wd_id r = wd_id d'" for r
    using that assms(3) unfolding g(2) set_update_where by (auto simp: finish_row_def split: if_splits)
  ultimately show ?thesis using assms(2) unfolding held_ok_def g(1) by auto
qed

lemma hub_deliver_inv:
  assumes inv: "hub_inv did h"
  shows "hub_inv did (hub_act N now (DeliverNext wk p) h)"
proof (cases "find (\<lambda>(w, _). w = wk) (hb_hands h)")
  case None
  then show ?thesis using inv by (simp add: hub_act_def hub_inv_def)
next
  case (Some x)
  obtain w d c where x: "x = (w, d, c)" by (cases x)
  have m: "(w, d, c) \<in> set (hb_hands h)" using Some x by (auto simp: find_Some_iff in_set_conv_nth)
  have held: "held_ok did (hb_feed h) (w, d, c)" and f: "feed_inv did (hb_feed h)" using inv m by (auto simp: hub_inv_def)
  obtain cr g where del: "deliver_one N p now d (hb_feed h) = (cr, g)" by fastforce
  show ?thesis
  proof (cases cr)
    case None
    have rec: "recorded now d (hb_feed h) g" using deliver_one_recorded del None by blast
    let ?ids = "map (\<lambda>(w, d, c). wd_id d)"
    have dist: "distinct (?ids (hb_hands h))" using inv by (simp add: hub_inv_def)
    then have apart: "wd_id d' \<noteq> wd_id d" if "(w', d', c') \<in> set (remove1 (w, d, c) (hb_hands h))" for w' d' c'
    proof -
      have "(w', d', c') \<in> set (hb_hands h)" "(w', d', c') \<noteq> (w, d, c)"
        using that dist by (auto simp: distinct_map dest: notin_set_remove1 in_set_remove1)
      then show ?thesis using dist m by (auto simp: distinct_map inj_on_def)
    qed
    have sub: "set (remove1 (w, d, c) (hb_hands h)) \<subseteq> set (hb_hands h)" by (rule set_remove1_subset)
    have "held_ok did g (w', d', c')" if "(w', d', c') \<in> set (remove1 (w, d, c) (hb_hands h))" for w' d' c'
      using recorded_held [OF rec _ apart [OF that]] subsetD [OF sub that] inv by (simp add: hub_inv_def)
    moreover have "distinct (?ids (remove1 (w, d, c) (hb_hands h)))"
      using dist inj_on_subset [OF _ sub] by (auto simp: distinct_map)
    ultimately show ?thesis
      using recorded_feed_inv [OF rec f held] Some x del None by (auto simp: hub_act_def hub_inv_def)
  next
    case (Some e)
    then have "g = hb_feed h" using deliver_one_crashed del by blast
    then show ?thesis using inv \<open>find _ _ = Some x\<close> x del Some by (auto simp: hub_act_def hub_inv_def distinct_map_filter)
  qed
qed

lemma hub_feed_act_inv:
  assumes "hub_inv (uu_delivery (nt_uuids N)) h" "inj (uu_delivery (nt_uuids N))"
  shows "hub_inv (uu_delivery (nt_uuids N)) (h\<lparr>hb_now := now, hb_feed := feed_act N now a (hb_feed h)\<rparr>)"
proof -
  note g = grows_feed_act [OF assms(2), of "hb_feed h" now a]
  have f: "feed_inv (uu_delivery (nt_uuids N)) (feed_act N now a (hb_feed h))"
    using grows_feed_inv [OF g _ assms(2)] assms(1) by (simp add: hub_inv_def)
  have "\<forall>x \<in> set (hb_hands h). held_ok (uu_delivery (nt_uuids N)) (feed_act N now a (hb_feed h)) x"
    using grows_held [OF g _ assms(2) feed_inv_ids [OF f]] assms(1) by (auto simp: hub_inv_def)
  then show ?thesis using f assms(1) by (simp add: hub_inv_def)
qed

interpretation deliveries: transition_system hub_start "\<lambda>h h'. inj (uu_delivery (nt_uuids N)) \<and> hub_step N h h'" "hub_inv (uu_delivery (nt_uuids N))"
  for N
proof
  show "hub_start h \<Longrightarrow> hub_inv (uu_delivery (nt_uuids N)) h" for h :: "'a hub"
    by (simp add: hub_start_def hub_inv_def feed_inv_def tries_def)
  show "hub_inv (uu_delivery (nt_uuids N)) h'"
    if inv: "hub_inv (uu_delivery (nt_uuids N)) h" and step: "inj (uu_delivery (nt_uuids N)) \<and> hub_step N h h'" for h h' :: "'a hub"
  proof -
    obtain now a where a: "hub_able now h" "h' = hub_act N now a h" using step unfolding hub_step_def by blast
    then show ?thesis
      using hub_claim_inv [OF inv a(1)] hub_deliver_inv [OF inv] hub_feed_act_inv [OF inv, of now a] step
      by (cases a) (auto simp: hub_act_def)
  qed
qed

subsection \<open>Properties\<close>

text \<open>
  C11. A webhook gets an event once. Whatever events, changes of webhooks, purges and turns of any number of workers come in whatever order, when each
  worker deals with what it claimed before the lease ends: no delivery is answered with success twice, and none is posted more
  than once and the number of retries of \<open>WEBHOOK_BACKOFF\<close>.
\<close>

theorem delivered_once:
  assumes "hub_start h0" "inj (uu_delivery (nt_uuids N))" "(hub_step N)\<^sup>*\<^sup>* h0 h"
  shows "distinct (map fst (filter snd (fd_posts (hb_feed h)))) \<and>
    (\<forall>i. length (filter (\<lambda>(j, won). j = i) (fd_posts (hb_feed h))) \<le> length WEBHOOK_BACKOFF + 1)"
proof -
  have "(\<lambda>h h'. inj (uu_delivery (nt_uuids N)) \<and> hub_step N h h')\<^sup>*\<^sup>* h0 h" using assms(2,3) by (simp add: assms(2))
  then have "hub_inv (uu_delivery (nt_uuids N)) h" by (rule deliveries.reachable_inv [OF assms(1)])
  then have f: "feed_inv (uu_delivery (nt_uuids N)) (hb_feed h)" by (simp add: hub_inv_def)
  have t: "tries (hb_feed h) i \<le> int (length WEBHOOK_BACKOFF) + 1" for i using f by (simp add: feed_inv_def)
  have "length (filter (\<lambda>(j, won). j = i) (fd_posts (hb_feed h))) \<le> length WEBHOOK_BACKOFF + 1" for i
    using t [of i] unfolding tries_def by linarith
  then show ?thesis using f by (simp add: feed_inv_def)
qed

definition tally :: "int \<Rightarrow> string" where
  "tally n = (if n < 0 then ''-'' else []) @ replicate (nat \<bar>n\<bar>) (CHR ''i'')"

lemma inj_tally: "inj tally"
proof (rule injI)
  fix a b assume eq: "tally a = tally b"
  then have "(CHR ''-'' \<in> set (tally a)) = (CHR ''-'' \<in> set (tally b))" by simp
  then have "(a < 0) = (b < 0)" by (auto simp: tally_def split: if_splits)
  then show "a = b" using arg_cong [OF eq, of length] by (auto simp: tally_def split: if_splits)
qed

definition demo_net :: net where
  "demo_net = \<lparr>nt_allow_private = False, nt_urlparse = (\<lambda>u. Inr (''https'', Some ''example.com'', Inr None)), nt_getaddrinfo = (\<lambda>h p. Inr [''93.184.216.34'']),
     nt_is_global = (\<lambda>ip. True), nt_post = (\<lambda>c. Answered 200 []), nt_hmac = (\<lambda>k t. k @ t), nt_dumps = (\<lambda>e ws. ev_id e),
     nt_ciphers = demo_ciphers, nt_kms = demo_env, nt_uuids = \<lparr>uu_event = tally, uu_delivery = tally\<rparr>\<rparr>"

definition demo_webhook :: webhook where
  "demo_webhook = \<lparr>wh_id = ''h1'', wh_workspace_id = ''w1'', wh_url = ''https://example.com/hook'', wh_secret_ciphertext = ''zk1:k1:dkwhsec_1'', wh_types = [],
     wh_label_selector = None, wh_enabled = True, wh_created_by = ''u1'', wh_created_at = 0\<rparr>"

definition demo_hub :: "unit hub" where
  "demo_hub = \<lparr>hb_now = 0, hb_feed = \<lparr>fd_events = [], fd_event_seq = 1, fd_webhooks = [demo_webhook], fd_deliveries = [], fd_delivery_seq = 1,
     fd_world = demo_old_key\<lparr>w_data_keys := [(''k1'', ''dk'')]\<rparr>, fd_posts = []\<rparr>, hb_hands = []\<rparr>"

theorem delivered_once_witness:
  "(let h = hub_act demo_net 3 (DeliverNext ''a'' 3) (hub_act demo_net 2 (ClaimDue ''a'') (hub_act demo_net 1 (Emit ''w1'' None ''server.state'' JNull) demo_hub))
    in distinct (map fst (filter snd (fd_posts (hb_feed h)))) \<and> (\<forall>i. length (filter (\<lambda>(j, won). j = i) (fd_posts (hb_feed h))) \<le> length WEBHOOK_BACKOFF + 1))"
proof -
  let ?h1 = "hub_act demo_net 1 (Emit ''w1'' None ''server.state'' JNull) demo_hub"
  let ?h2 = "hub_act demo_net 2 (ClaimDue ''a'') ?h1"
  have h1: "hb_now ?h1 = 1" "hb_hands ?h1 = []" by (simp_all add: hub_act_def demo_hub_def)
  have step: "hub_able now h \<Longrightarrow> (hub_step demo_net)\<^sup>*\<^sup>* demo_hub h \<Longrightarrow> (hub_step demo_net)\<^sup>*\<^sup>* demo_hub (hub_act demo_net now a h)" for now h a
    by (rule rtranclp.rtrancl_into_rtrancl) (auto simp: hub_step_def)
  have a1: "hub_able 1 demo_hub" by (simp add: hub_able_def demo_hub_def)
  have a2: "hub_able 2 ?h1" using h1 by (simp add: hub_able_def)
  have a3: "hub_able 3 ?h2"
    using h1 by (auto simp: hub_able_def hub_act_def stamp_def LEASE_SECONDS_def seconds_def split: prod.splits)
  have "(hub_step demo_net)\<^sup>*\<^sup>* demo_hub (hub_act demo_net 3 (DeliverNext ''a'' 3) ?h2)"
    by (intro step a1 a2 a3 rtranclp.rtrancl_refl)
  moreover have "hub_start demo_hub" "inj (uu_delivery (nt_uuids demo_net))" by (simp_all add: hub_start_def demo_hub_def demo_net_def inj_tally)
  ultimately show ?thesis using delivered_once unfolding Let_def by blast
qed

lemma oldest_first:
  assumes "distinct (map wd_seq t)" "d \<in> set t" "p d" "\<forall>r \<in> set t. p r \<longrightarrow> wd_seq d \<le> wd_seq r" "0 < n"
  shows "\<exists>ds. take n (sort_key wd_seq (filter p t)) = d # ds"
proof -
  obtain x xs where x: "sort_key wd_seq (filter p t) = x # xs" using assms(2,3) by (cases "sort_key wd_seq (filter p t)") (auto simp: filter_empty_conv)
  have m: "x \<in> set t" "p x" using sort_key_ConsD [OF x] by auto
  have "d \<in> set (x # xs)" unfolding x [symmetric] using assms(2,3) by simp
  moreover have "sorted (map wd_seq (x # xs))" unfolding x [symmetric] by simp
  ultimately have "wd_seq x \<le> wd_seq d" by auto
  then have "x = d" using assms(1,2,4) m by (metis distinct_map inj_onD order_antisym)
  then show ?thesis using x assms(5) by (cases n) auto
qed


definition demo_delivery :: "int \<Rightarrow> webhook_delivery" where
  "demo_delivery q = \<lparr>wd_id = tally q, wd_seq = q, wd_webhook_id = ''h1'', wd_event_id = ''1'', wd_status = Pending, wd_attempts = 0, wd_next_attempt_at = 0,
     wd_last_error = None, wd_response_status = None, wd_created_at = 0, wd_delivered_at = None\<rparr>"

definition demo_feed :: "unit feed" where
  "demo_feed = (hb_feed demo_hub)\<lparr>fd_events := [demo_event 1], fd_event_seq := 2, fd_deliveries := [demo_delivery 1, demo_delivery 2], fd_delivery_seq := 3\<rparr>"

lemma demo_decrypt: "decrypt demo_ciphers demo_env ''zk1:k1:dkwhsec_1'' (fd_world demo_feed) = Inr (''whsec_1'', fd_world demo_feed)"
  by (simp add: decrypt_def data_key_by_id_def open_token_def demo_feed_def demo_hub_def demo_old_key_def ENVELOPE_def demo_ciphers_def)


lemma finish_keeps:
  "fd_world (finish_webhook_delivery uu now st n next err code i f) = fd_world f \<and> fd_webhooks (finish_webhook_delivery uu now st n next err code i f) = fd_webhooks f \<and>
   (\<exists>more. fd_events (finish_webhook_delivery uu now st n next err code i f) = fd_events f @ more)"
proof -
  have one: "\<exists>more. fd_events (delivery_event uu now d g) = fd_events g @ more" for d and g :: "'a feed"
    by (auto simp: delivery_event_def insert_event_def Let_def split: option.split)
  have "fd_world (fold (delivery_event uu now) ds g) = fd_world g \<and> fd_webhooks (fold (delivery_event uu now) ds g) = fd_webhooks g \<and>
      (\<exists>more. fd_events (fold (delivery_event uu now) ds g) = fd_events g @ more)" for ds and g :: "'a feed"
  proof (induction ds arbitrary: g)
    case (Cons d ds)
    obtain m where "fd_events (delivery_event uu now d g) = fd_events g @ m" using one by blast
    then show ?case using Cons.IH [of "delivery_event uu now d g"] by auto
  qed simp
  from this [of _ "f\<lparr>fd_deliveries := d\<rparr>" for d] show ?thesis by (simp add: finish_webhook_delivery_def Let_def)
qed



end
