(* ===== verification/Spec2Isabelle.thy ===== *)
theory Spec2Isabelle
  imports Jobs Labels Quotas RateLimits Auth Access Placement Security Errors Runtime Pools Lifecycle Workspaces Leases Pages Events Idempotency Webhooks
begin

text \<open>
  \<^bold>\<open>Zoo\<close> runs sandboxes (containers, pods and virtual machines) for agents. This development models its server
  (\<open>src/apps/server\<close>, with the queries of \<open>src/db/generated/query.py\<close> and the triggers of
  \<open>src/db/migrations\<close>) and proves what the server promises about jobs, sandboxes, keys, quotas, secrets, workspaces, events and webhooks.

  \<^bold>\<open>How the parts interact.\<close> A request passes the idempotency middleware, the rate limits and the authentication, which make a member
  of a token; a route checks the member's role and scope and the quotas, changes rows in one transaction, and queues a job. Workers claim
  jobs and run the handler of their kind against the hosts; sweeps queue jobs for idle, expired and lost sandboxes; a warm pool keeps
  containers ready for creates. Changes of rows write events, which streams and webhooks pass on. Several processes share one database;
  leases say which one does a singleton's work.

  \<^bold>\<open>Conventions.\<close> A table is a list of records in the order of insertion, and a query is a definition named as its constant in
  \<open>query.py\<close>. A dictionary is an association list. Times are whole microseconds and operations take the clock as an
  argument; ids, random bytes and digests are arguments too. A call that raises gives \<open>Inl\<close> of an \<open>exc\<close>, and a transaction
  that raises leaves the state as it was. Docker, Kubernetes, the VM controller, guests, KMS services, HTTP and name resolution are not
  under \<open>src/apps/server\<close>'s control: they are arguments (\<open>hosts\<close>, \<open>ciphers\<close>, \<open>net\<close>), arbitrary unless a theorem says
  what it needs of them. The state of the whole server is a \<open>zoo\<close>: the job queue with the \<open>world\<close> of the other tables.

  \<^bold>\<open>The theories.\<close>
  \<^item> \<open>Prelude\<close>: results, Python's texts and dictionaries, tables, and the locales \<open>keyed_table\<close> (a table with a key) and
    \<open>transition_system\<close> (invariants of what can be reached), which the components interpret.
  \<^item> \<open>JobTable\<close>, \<open>Jobs\<close> (\<open>jobs.py\<close>): the queue; \<open>jobs_step\<close> is any interleaving of its threads. One job of a sandbox runs at a time,
    attempts are bounded, a finished job is final, \<open>drain\<close> ends.
  \<^item> \<open>SandboxTable\<close>, \<open>World\<close>: the rows and queries of sandboxes and of the other tables.
  \<^item> \<open>Labels\<close>, \<open>Quotas\<close>, \<open>RateLimits\<close> (\<open>labels.py\<close>, \<open>quotas.py\<close>, \<open>sizes.py\<close>, \<open>limits.py\<close>): what is put is read
    back; no window of a limiter has more than its count, and its \<open>Retry-After\<close> is enough.
  \<^item> \<open>Auth\<close>, \<open>Access\<close>, \<open>Placement\<close> (\<open>auth_api.py\<close>, \<open>sandbox_api.py\<close>, \<open>platforms.py\<close>): keys cannot administer, scoped keys are
    confined, revoked keys are nobody; the cached check of a tool call agrees with the one on the tables; where a virtual machine goes.
  \<^item> \<open>Kms\<close>, \<open>Security\<close> (\<open>kms.py\<close>, \<open>security.py\<close>): stored secrets read back, also after rotation, and are masked in
    results.
  \<^item> \<open>Errors\<close> (\<open>errors.py\<close>): every error response has a documented code.
  \<^item> \<open>Programs\<close>: programs over the state and the hosts with faults; \<open>Runtime\<close> (\<open>runtime.py\<close>, \<open>remote_docker.py\<close>), \<open>Pools\<close>
    (\<open>pool.py\<close>): routing to drivers and the warm pool, whose claims win over its upkeep.
  \<^item> \<open>Lifecycle\<close>, \<open>Handlers\<close>, \<open>HandlerFacts\<close>, \<open>Sweeps\<close> (\<open>sandbox_api.py\<close>): the routes of a sandbox, the handlers of its jobs, the
    warm create and the sweeps. Starts and creates stay within the quotas, a handler changes its own sandbox only (locale
    \<open>row_keeper\<close>), boots bring up, deletes are complete, a create leaves all or nothing.
  \<^item> \<open>Workspaces\<close> (\<open>workspaces_api.py\<close>): every route, with \<open>ws_step\<close> any sequence of them. Rows stay well formed, every workspace
    has an owner, and only owners touch admins.
  \<^item> \<open>Leases\<close> (\<open>workers.py\<close>, \<open>tickets.py\<close>): the lease table refines one lock with an expiry per name (locale \<open>timed_lock\<close>,
    interpreted on the lock and on the table); a ticket works once.
  \<^item> \<open>Pages\<close> (\<open>pages.py\<close>): lists in pages (locale \<open>keyset\<close>, for queries that read below a key); the pages of the sandboxes are the
    list.
  \<^item> \<open>Events\<close>, \<open>Webhooks\<close> (\<open>events.py\<close>, \<open>webhooks.py\<close>, triggers): a stream sends an event exactly once while
    transactions commit in any order; a webhook gets an event once when workers keep to their leases, and what happens when not.
  \<^item> \<open>Idempotency\<close> (\<open>idempotency.py\<close>): a retried request runs once.

  \<^bold>\<open>Loops and fuel.\<close> Functions end by their structure or a measure, except three. \<open>collect\<close> of \<open>Pages\<close> is a \<open>partial_function\<close>, proved to return for a keyset query.
  \<open>drain\<close> and \<open>create_async\<close> take fuel (a bound on rounds), and are proved to return: \<open>drain\<close> with one round more than the work
  left in the queue, \<open>create_async\<close> with one more than there are pooled sandboxes. \<open>all_pages\<close> follows at most a given number of pages, more than there are sandboxes in the theorem. A stream and a worker
  have no end: a finite list of rounds stands for what they have done so far.

  \<^bold>\<open>Not modelled.\<close> The drivers (\<open>docker.py\<close>, \<open>kube.py\<close>, \<open>macos.py\<close>, \<open>windows.py\<close>, \<open>vm_control.py\<close>), guests, gateway, nodes and registry: they
  are protocols with programs outside the server, and are arguments here. Tools, backups, object storage and the vault routes move files on hosts.
  \<open>writer.py\<close>, metering, audit and admin reports batch and read log rows no modelled part depends on; the list of tool calls is left out with them.
  Caches, start-up, logging and metrics hold no state of their own that a property needs. Generated code other than the queries, the Go services, the SDKs and
  the web interface are other programs. Of the modelled parts, request validation by FastAPI, the base64 text of cursors and the text of stream frames
  are left out.
\<close>

end
